theory Spec2Isabelle
  imports Complex_Main "HOL-Library.Word" "HOL-Library.Extended_Nat"
begin

unbundle bit_operations_syntax

section \<open>JavaScript numbers\<close>

text \<open>
  A JavaScript number is an IEEE-754 double. The model keeps the special values the
  code tests for (both infinities, NaN, the negative zero) and takes every other value
  as a real number: arithmetic on finite values is exact, without rounding, overflow or
  underflow (the operations that take a result beyond the range of a double to an infinity
  or a zero follow at the end of this section). \<open>Num 0\<close> is the positive zero,
  \<open>NegZero\<close> the negative one.
\<close>

datatype jsnum = Num real | NegZero | PosInf | NegInf | NaN

fun isFinite :: "jsnum \<Rightarrow> bool" where
  "isFinite (Num r) = True"
| "isFinite NegZero = True"
| "isFinite PosInf = False"
| "isFinite NegInf = False"
| "isFinite NaN = False"

fun jval :: "jsnum \<Rightarrow> real" where
  "jval (Num r) = r"
| "jval NegZero = 0"
| "jval PosInf = 0"
| "jval NegInf = 0"
| "jval NaN = 0"

fun signbit :: "jsnum \<Rightarrow> bool" where
  "signbit (Num r) = (r < 0)"
| "signbit NegZero = True"
| "signbit PosInf = False"
| "signbit NegInf = True"
| "signbit NaN = False"

definition isZero :: "jsnum \<Rightarrow> bool" where
  "isZero a = (isFinite a \<and> jval a = 0)"

definition mk_num :: "bool \<Rightarrow> real \<Rightarrow> jsnum" where
  "mk_num neg r = (if r = 0 then (if neg then NegZero else Num 0) else Num r)"

definition mk_inf :: "bool \<Rightarrow> jsnum" where
  "mk_inf neg = (if neg then NegInf else PosInf)"

fun jneg :: "jsnum \<Rightarrow> jsnum" where
  "jneg (Num r) = (if r = 0 then NegZero else Num (- r))"
| "jneg NegZero = Num 0"
| "jneg PosInf = NegInf"
| "jneg NegInf = PosInf"
| "jneg NaN = NaN"

definition jadd :: "jsnum \<Rightarrow> jsnum \<Rightarrow> jsnum" where
  "jadd a b =
     (if a = NaN \<or> b = NaN then NaN
      else if a = PosInf then (if b = NegInf then NaN else PosInf)
      else if a = NegInf then (if b = PosInf then NaN else NegInf)
      else if b = PosInf \<or> b = NegInf then b
      else mk_num (signbit a \<and> signbit b) (jval a + jval b))"

definition jsub :: "jsnum \<Rightarrow> jsnum \<Rightarrow> jsnum" where
  "jsub a b = jadd a (jneg b)"

definition jmul :: "jsnum \<Rightarrow> jsnum \<Rightarrow> jsnum" where
  "jmul a b =
     (if a = NaN \<or> b = NaN then NaN
      else if \<not> isFinite a \<or> \<not> isFinite b
        then (if isZero a \<or> isZero b then NaN else mk_inf (signbit a \<noteq> signbit b))
      else mk_num (signbit a \<noteq> signbit b) (jval a * jval b))"

definition jdiv :: "jsnum \<Rightarrow> jsnum \<Rightarrow> jsnum" where
  "jdiv a b =
     (if a = NaN \<or> b = NaN then NaN
      else if \<not> isFinite a
        then (if \<not> isFinite b then NaN else mk_inf (signbit a \<noteq> signbit b))
      else if \<not> isFinite b then mk_num (signbit a \<noteq> signbit b) 0
      else if isZero b
        then (if isZero a then NaN else mk_inf (signbit a \<noteq> signbit b))
      else mk_num (signbit a \<noteq> signbit b) (jval a / jval b))"

text \<open>The comparisons: every comparison with NaN is false, the two zeros are equal.\<close>

definition jlt :: "jsnum \<Rightarrow> jsnum \<Rightarrow> bool" where
  "jlt a b =
     (if a = NaN \<or> b = NaN then False
      else if a = PosInf \<or> b = NegInf then False
      else if a = NegInf \<or> b = PosInf then True
      else jval a < jval b)"

definition jle :: "jsnum \<Rightarrow> jsnum \<Rightarrow> bool" where
  "jle a b =
     (if a = NaN \<or> b = NaN then False
      else if a = NegInf \<or> b = PosInf then True
      else if a = PosInf \<or> b = NegInf then False
      else jval a \<le> jval b)"

definition jgt :: "jsnum \<Rightarrow> jsnum \<Rightarrow> bool" where
  "jgt a b = jlt b a"

definition jge :: "jsnum \<Rightarrow> jsnum \<Rightarrow> bool" where
  "jge a b = jle b a"

text \<open>\<open>Math.max\<close> and \<open>Math.min\<close> of two numbers: NaN when either is NaN, and the
  positive zero is larger than the negative one.\<close>

definition Math_max :: "jsnum \<Rightarrow> jsnum \<Rightarrow> jsnum" where
  "Math_max a b =
     (if a = NaN \<or> b = NaN then NaN
      else if jlt a b then b
      else if jlt b a then a
      else if a = NegZero then b else a)"

definition Math_min :: "jsnum \<Rightarrow> jsnum \<Rightarrow> jsnum" where
  "Math_min a b =
     (if a = NaN \<or> b = NaN then NaN
      else if jlt a b then a
      else if jlt b a then b
      else if b = NegZero then b else a)"

fun Math_abs :: "jsnum \<Rightarrow> jsnum" where
  "Math_abs (Num r) = Num \<bar>r\<bar>"
| "Math_abs NegZero = Num 0"
| "Math_abs PosInf = PosInf"
| "Math_abs NegInf = PosInf"
| "Math_abs NaN = NaN"

text \<open>\<open>Math.hypot\<close> of three numbers: an infinite argument gives \<open>+Infinity\<close> even
  beside a NaN; otherwise a NaN argument gives NaN.\<close>

definition isInfinite :: "jsnum \<Rightarrow> bool" where
  "isInfinite a = (a = PosInf \<or> a = NegInf)"

definition Math_hypot :: "jsnum \<Rightarrow> jsnum \<Rightarrow> jsnum \<Rightarrow> jsnum" where
  "Math_hypot a b c =
     (if isInfinite a \<or> isInfinite b \<or> isInfinite c then PosInf
      else if a = NaN \<or> b = NaN \<or> c = NaN then NaN
      else Num (sqrt ((jval a)\<^sup>2 + (jval b)\<^sup>2 + (jval c)\<^sup>2)))"

text \<open>
  The range of a double. The largest double is \<open>2^1024 - 2^971\<close>, and a result whose
  magnitude reaches \<open>2^1024 - 2^970\<close>, halfway to \<open>2^1024\<close>, is rounded to an
  infinity; the smallest positive double is \<open>2^-1074\<close>, and a result whose magnitude is
  at most \<open>2^-1075\<close>, half of it, is rounded to a zero of its sign. The scan for the
  sample closest to a ray compares squared distances with \<open>+Infinity\<close> and projection
  lengths with 0, so there a result that leaves the range of a double decides the outcome:
  every operation of the scan is one of the operations below, the exact one followed by
  \<open>double_range\<close>. The rounding of a result that stays in the range is not modelled.
\<close>

definition max_round :: real where
  "max_round = 2 ^ 1024 - 2 ^ 970"

definition min_round :: real where
  "min_round = 1 / 2 ^ 1075"

definition double_range :: "jsnum \<Rightarrow> jsnum" where
  "double_range a =
     (if \<not> isFinite a then a
      else if max_round \<le> jval a then PosInf
      else if jval a \<le> - max_round then NegInf
      else if \<bar>jval a\<bar> \<le> min_round then (if signbit a then NegZero else Num 0)
      else a)"

definition add_d :: "jsnum \<Rightarrow> jsnum \<Rightarrow> jsnum" where
  "add_d a b = double_range (jadd a b)"

definition sub_d :: "jsnum \<Rightarrow> jsnum \<Rightarrow> jsnum" where
  "sub_d a b = double_range (jsub a b)"

definition mul_d :: "jsnum \<Rightarrow> jsnum \<Rightarrow> jsnum" where
  "mul_d a b = double_range (jmul a b)"

definition div_d :: "jsnum \<Rightarrow> jsnum \<Rightarrow> jsnum" where
  "div_d a b = double_range (jdiv a b)"

definition hypot_d :: "jsnum \<Rightarrow> jsnum \<Rightarrow> jsnum \<Rightarrow> jsnum" where
  "hypot_d a b c = double_range (Math_hypot a b c)"

section \<open>Interaction modes and the pure helpers\<close>

datatype interaction_mode = NONE | PAN | PINCH | ORBIT | DOLLY | TILT | OTHER

text \<open>A pointer type is the string of the event (\<open>mouse\<close>, \<open>touch\<close>, \<open>pen\<close>).\<close>

type_synonym pointer_type = string

definition isDesktopPointer :: "pointer_type \<Rightarrow> bool" where
  "isDesktopPointer pointerType = (pointerType \<noteq> ''touch'' \<and> pointerType \<noteq> ''pen'')"

datatype mouse_action = Rotate | Pan

definition resolveLeftMouseAction :: "bool \<Rightarrow> mouse_action" where
  "resolveLeftMouseAction altKey = (if altKey then Rotate else Pan)"

definition classifyPointerInteraction ::
  "pointer_type \<Rightarrow> int \<Rightarrow> bool \<Rightarrow> bool \<Rightarrow> nat \<Rightarrow> interaction_mode" where
  "classifyPointerInteraction pointerType button altKey shiftKey activeTouchCount =
     (if \<not> isDesktopPointer pointerType
        then (if activeTouchCount \<ge> 2 then PINCH else PAN)
      else if button = 0 \<and> shiftKey then TILT
      else if button = 0 \<and> altKey then ORBIT
      else if button = 0 then PAN
      else if button = 1 then DOLLY
      else if button = 2 then ORBIT
      else OTHER)"

text \<open>The default of \<open>epsilon\<close>, \<open>1e-8\<close>.\<close>

definition default_epsilon :: jsnum where
  "default_epsilon = Num (1 / 10 ^ 8)"

definition shouldTranslateCameraForTargetDelta ::
  "bool \<Rightarrow> interaction_mode \<Rightarrow> jsnum \<Rightarrow> jsnum \<Rightarrow> bool" where
  "shouldTranslateCameraForTargetDelta userInteracting interactionMode deltaLength epsilon =
     (userInteracting \<and> interactionMode = PAN \<and> isFinite deltaLength \<and> jgt deltaLength epsilon)"

definition clamp :: "jsnum \<Rightarrow> jsnum \<Rightarrow> jsnum \<Rightarrow> jsnum" where
  "clamp v minValue maxValue = Math_min (Math_max v minValue) maxValue"

text \<open>The default of \<open>zoomFactor\<close>, \<open>0.72\<close>.\<close>

definition default_zoomFactor :: jsnum where
  "default_zoomFactor = Num (72 / 100)"

definition computeZoomedCameraDistance :: "jsnum \<Rightarrow> jsnum \<Rightarrow> jsnum \<Rightarrow> jsnum \<Rightarrow> jsnum" where
  "computeZoomedCameraDistance currentDistance minDistance maxDistance zoomFactor =
     (if \<not> isFinite currentDistance \<or> jle currentDistance (Num 0) then currentDistance
      else
        let lower = (if isFinite minDistance then minDistance else Num 0);
            upper = (if isFinite maxDistance then Math_max lower maxDistance else PosInf);
            nextDistance = jmul currentDistance zoomFactor
        in clamp nextDistance lower upper)"

definition computeTiltAngleFromDrag :: "jsnum \<Rightarrow> jsnum \<Rightarrow> jsnum \<Rightarrow> jsnum" where
  "computeTiltAngleFromDrag deltaY radiansPerPixel maxStep =
     (if \<not> isFinite deltaY \<or> \<not> isFinite radiansPerPixel \<or> isZero radiansPerPixel then Num 0
      else clamp (jmul deltaY radiansPerPixel) (jneg maxStep) maxStep)"

record vec3 =
  vx :: jsnum
  vy :: jsnum
  vz :: jsnum

record pan_result =
  delta :: vec3
  deltaLength :: jsnum
  shouldTranslate :: bool
  nextCamera :: vec3

definition applyPanTranslation ::
  "vec3 \<Rightarrow> vec3 \<Rightarrow> vec3 \<Rightarrow> bool \<Rightarrow> interaction_mode \<Rightarrow> jsnum \<Rightarrow> pan_result" where
  "applyPanTranslation prevCamera prevTarget nextTarget userInteracting interactionMode epsilon =
     (let d = \<lparr>vx = jsub (vx nextTarget) (vx prevTarget),
               vy = jsub (vy nextTarget) (vy prevTarget),
               vz = jsub (vz nextTarget) (vz prevTarget)\<rparr>;
          dl = Math_hypot (vx d) (vy d) (vz d);
          st = shouldTranslateCameraForTargetDelta userInteracting interactionMode dl epsilon
      in if \<not> st
         then \<lparr>delta = d, deltaLength = dl, shouldTranslate = st, nextCamera = prevCamera\<rparr>
         else \<lparr>delta = d, deltaLength = dl, shouldTranslate = st,
               nextCamera = \<lparr>vx = jadd (vx prevCamera) (vx d),
                              vy = jadd (vy prevCamera) (vy d),
                              vz = jadd (vz prevCamera) (vz d)\<rparr>\<rparr>)"

text \<open>The componentwise difference and sum of two vectors and the Euclidean length, as
  the claims about \<open>applyPanTranslation\<close> name them.\<close>

definition vec_diff :: "vec3 \<Rightarrow> vec3 \<Rightarrow> vec3" where
  "vec_diff a b = \<lparr>vx = jsub (vx a) (vx b), vy = jsub (vy a) (vy b), vz = jsub (vz a) (vz b)\<rparr>"

definition vec_sum :: "vec3 \<Rightarrow> vec3 \<Rightarrow> vec3" where
  "vec_sum a b = \<lparr>vx = jadd (vx a) (vx b), vy = jadd (vy a) (vy b), vz = jadd (vz a) (vz b)\<rparr>"

definition euclid_length :: "vec3 \<Rightarrow> jsnum" where
  "euclid_length v = Math_hypot (vx v) (vy v) (vz v)"

text \<open>The clamping interval of \<open>computeZoomedCameraDistance\<close>: the lower bound is
  \<open>minDistance\<close> when that is finite and 0 otherwise, the upper bound is the larger of
  the lower bound and \<open>maxDistance\<close> when that is finite and \<open>+Infinity\<close> otherwise.\<close>

definition zoom_lower :: "jsnum \<Rightarrow> jsnum" where
  "zoom_lower minDistance = (if isFinite minDistance then minDistance else Num 0)"

definition zoom_upper :: "jsnum \<Rightarrow> jsnum \<Rightarrow> jsnum" where
  "zoom_upper minDistance maxDistance =
     (if isFinite maxDistance then Math_max (zoom_lower minDistance) maxDistance else PosInf)"

text \<open>The zoomed distance as the specification words it: the product clamped to
  \<open>[max(0, minDistance), max(minDistance, maxDistance)]\<close>.\<close>

definition spec_zoomed_distance :: "jsnum \<Rightarrow> jsnum \<Rightarrow> jsnum \<Rightarrow> jsnum \<Rightarrow> jsnum" where
  "spec_zoomed_distance currentDistance minDistance maxDistance zoomFactor =
     (if \<not> isFinite currentDistance \<or> jle currentDistance (Num 0) then currentDistance
      else clamp (jmul currentDistance zoomFactor)
             (Math_max (Num 0) minDistance) (Math_max minDistance maxDistance))"

section \<open>Half-precision floats\<close>

definition HALF_FLOAT_SIGN_MASK :: "32 word" where
  "HALF_FLOAT_SIGN_MASK = 0x8000"

definition HALF_FLOAT_EXPONENT_MASK :: "32 word" where
  "HALF_FLOAT_EXPONENT_MASK = 0x7c00"

definition HALF_FLOAT_FRACTION_MASK :: "32 word" where
  "HALF_FLOAT_FRACTION_MASK = 0x03ff"

definition HALF_FLOAT_EXPONENT_SHIFT :: nat where
  "HALF_FLOAT_EXPONENT_SHIFT = 10"

definition HALF_FLOAT_MAX_EXPONENT :: "32 word" where
  "HALF_FLOAT_MAX_EXPONENT = 0x1f"

text \<open>The bitwise operators work on 32-bit integers: \<open>ToInt32\<close> truncates a finite
  number towards zero and keeps the low 32 bits, and the result of an operator is read
  back as a signed integer.\<close>

definition truncate_real :: "real \<Rightarrow> int" where
  "truncate_real r = (if 0 \<le> r then \<lfloor>r\<rfloor> else \<lceil>r\<rceil>)"

definition ToInt32 :: "jsnum \<Rightarrow> 32 word" where
  "ToInt32 v = (if isFinite v then word_of_int (truncate_real (jval v)) else 0)"

definition int32_num :: "32 word \<Rightarrow> jsnum" where
  "int32_num w = Num (of_int (sint w))"

text \<open>The power \<open>2 ** e\<close>.\<close>

fun pow2 :: "jsnum \<Rightarrow> jsnum" where
  "pow2 (Num r) = Num (2 powr r)"
| "pow2 NegZero = Num 1"
| "pow2 PosInf = PosInf"
| "pow2 NegInf = Num 0"
| "pow2 NaN = NaN"

definition decodeFloat16 :: "jsnum \<Rightarrow> jsnum" where
  "decodeFloat16 v =
     (if \<not> isFinite v then NaN
      else
        let bits = ToInt32 v AND 0xffff;
            sign = (if bits AND HALF_FLOAT_SIGN_MASK \<noteq> 0 then Num (- 1) else Num 1);
            exponent = signed_drop_bit HALF_FLOAT_EXPONENT_SHIFT (bits AND HALF_FLOAT_EXPONENT_MASK);
            fraction = bits AND HALF_FLOAT_FRACTION_MASK
        in if exponent = 0
           then (if fraction = 0 then jmul sign (Num 0)
                 else jmul (jmul sign (pow2 (Num (- 14)))) (jdiv (int32_num fraction) (Num 1024)))
           else if exponent = HALF_FLOAT_MAX_EXPONENT
           then (if fraction = 0 then jmul sign PosInf else NaN)
           else jmul (jmul sign (pow2 (jsub (int32_num exponent) (Num 15))))
                  (jadd (Num 1) (jdiv (int32_num fraction) (Num 1024))))"

text \<open>The binary16 decoding as the specification words it, on the low 16 bits of the
  input read as a natural number: the sign bit, the exponent field and the fraction by
  division and remainder.\<close>

definition low16 :: "jsnum \<Rightarrow> nat" where
  "low16 v = nat (truncate_real (jval v) mod 65536)"

definition binary16_value :: "nat \<Rightarrow> jsnum" where
  "binary16_value n =
     (let neg = (n div 32768 mod 2 = 1);
          e = n div 1024 mod 32;
          f = n mod 1024;
          s = (if neg then - 1 else 1 :: real)
      in if e = 0
         then (if f = 0 then (if neg then NegZero else Num 0)
               else Num (s * 2 powi (- 14) * (real f / 1024)))
         else if e = 31
         then (if f = 0 then (if neg then NegInf else PosInf) else NaN)
         else Num (s * 2 powi (int e - 15) * (1 + real f / 1024)))"

text \<open>The same decoding on an integer, a step between the words of the code and the
  natural number of the specification.\<close>

definition int_fields_value :: "int \<Rightarrow> jsnum" where
  "int_fields_value u =
     (let neg = (u div 32768 mod 2 = 1);
          e = u div 1024 mod 32;
          f = u mod 1024;
          s = (if neg then - 1 else 1 :: real)
      in if e = 0
         then (if f = 0 then (if neg then NegZero else Num 0)
               else Num (s * 2 powi (- 14) * (of_int f / 1024)))
         else if e = 31
         then (if f = 0 then (if neg then NegInf else PosInf) else NaN)
         else Num (s * 2 powi (e - 15) * (1 + of_int f / 1024)))"

section \<open>Ray picking\<close>

text \<open>Reading an array at an index: past the end the read gives \<open>undefined\<close>, which
  the arithmetic that follows turns into NaN.\<close>

definition array_read :: "jsnum list \<Rightarrow> nat \<Rightarrow> jsnum" where
  "array_read xs i = (if i < length xs then xs ! i else NaN)"

record best_sample =
  bestOffset :: int
  bestDistanceSq :: jsnum
  bestRayDistance :: jsnum

record ray_hit =
  sampleOffset :: nat
  hit_x :: jsnum
  hit_y :: jsnum
  hit_z :: jsnum
  distanceSq :: jsnum
  rayDistance :: jsnum

text \<open>The body of the loop of \<open>findClosestSampleToRay\<close>: the projection length of the
  sample at \<open>offset\<close> along the normalized ray, its squared distance to the ray, and the
  update of the best sample so far.\<close>

definition sample_rayDistance :: "jsnum list \<Rightarrow> vec3 \<Rightarrow> vec3 \<Rightarrow> nat \<Rightarrow> jsnum" where
  "sample_rayDistance samples origin direction offset =
     (let toPointX = sub_d (array_read samples offset) (vx origin);
          toPointY = sub_d (array_read samples (offset + 1)) (vy origin);
          toPointZ = sub_d (array_read samples (offset + 2)) (vz origin)
      in add_d (add_d (mul_d toPointX (vx direction)) (mul_d toPointY (vy direction)))
           (mul_d toPointZ (vz direction)))"

definition sample_distanceSq :: "jsnum list \<Rightarrow> vec3 \<Rightarrow> vec3 \<Rightarrow> nat \<Rightarrow> jsnum" where
  "sample_distanceSq samples origin direction offset =
     (let rayDistance = sample_rayDistance samples origin direction offset;
          closestPointX = add_d (vx origin) (mul_d (vx direction) rayDistance);
          closestPointY = add_d (vy origin) (mul_d (vy direction) rayDistance);
          closestPointZ = add_d (vz origin) (mul_d (vz direction) rayDistance);
          deltaX = sub_d (array_read samples offset) closestPointX;
          deltaY = sub_d (array_read samples (offset + 1)) closestPointY;
          deltaZ = sub_d (array_read samples (offset + 2)) closestPointZ
      in add_d (add_d (mul_d deltaX deltaX) (mul_d deltaY deltaY)) (mul_d deltaZ deltaZ))"

text \<open>The tolerance \<open>1e-12\<close> of the tie-break.\<close>

definition tie_tolerance :: jsnum where
  "tie_tolerance = Num (1 / 10 ^ 12)"

definition closest_step ::
  "jsnum list \<Rightarrow> vec3 \<Rightarrow> vec3 \<Rightarrow> jsnum \<Rightarrow> nat \<Rightarrow> best_sample \<Rightarrow> best_sample" where
  "closest_step samples origin direction distanceSqLimit offset best =
     (let rayDistance = sample_rayDistance samples origin direction offset
      in if jle rayDistance (Num 0) then best
         else
           let distanceSq = sample_distanceSq samples origin direction offset
           in if jgt distanceSq distanceSqLimit then best
              else if jlt distanceSq (bestDistanceSq best)
                      \<or> (jle (Math_abs (sub_d distanceSq (bestDistanceSq best))) tie_tolerance
                          \<and> jlt rayDistance (bestRayDistance best))
              then \<lparr>bestOffset = int offset, bestDistanceSq = distanceSq,
                    bestRayDistance = rayDistance\<rparr>
              else best)"

function closest_loop ::
  "jsnum list \<Rightarrow> vec3 \<Rightarrow> vec3 \<Rightarrow> jsnum \<Rightarrow> nat \<Rightarrow> best_sample \<Rightarrow> best_sample" where
  "closest_loop samples origin direction distanceSqLimit offset best =
     (if offset < length samples
      then closest_loop samples origin direction distanceSqLimit (offset + 3)
             (closest_step samples origin direction distanceSqLimit offset best)
      else best)"
  by pat_completeness auto
termination
  by (relation "measure (\<lambda>(samples, origin, direction, distanceSqLimit, offset, best). length samples - offset)") auto

text \<open>The limit \<open>distanceSqLimit\<close> taken from \<open>maxDistanceSq\<close>, the state before the
  loop, the result built from the state after it, and the division of the direction by its
  length.\<close>

definition distanceSqLimit_of :: "jsnum \<Rightarrow> jsnum" where
  "distanceSqLimit_of maxDistanceSq =
     (if isFinite maxDistanceSq \<and> jge maxDistanceSq (Num 0) then maxDistanceSq else PosInf)"

definition initial_best :: best_sample where
  "initial_best = \<lparr>bestOffset = - 1, bestDistanceSq = PosInf, bestRayDistance = PosInf\<rparr>"

definition hit_of_best :: "jsnum list \<Rightarrow> best_sample \<Rightarrow> ray_hit option" where
  "hit_of_best samples best =
     (if bestOffset best < 0 then None
      else Some \<lparr>sampleOffset = nat (bestOffset best),
                  hit_x = array_read samples (nat (bestOffset best)),
                  hit_y = array_read samples (nat (bestOffset best) + 1),
                  hit_z = array_read samples (nat (bestOffset best) + 2),
                  distanceSq = bestDistanceSq best,
                  rayDistance = bestRayDistance best\<rparr>)"

definition normalized :: "vec3 \<Rightarrow> jsnum \<Rightarrow> vec3" where
  "normalized rayDirection directionLength =
     \<lparr>vx = div_d (vx rayDirection) directionLength,
      vy = div_d (vy rayDirection) directionLength,
      vz = div_d (vz rayDirection) directionLength\<rparr>"

definition findClosestSampleToRay ::
  "jsnum list \<Rightarrow> vec3 \<Rightarrow> vec3 \<Rightarrow> jsnum \<Rightarrow> ray_hit option" where
  "findClosestSampleToRay samples rayOrigin rayDirection maxDistanceSq =
     (if length samples < 3 then None
      else if \<not> jgt (hypot_d (vx rayDirection) (vy rayDirection) (vz rayDirection))
                   (Num (1 / 10 ^ 12)) then None
      else if \<not> isFinite (vx rayOrigin) \<or> \<not> isFinite (vy rayOrigin)
              \<or> \<not> isFinite (vz rayOrigin) then None
      else hit_of_best samples
             (closest_loop samples rayOrigin
                (normalized rayDirection
                   (hypot_d (vx rayDirection) (vy rayDirection) (vz rayDirection)))
                (distanceSqLimit_of maxDistanceSq) 0 initial_best))"

section \<open>The interaction state machine\<close>

text \<open>
  The state of one installation: the \<open>state\<close> object of the closure, the controller and
  the camera it mutates, the edit-mode flag holder it reads (\<open>None\<close> when none was
  passed), and the calls it makes to the outside, which are counted. The set of touch
  pointer ids is the list of its members in insertion order.
\<close>

type_synonym pointer_id = int

record shift_tilt =
  active :: bool
  tilt_pointerId :: "pointer_id option"
  lastClientY :: jsnum

record pointer_state =
  interactionMode :: interaction_mode
  touchPointerIds :: "pointer_id list"
  activeMousePointerId :: "pointer_id option"
  shiftTilt :: shift_tilt

definition set_add :: "pointer_id \<Rightarrow> pointer_id list \<Rightarrow> pointer_id list" where
  "set_add x xs = (if x \<in> set xs then xs else xs @ [x])"

definition set_delete :: "pointer_id \<Rightarrow> pointer_id list \<Rightarrow> pointer_id list" where
  "set_delete x xs = removeAll x xs"

record mouse_codes =
  MOUSE_PAN :: nat
  MOUSE_DOLLY :: nat
  MOUSE_ROTATE :: nat

record controls_obj =
  mouseButtons_LEFT :: nat
  minDistance :: jsnum
  maxDistance :: jsnum
  target :: vec3
  enabled :: bool
  has_rotateUp :: bool
  minPolarAngle :: jsnum
  maxPolarAngle :: jsnum
  updateCalls :: nat
  rotateUpCalls :: "jsnum list"

record pointer_event =
  pointerId :: pointer_id
  pointerType :: pointer_type
  button :: int
  clientY :: jsnum
  altKey :: bool
  shiftKey :: bool
  defaultPrevented :: bool
  propagationStopped :: bool

datatype handler = HandlePointerDown | HandlePointerMove | HandlePointerUpOrCancel
  | HandleWindowBlur | HandleDoubleClick

record listener =
  event_type :: string
  listener_handler :: handler
  capture :: bool

record world =
  state :: pointer_state
  controls :: controls_obj
  camera_position :: vec3
  lotEditState :: "bool option"
  MOUSE :: mouse_codes
  has_onUserNavigate :: bool
  navigateCalls :: nat
  windowTarget :: "listener list"
  domElement :: "listener list"


text \<open>The trigonometric functions of \<open>Math\<close> and the vector methods the machine calls
  (\<open>subVectors\<close>, \<open>length\<close>, \<open>copy\<close> then \<open>add\<close>, \<open>setLength\<close>), as the vector
  class of the tests implements them.\<close>

definition Math_PI :: jsnum where
  "Math_PI = Num pi"

fun Math_sin :: "jsnum \<Rightarrow> jsnum" where
  "Math_sin (Num r) = Num (sin r)"
| "Math_sin NegZero = NegZero"
| "Math_sin PosInf = NaN"
| "Math_sin NegInf = NaN"
| "Math_sin NaN = NaN"

fun Math_cos :: "jsnum \<Rightarrow> jsnum" where
  "Math_cos (Num r) = Num (cos r)"
| "Math_cos NegZero = Num 1"
| "Math_cos PosInf = NaN"
| "Math_cos NegInf = NaN"
| "Math_cos NaN = NaN"

definition Math_acos :: "jsnum \<Rightarrow> jsnum" where
  "Math_acos a = (if isFinite a \<and> \<bar>jval a\<bar> \<le> 1 then Num (arccos (jval a)) else NaN)"

definition signed_num :: "bool \<Rightarrow> real \<Rightarrow> jsnum" where
  "signed_num neg r = (if neg then jneg (Num r) else Num r)"

definition Math_atan2 :: "jsnum \<Rightarrow> jsnum \<Rightarrow> jsnum" where
  "Math_atan2 y x =
     (if y = NaN \<or> x = NaN then NaN
      else if isInfinite y
        then (if x = PosInf then signed_num (signbit y) (pi / 4)
              else if x = NegInf then signed_num (signbit y) (3 * pi / 4)
              else signed_num (signbit y) (pi / 2))
      else if x = PosInf then signed_num (signbit y) 0
      else if x = NegInf then signed_num (signbit y) pi
      else if isZero y
        then (if signbit x then signed_num (signbit y) pi else signed_num (signbit y) 0)
      else if isZero x then signed_num (signbit y) (pi / 2)
      else if 0 < jval x then Num (arctan (jval y / jval x))
      else if 0 < jval y then Num (arctan (jval y / jval x) + pi)
      else Num (arctan (jval y / jval x) - pi))"

definition subVectors :: "vec3 \<Rightarrow> vec3 \<Rightarrow> vec3" where
  "subVectors a b = \<lparr>vx = jsub (vx a) (vx b), vy = jsub (vy a) (vy b), vz = jsub (vz a) (vz b)\<rparr>"

definition vec_length :: "vec3 \<Rightarrow> jsnum" where
  "vec_length v = Math_hypot (vx v) (vy v) (vz v)"

definition vec_add :: "vec3 \<Rightarrow> vec3 \<Rightarrow> vec3" where
  "vec_add a b = \<lparr>vx = jadd (vx a) (vx b), vy = jadd (vy a) (vy b), vz = jadd (vz a) (vz b)\<rparr>"

definition setLength :: "vec3 \<Rightarrow> jsnum \<Rightarrow> vec3" where
  "setLength v nextLength =
     (let currentLength = vec_length v
      in if jle currentLength (Num (1 / 10 ^ 12)) then v
         else let scale = jdiv nextLength currentLength
              in \<lparr>vx = jmul (vx v) scale, vy = jmul (vy v) scale, vz = jmul (vz v) scale\<rparr>)"

text \<open>The test \<open>lotEditState && lotEditState.active\<close>.\<close>

definition edit_active :: "world \<Rightarrow> bool" where
  "edit_active w = (case lotEditState w of None \<Rightarrow> False | Some a \<Rightarrow> a)"

definition emitUserNavigate :: "world \<Rightarrow> world" where
  "emitUserNavigate w = (if has_onUserNavigate w then w\<lparr>navigateCalls := navigateCalls w + 1\<rparr> else w)"

definition setLeftMouseBinding :: "pointer_event \<Rightarrow> world \<Rightarrow> world" where
  "setLeftMouseBinding event w =
     w\<lparr>controls := (controls w)\<lparr>mouseButtons_LEFT :=
          (if resolveLeftMouseAction (altKey event) = Rotate
           then MOUSE_ROTATE (MOUSE w) else MOUSE_PAN (MOUSE w))\<rparr>\<rparr>"

definition resetLeftMouseBinding :: "world \<Rightarrow> world" where
  "resetLeftMouseBinding w =
     w\<lparr>controls := (controls w)\<lparr>mouseButtons_LEFT := MOUSE_PAN (MOUSE w)\<rparr>\<rparr>"

definition updateTouchInteractionMode :: "world \<Rightarrow> world" where
  "updateTouchInteractionMode w =
     (if length (touchPointerIds (state w)) \<ge> 2
      then w\<lparr>state := (state w)\<lparr>interactionMode := PINCH\<rparr>\<rparr>
      else w\<lparr>state := (state w)\<lparr>interactionMode :=
             (if length (touchPointerIds (state w)) = 1 then PAN else NONE)\<rparr>\<rparr>)"

text \<open>\<open>endShiftTilt(pointerId)\<close>; the argument is \<open>None\<close> when the call passes none.\<close>

definition endShiftTilt :: "pointer_id option \<Rightarrow> world \<Rightarrow> world" where
  "endShiftTilt pid w =
     (if \<not> active (shiftTilt (state w)) then w
      else if pid \<noteq> None \<and> pid \<noteq> tilt_pointerId (shiftTilt (state w)) then w
      else w\<lparr>state := (state w)\<lparr>shiftTilt :=
                 (shiftTilt (state w))\<lparr>active := False, tilt_pointerId := None\<rparr>\<rparr>,
             controls := (controls w)\<lparr>enabled := True\<rparr>\<rparr>)"

definition handlePointerDown :: "pointer_event \<Rightarrow> world \<Rightarrow> world \<times> pointer_event" where
  "handlePointerDown event w =
     (if edit_active w then (w, event)
      else if \<not> isDesktopPointer (pointerType event)
        then (updateTouchInteractionMode
                (w\<lparr>state := (state w)\<lparr>touchPointerIds :=
                      set_add (pointerId event) (touchPointerIds (state w))\<rparr>\<rparr>), event)
      else
        let w1 = w\<lparr>state := (state w)\<lparr>interactionMode :=
                     classifyPointerInteraction (pointerType event) (button event)
                       (altKey event) (shiftKey event) 0\<rparr>\<rparr>;
            w2 = (if button event = 0
                  then setLeftMouseBinding event
                         (w1\<lparr>state := (state w1)\<lparr>activeMousePointerId := Some (pointerId event)\<rparr>\<rparr>)
                  else w1)
        in if interactionMode (state w2) = TILT
           then (w2\<lparr>state := (state w2)\<lparr>shiftTilt :=
                        \<lparr>active = True, tilt_pointerId = Some (pointerId event),
                         lastClientY = clientY event\<rparr>\<rparr>,
                     controls := (controls w2)\<lparr>enabled := False\<rparr>\<rparr>,
                 event\<lparr>defaultPrevented := True, propagationStopped := True\<rparr>)
           else (w2, event))"

text \<open>The defaults of \<open>computeTiltAngleFromDrag\<close>: \<open>radiansPerPixel = 0.005\<close> and
  \<open>maxStep = 0.1\<close>.\<close>

definition default_radiansPerPixel :: jsnum where
  "default_radiansPerPixel = Num (5 / 1000)"

definition default_maxStep :: jsnum where
  "default_maxStep = Num (1 / 10)"

text \<open>The tilt without \<open>controls.rotateUp\<close>: the camera offset in spherical coordinates,
  its polar angle advanced and clamped.\<close>

definition tilt_fallback :: "jsnum \<Rightarrow> world \<Rightarrow> world" where
  "tilt_fallback rotateUpAmount w =
     (let offset = subVectors (camera_position w) (target (controls w));
          radius = vec_length offset
      in if jgt radius (Num (1 / 10 ^ 8))
         then
           let azimuth = Math_atan2 (vx offset) (vz offset);
               currentPolar = Math_acos (clamp (jdiv (vy offset) radius) (Num (- 1)) (Num 1));
               minPolar = (if isFinite (minPolarAngle (controls w))
                           then minPolarAngle (controls w) else Num 0);
               maxPolar = (if isFinite (maxPolarAngle (controls w))
                           then maxPolarAngle (controls w) else Math_PI);
               nextPolar = clamp (jadd currentPolar rotateUpAmount) minPolar maxPolar;
               sinPolar = Math_sin nextPolar;
               offset' = \<lparr>vx = jmul (jmul radius sinPolar) (Math_sin azimuth),
                          vy = jmul radius (Math_cos nextPolar),
                          vz = jmul (jmul radius sinPolar) (Math_cos azimuth)\<rparr>
           in w\<lparr>camera_position := vec_add (target (controls w)) offset'\<rparr>
         else w)"

text \<open>The call \<open>controls.update()\<close>, counted.\<close>

definition call_update :: "world \<Rightarrow> world" where
  "call_update w = w\<lparr>controls := (controls w)\<lparr>updateCalls := updateCalls (controls w) + 1\<rparr>\<rparr>"

definition handlePointerMove :: "pointer_event \<Rightarrow> world \<Rightarrow> world \<times> pointer_event" where
  "handlePointerMove event w =
     (if \<not> active (shiftTilt (state w)) then (w, event)
      else if Some (pointerId event) \<noteq> tilt_pointerId (shiftTilt (state w)) then (w, event)
      else if \<not> isDesktopPointer (pointerType event) then (w, event)
      else if edit_active w then (w, event)
      else
        let deltaY = jsub (clientY event) (lastClientY (shiftTilt (state w)));
            w1 = w\<lparr>state := (state w)\<lparr>shiftTilt :=
                     (shiftTilt (state w))\<lparr>lastClientY := clientY event\<rparr>\<rparr>\<rparr>;
            rotateUpAmount = computeTiltAngleFromDrag deltaY default_radiansPerPixel default_maxStep
        in if jle (Math_abs rotateUpAmount) (Num (1 / 10 ^ 12)) then (w1, event)
           else
             let w2 = (if has_rotateUp (controls w1)
                       then w1\<lparr>controls := (controls w1)\<lparr>rotateUpCalls :=
                                 rotateUpCalls (controls w1) @ [rotateUpAmount]\<rparr>\<rparr>
                       else tilt_fallback rotateUpAmount w1)
             in (emitUserNavigate (call_update w2), event\<lparr>defaultPrevented := True\<rparr>))"

definition handlePointerUpOrCancel :: "pointer_event \<Rightarrow> world \<Rightarrow> world \<times> pointer_event" where
  "handlePointerUpOrCancel event w =
     (if \<not> isDesktopPointer (pointerType event)
        then (updateTouchInteractionMode
                (w\<lparr>state := (state w)\<lparr>touchPointerIds :=
                      set_delete (pointerId event) (touchPointerIds (state w))\<rparr>\<rparr>), event)
      else
        let w1 = endShiftTilt (Some (pointerId event)) w;
            w2 = (if Some (pointerId event) = activeMousePointerId (state w1) \<or> button event = 0
                  then resetLeftMouseBinding
                         (w1\<lparr>state := (state w1)\<lparr>activeMousePointerId := None\<rparr>\<rparr>)
                  else w1)
        in (w2\<lparr>state := (state w2)\<lparr>interactionMode := NONE\<rparr>\<rparr>, event))"

definition handleWindowBlur :: "world \<Rightarrow> world" where
  "handleWindowBlur w =
     (let w1 = endShiftTilt None (w\<lparr>state := (state w)\<lparr>touchPointerIds := []\<rparr>\<rparr>)
      in resetLeftMouseBinding
           (w1\<lparr>state := (state w1)\<lparr>activeMousePointerId := None, interactionMode := NONE\<rparr>\<rparr>))"

definition handleDoubleClick :: "pointer_event \<Rightarrow> world \<Rightarrow> world \<times> pointer_event" where
  "handleDoubleClick event w =
     (if edit_active w then (w, event)
      else if \<not> isDesktopPointer (pointerType event) then (w, event)
      else
        let offset = subVectors (camera_position w) (target (controls w));
            currentDistance = vec_length offset
        in if \<not> jgt currentDistance (Num (1 / 10 ^ 8)) then (w, event)
           else
             let nextDistance = computeZoomedCameraDistance currentDistance
                   (minDistance (controls w)) (maxDistance (controls w)) default_zoomFactor
             in if jle (Math_abs (jsub nextDistance currentDistance)) (Num (1 / 10 ^ 8))
                then (w, event)
                else
                  let w1 = w\<lparr>camera_position :=
                              vec_add (target (controls w)) (setLength offset nextDistance)\<rparr>
                  in (emitUserNavigate (call_update w1), event\<lparr>defaultPrevented := True\<rparr>))"


text \<open>Installation: a field of the configuration is \<open>None\<close> (or \<open>False\<close> for the
  two functions) when the caller passes none.\<close>

datatype install_error = MissingRequiredDependencies

record install_config =
  cfg_windowTarget :: "listener list option"
  cfg_domElement :: "listener list option"
  cfg_controls :: "controls_obj option"
  cfg_camera :: "vec3 option"
  cfg_lotEditState :: "bool option"
  cfg_MOUSE :: "mouse_codes option"
  cfg_Vector3 :: bool
  cfg_onUserNavigate :: bool

definition initial_state :: pointer_state where
  "initial_state =
     \<lparr>interactionMode = NONE, touchPointerIds = [], activeMousePointerId = None,
      shiftTilt = \<lparr>active = False, tilt_pointerId = None, lastClientY = Num 0\<rparr>\<rparr>"

definition addEventListener :: "string \<Rightarrow> handler \<Rightarrow> bool \<Rightarrow> listener list \<Rightarrow> listener list" where
  "addEventListener ty h cap ls = ls @ [\<lparr>event_type = ty, listener_handler = h, capture = cap\<rparr>]"

definition installSafeControlsRefinement :: "install_config \<Rightarrow> install_error + world" where
  "installSafeControlsRefinement cfg =
     (case (cfg_windowTarget cfg, cfg_domElement cfg, cfg_controls cfg, cfg_camera cfg,
            cfg_MOUSE cfg) of
        (Some wt, Some de, Some c, Some cam, Some m) \<Rightarrow>
          if \<not> cfg_Vector3 cfg then Inl MissingRequiredDependencies
          else Inr (resetLeftMouseBinding
                 \<lparr>state = initial_state, controls = c, camera_position = cam,
                  lotEditState = cfg_lotEditState cfg, MOUSE = m,
                  has_onUserNavigate = cfg_onUserNavigate cfg, navigateCalls = 0,
                  windowTarget =
                    addEventListener ''blur'' HandleWindowBlur False
                      (addEventListener ''pointercancel'' HandlePointerUpOrCancel True
                        (addEventListener ''pointerup'' HandlePointerUpOrCancel True
                          (addEventListener ''pointermove'' HandlePointerMove True wt))),
                  domElement =
                    addEventListener ''dblclick'' HandleDoubleClick True
                      (addEventListener ''pointerdown'' HandlePointerDown True de)\<rparr>)
      | _ \<Rightarrow> Inl MissingRequiredDependencies)"

text \<open>The events the installed listeners receive, and a change of the edit-mode flag by
  its owner.\<close>

datatype input_event =
    PointerDown pointer_event
  | PointerMove pointer_event
  | PointerUp pointer_event
  | PointerCancel pointer_event
  | WindowBlur
  | DoubleClick pointer_event
  | EditModeChange bool

fun dispatch :: "input_event \<Rightarrow> world \<Rightarrow> world" where
  "dispatch (PointerDown e) w = fst (handlePointerDown e w)"
| "dispatch (PointerMove e) w = fst (handlePointerMove e w)"
| "dispatch (PointerUp e) w = fst (handlePointerUpOrCancel e w)"
| "dispatch (PointerCancel e) w = fst (handlePointerUpOrCancel e w)"
| "dispatch WindowBlur w = handleWindowBlur w"
| "dispatch (DoubleClick e) w = fst (handleDoubleClick e w)"
| "dispatch (EditModeChange a) w =
     (case lotEditState w of None \<Rightarrow> w | Some _ \<Rightarrow> w\<lparr>lotEditState := Some a\<rparr>)"

fun run :: "input_event list \<Rightarrow> world \<Rightarrow> world" where
  "run [] w = w"
| "run (i # inputs) w = run inputs (dispatch i w)"

text \<open>The invariants of the touch set, as the specification words them.\<close>

definition touch_invariant :: "world \<Rightarrow> bool" where
  "touch_invariant w =
     ((length (touchPointerIds (state w)) \<ge> 2 \<longrightarrow> interactionMode (state w) = PINCH)
      \<and> (length (touchPointerIds (state w)) = 1 \<longrightarrow> interactionMode (state w) = PAN)
      \<and> (length (touchPointerIds (state w)) = 0 \<and> activeMousePointerId (state w) = None
           \<and> \<not> active (shiftTilt (state w)) \<longrightarrow> interactionMode (state w) = NONE))"

text \<open>The inputs that run the desktop branch of the pointer-down or the pointer-up/cancel
  handler.\<close>

fun desktop_press_or_release :: "input_event \<Rightarrow> bool" where
  "desktop_press_or_release (PointerDown e) = isDesktopPointer (pointerType e)"
| "desktop_press_or_release (PointerUp e) = isDesktopPointer (pointerType e)"
| "desktop_press_or_release (PointerCancel e) = isDesktopPointer (pointerType e)"
| "desktop_press_or_release (PointerMove e) = False"
| "desktop_press_or_release WindowBlur = False"
| "desktop_press_or_release (DoubleClick e) = False"
| "desktop_press_or_release (EditModeChange a) = False"

text \<open>The mode the touch set alone stands for.\<close>

definition touch_mode_settled :: "world \<Rightarrow> bool" where
  "touch_mode_settled w =
     (interactionMode (state w) =
        (if length (touchPointerIds (state w)) \<ge> 2 then PINCH
         else if length (touchPointerIds (state w)) = 1 then PAN else NONE))"

text \<open>The objects the test harness installs the machine on, and its default event.\<close>

definition harness_controls :: controls_obj where
  "harness_controls =
     \<lparr>mouseButtons_LEFT = 0, minDistance = Num (6 / 10), maxDistance = Num 10,
      target = \<lparr>vx = Num 0, vy = Num 0, vz = Num 0\<rparr>, enabled = True, has_rotateUp = True,
      minPolarAngle = NaN, maxPolarAngle = NaN, updateCalls = 0, rotateUpCalls = []\<rparr>"

definition harness_MOUSE :: mouse_codes where
  "harness_MOUSE = \<lparr>MOUSE_PAN = 1, MOUSE_DOLLY = 2, MOUSE_ROTATE = 3\<rparr>"

definition harness_config :: install_config where
  "harness_config =
     \<lparr>cfg_windowTarget = Some [], cfg_domElement = Some [],
      cfg_controls = Some harness_controls,
      cfg_camera = Some \<lparr>vx = Num 0, vy = Num 0, vz = Num 5\<rparr>,
      cfg_lotEditState = Some False, cfg_MOUSE = Some harness_MOUSE,
      cfg_Vector3 = True, cfg_onUserNavigate = True\<rparr>"

definition harness_listeners_window :: "listener list" where
  "harness_listeners_window =
     [\<lparr>event_type = ''pointermove'', listener_handler = HandlePointerMove, capture = True\<rparr>,
      \<lparr>event_type = ''pointerup'', listener_handler = HandlePointerUpOrCancel, capture = True\<rparr>,
      \<lparr>event_type = ''pointercancel'', listener_handler = HandlePointerUpOrCancel, capture = True\<rparr>,
      \<lparr>event_type = ''blur'', listener_handler = HandleWindowBlur, capture = False\<rparr>]"

definition harness_listeners_dom :: "listener list" where
  "harness_listeners_dom =
     [\<lparr>event_type = ''pointerdown'', listener_handler = HandlePointerDown, capture = True\<rparr>,
      \<lparr>event_type = ''dblclick'', listener_handler = HandleDoubleClick, capture = True\<rparr>]"

definition harness_world :: world where
  "harness_world =
     \<lparr>state = initial_state, controls = harness_controls\<lparr>mouseButtons_LEFT := 1\<rparr>,
      camera_position = \<lparr>vx = Num 0, vy = Num 0, vz = Num 5\<rparr>,
      lotEditState = Some False, MOUSE = harness_MOUSE,
      has_onUserNavigate = True, navigateCalls = 0,
      windowTarget = harness_listeners_window, domElement = harness_listeners_dom\<rparr>"

definition makePointerEvent :: pointer_event where
  "makePointerEvent =
     \<lparr>pointerId = 1, pointerType = ''mouse'', button = 0, clientY = Num 0, altKey = False,
      shiftKey = False, defaultPrevented = False, propagationStopped = False\<rparr>"

definition shift_down :: pointer_event where
  "shift_down = makePointerEvent\<lparr>pointerId := 7, shiftKey := True, clientY := Num 100\<rparr>"

definition mouse_up :: "pointer_id \<Rightarrow> pointer_event" where
  "mouse_up pid = makePointerEvent\<lparr>pointerId := pid\<rparr>"

definition touch_event :: "pointer_id \<Rightarrow> pointer_event" where
  "touch_event pid = makePointerEvent\<lparr>pointerType := ''touch'', pointerId := pid\<rparr>"

text \<open>The harness configuration without the two optional fields, the state it installs,
  and a move of the pointer of \<open>shift_down\<close> ten pixels up.\<close>

definition minimal_config :: install_config where
  "minimal_config = harness_config\<lparr>cfg_lotEditState := None, cfg_onUserNavigate := False\<rparr>"

definition minimal_world :: world where
  "minimal_world = harness_world\<lparr>lotEditState := None, has_onUserNavigate := False\<rparr>"

definition tilt_drag :: pointer_event where
  "tilt_drag = shift_down\<lparr>clientY := Num 90\<rparr>"

text \<open>While the tilt sub-state is active the controller is disabled.\<close>

definition tilt_disables :: "world \<Rightarrow> bool" where
  "tilt_disables w = (active (shiftTilt (state w)) \<longrightarrow> \<not> enabled (controls w))"

section \<open>Sampling a point buffer\<close>

definition DEFAULT_TARGET_SAMPLE_COUNT :: nat where
  "DEFAULT_TARGET_SAMPLE_COUNT = 18000"

record focus_samples =
  samples :: "jsnum list"
  stride :: enat
  sourcePointCount :: nat
  sampledPointCount :: nat

text \<open>\<open>Math.ceil(a / b)\<close> for two counts, \<open>b\<close> not zero.\<close>

definition ceil_div :: "nat \<Rightarrow> nat \<Rightarrow> nat" where
  "ceil_div a b = nat \<lceil>real a / real b\<rceil>"

text \<open>The requested point count \<open>Math.max(0, Math.floor(pointCount))\<close> of a finite
  \<open>pointCount\<close>, and the target sample count in effect; \<open>None\<close> is an argument that
  was not passed.\<close>

definition requestedPointCount :: "jsnum option \<Rightarrow> nat \<Rightarrow> nat" where
  "requestedPointCount pointCount availablePointCount =
     (case pointCount of
        None \<Rightarrow> availablePointCount
      | Some p \<Rightarrow> if isFinite p then nat (max 0 \<lfloor>jval p\<rfloor>) else availablePointCount)"

definition normalizedTargetSampleCount :: "jsnum option \<Rightarrow> nat" where
  "normalizedTargetSampleCount targetSampleCount =
     (case targetSampleCount of
        None \<Rightarrow> DEFAULT_TARGET_SAMPLE_COUNT
      | Some t \<Rightarrow> if isFinite t \<and> jgt t (Num 0) then nat \<lfloor>jval t\<rfloor>
                  else DEFAULT_TARGET_SAMPLE_COUNT)"

text \<open>The stride \<open>Math.max(1, Math.ceil(sourcePointCount / normalizedTargetSampleCount))\<close>:
  the division by a zero target gives \<open>Infinity\<close>.\<close>

definition stride_of :: "nat \<Rightarrow> nat \<Rightarrow> enat" where
  "stride_of n t = (if t = 0 then \<infinity> else enat (max 1 (ceil_div n t)))"

definition estimatedSampledPointCount :: "nat \<Rightarrow> enat \<Rightarrow> nat" where
  "estimatedSampledPointCount n s = (case s of enat k \<Rightarrow> ceil_div n k | \<infinity> \<Rightarrow> 0)"

text \<open>The body of the loop at \<open>pointIndex\<close>, on the array \<open>samples\<close> and the write
  offset. A write past the end of a typed array does nothing, as \<open>list_update\<close>.\<close>

definition sample_point :: "jsnum list \<Rightarrow> nat \<Rightarrow> jsnum list \<times> nat \<Rightarrow> jsnum list \<times> nat" where
  "sample_point cpuPoints pointIndex st =
     (let sourceOffset = pointIndex * 3;
          x = jneg (decodeFloat16 (array_read cpuPoints sourceOffset));
          y = jneg (decodeFloat16 (array_read cpuPoints (sourceOffset + 1)));
          z = decodeFloat16 (array_read cpuPoints (sourceOffset + 2))
      in if \<not> isFinite x \<or> \<not> isFinite y \<or> \<not> isFinite z then st
         else ((fst st)[snd st := x, snd st + 1 := y, snd st + 2 := z], snd st + 3))"

text \<open>The loop for a finite stride, which is at least 1.\<close>

function sample_loop ::
  "jsnum list \<Rightarrow> nat \<Rightarrow> nat \<Rightarrow> nat \<Rightarrow> jsnum list \<times> nat \<Rightarrow> jsnum list \<times> nat" where
  "sample_loop cpuPoints n s pointIndex st =
     (if pointIndex < n \<and> 0 < s
      then sample_loop cpuPoints n s (pointIndex + s) (sample_point cpuPoints pointIndex st)
      else st)"
  by pat_completeness auto
termination
  by (relation "measure (\<lambda>(cpuPoints, n, s, pointIndex, st). n - pointIndex)") auto

text \<open>The end of \<open>sampleCpuPointsForFocus\<close>, from the array and the write offset the
  loop leaves.\<close>

definition sampled_result :: "jsnum list \<times> nat \<Rightarrow> enat \<Rightarrow> nat \<Rightarrow> focus_samples option" where
  "sampled_result final s n =
     (if snd final = 0 then None
      else
        let result = (if snd final \<noteq> length (fst final)
                      then take (snd final) (fst final) else fst final)
        in Some \<lparr>samples = result, stride = s, sourcePointCount = n,
                 sampledPointCount = length result div 3\<rparr>)"

text \<open>With the stride \<open>Infinity\<close> the loop runs its body once, at index 0.\<close>

definition sampleCpuPointsForFocus ::
  "jsnum list \<Rightarrow> jsnum option \<Rightarrow> jsnum option \<Rightarrow> focus_samples option" where
  "sampleCpuPointsForFocus cpuPoints pointCount targetSampleCount =
     (if length cpuPoints < 3 then None
      else
        let availablePointCount = length cpuPoints div 3;
            n = min (requestedPointCount pointCount availablePointCount) availablePointCount
        in if n = 0 then None
           else
             let s = stride_of n (normalizedTargetSampleCount targetSampleCount);
                 initial = (replicate (estimatedSampledPointCount n s * 3) (Num 0), 0)
             in sampled_result
                  (case s of
                     enat k \<Rightarrow> sample_loop cpuPoints n k 0 initial
                   | \<infinity> \<Rightarrow> sample_point cpuPoints 0 initial)
                  s n)"

text \<open>The indices \<open>pointIndex\<close> the loop visits from \<open>i\<close> on, the three values decoded
  at a point (the first two sign-flipped), and the points of a list of indices that decode
  to finite values on every axis.\<close>

function strided_indices :: "nat \<Rightarrow> nat \<Rightarrow> nat \<Rightarrow> nat list" where
  "strided_indices i n s =
     (if i < n \<and> 0 < s then i # strided_indices (i + s) n s else [])"
  by pat_completeness auto
termination
  by (relation "measure (\<lambda>(i, n, s). n - i)") auto

definition decoded_point :: "jsnum list \<Rightarrow> nat \<Rightarrow> jsnum list" where
  "decoded_point cpuPoints i =
     [jneg (decodeFloat16 (array_read cpuPoints (3 * i))),
      jneg (decodeFloat16 (array_read cpuPoints (3 * i + 1))),
      decodeFloat16 (array_read cpuPoints (3 * i + 2))]"

definition surviving_points :: "jsnum list \<Rightarrow> nat list \<Rightarrow> jsnum list list" where
  "surviving_points cpuPoints indices =
     filter (\<lambda>p. \<forall>c\<in>set p. isFinite c) (map (decoded_point cpuPoints) indices)"

text \<open>The smallest stride \<open>s \<ge> 1\<close> with \<open>ceil(n / s) \<le> t\<close>.\<close>

definition is_least_stride :: "nat \<Rightarrow> nat \<Rightarrow> nat \<Rightarrow> bool" where
  "is_least_stride n t s =
     (1 \<le> s \<and> ceil_div n s \<le> t \<and> (\<forall>s'. 1 \<le> s' \<and> ceil_div n s' \<le> t \<longrightarrow> s \<le> s'))"

text \<open>The source point count and the stride for a target that is not zero.\<close>

definition source_count :: "jsnum list \<Rightarrow> jsnum option \<Rightarrow> nat" where
  "source_count cpuPoints pointCount =
     min (requestedPointCount pointCount (length cpuPoints div 3)) (length cpuPoints div 3)"

definition finite_stride :: "nat \<Rightarrow> nat \<Rightarrow> nat" where
  "finite_stride n t = max 1 (ceil_div n t)"

text \<open>A target the code takes as given (its floor, at least 1) or replaces by the default:
  every target but a finite one strictly between 0 and 1.\<close>

definition usable_target :: "jsnum option \<Rightarrow> bool" where
  "usable_target targetSampleCount =
     (case targetSampleCount of
        None \<Rightarrow> True
      | Some t \<Rightarrow> \<not> isFinite t \<or> jle t (Num 0) \<or> jle (Num 1) t)"

section \<open>Ray picking: what the scan guarantees\<close>

text \<open>
  A sample qualifies when its projection length along the normalized ray is strictly
  positive and its squared distance to the ray, as computed, is a finite number that does
  not exceed the limit. A sample at the squared distance \<open>d\<close> and the projection length
  \<open>r\<close> beats the best so far when \<open>d\<close> is strictly smaller, or within the tolerance of
  the best distance with \<open>r\<close> strictly smaller.
\<close>

definition qualifies :: "jsnum list \<Rightarrow> vec3 \<Rightarrow> vec3 \<Rightarrow> jsnum \<Rightarrow> nat \<Rightarrow> bool" where
  "qualifies xs origin direction limit offset =
     (jgt (sample_rayDistance xs origin direction offset) (Num 0)
      \<and> isFinite (sample_distanceSq xs origin direction offset)
      \<and> jle (sample_distanceSq xs origin direction offset) limit)"

definition within_tolerance :: "jsnum \<Rightarrow> jsnum \<Rightarrow> bool" where
  "within_tolerance d bestD = jle (Math_abs (sub_d d bestD)) tie_tolerance"

definition beats :: "jsnum \<Rightarrow> jsnum \<Rightarrow> jsnum \<Rightarrow> jsnum \<Rightarrow> bool" where
  "beats d r bestD bestR = (jlt d bestD \<or> (within_tolerance d bestD \<and> jlt r bestR))"

text \<open>The state of the scan that stands for the sample at an offset, the normalized
  direction, the offsets the loop visits, the result that stands for the sample at an
  offset, and the rays the function accepts: the length of the direction is a finite number
  above \<open>1e-12\<close> and every component of the origin and of the direction is finite.\<close>

definition candidate :: "jsnum list \<Rightarrow> vec3 \<Rightarrow> vec3 \<Rightarrow> nat \<Rightarrow> best_sample" where
  "candidate xs origin direction offset =
     \<lparr>bestOffset = int offset,
      bestDistanceSq = sample_distanceSq xs origin direction offset,
      bestRayDistance = sample_rayDistance xs origin direction offset\<rparr>"

definition unit_direction :: "vec3 \<Rightarrow> vec3" where
  "unit_direction v = normalized v (hypot_d (vx v) (vy v) (vz v))"

definition sample_offsets :: "jsnum list \<Rightarrow> nat list" where
  "sample_offsets xs = strided_indices 0 (length xs) 3"

definition hit_at :: "jsnum list \<Rightarrow> vec3 \<Rightarrow> vec3 \<Rightarrow> nat \<Rightarrow> ray_hit" where
  "hit_at xs origin direction offset =
     \<lparr>sampleOffset = offset, hit_x = array_read xs offset,
      hit_y = array_read xs (offset + 1), hit_z = array_read xs (offset + 2),
      distanceSq = sample_distanceSq xs origin direction offset,
      rayDistance = sample_rayDistance xs origin direction offset\<rparr>"

definition valid_ray :: "vec3 \<Rightarrow> vec3 \<Rightarrow> bool" where
  "valid_ray origin v =
     (jgt (hypot_d (vx v) (vy v) (vz v)) (Num (1 / 10 ^ 12))
      \<and> isFinite (hypot_d (vx v) (vy v) (vz v))
      \<and> isFinite (vx origin) \<and> isFinite (vy origin) \<and> isFinite (vz origin)
      \<and> isFinite (vx v) \<and> isFinite (vy v) \<and> isFinite (vz v))"

text \<open>The scan as a choice among the qualifying offsets, taken in array order: the first
  one is chosen, and a later one replaces the choice when it beats it.\<close>

definition pick ::
  "jsnum list \<Rightarrow> vec3 \<Rightarrow> vec3 \<Rightarrow> nat option \<Rightarrow> nat \<Rightarrow> nat option" where
  "pick xs origin direction choice offset =
     (case choice of
        None \<Rightarrow> Some offset
      | Some m \<Rightarrow>
          if beats (sample_distanceSq xs origin direction offset)
               (sample_rayDistance xs origin direction offset)
               (sample_distanceSq xs origin direction m)
               (sample_rayDistance xs origin direction m)
          then Some offset else Some m)"

definition scan_choice :: "jsnum list \<Rightarrow> vec3 \<Rightarrow> vec3 \<Rightarrow> jsnum \<Rightarrow> nat option" where
  "scan_choice xs origin direction limit =
     foldl (pick xs origin direction) None
       (filter (qualifies xs origin direction limit) (sample_offsets xs))"

text \<open>The arrays whose ties are exact: two qualifying samples whose squared distances
  are within the tolerance of each other have equal squared distances.\<close>

definition exact_ties :: "jsnum list \<Rightarrow> vec3 \<Rightarrow> vec3 \<Rightarrow> jsnum \<Rightarrow> bool" where
  "exact_ties xs origin direction limit =
     (\<forall>a\<in>set (sample_offsets xs). \<forall>b\<in>set (sample_offsets xs).
        qualifies xs origin direction limit a \<and> qualifies xs origin direction limit b
        \<and> within_tolerance (sample_distanceSq xs origin direction a)
            (sample_distanceSq xs origin direction b)
        \<longrightarrow> \<not> jlt (sample_distanceSq xs origin direction a)
                  (sample_distanceSq xs origin direction b)
            \<and> \<not> jlt (sample_distanceSq xs origin direction b)
                  (sample_distanceSq xs origin direction a))"

text \<open>The order the tie-break stands for when ties are exact: a strictly smaller squared
  distance, or an equal one with a strictly smaller projection length.\<close>

definition lex_before :: "jsnum \<Rightarrow> jsnum \<Rightarrow> jsnum \<Rightarrow> jsnum \<Rightarrow> bool" where
  "lex_before d r d' r' = (jlt d d' \<or> (\<not> jlt d' d \<and> jlt r r'))"

text \<open>Three samples beside the ray from the origin along the third axis: at the squared
  distances \<open>0\<close>, \<open>2^-40\<close> and \<open>2^-39\<close> from it, each nearer to the origin along the
  ray than the one before.\<close>

definition origin0 :: vec3 where
  "origin0 = \<lparr>vx = Num 0, vy = Num 0, vz = Num 0\<rparr>"

definition axis_z :: vec3 where
  "axis_z = \<lparr>vx = Num 0, vy = Num 0, vz = Num 1\<rparr>"

definition drift_samples :: "jsnum list" where
  "drift_samples =
     [Num 0, Num 0, Num 10,
      Num (1 / 2 ^ 20), Num 0, Num 9,
      Num (1 / 2 ^ 20), Num (1 / 2 ^ 20), Num 8]"

text \<open>A sample whose squared distance to that ray is beyond the largest double, a
  sample whose squared distance is below the smallest, and three samples on the ray.\<close>

definition far_sample :: "jsnum list" where
  "far_sample = [Num (2 ^ 600), Num 0, Num 1]"

definition near_sample :: "jsnum list" where
  "near_sample = [Num (1 / 2 ^ 600), Num 0, Num 1]"

definition tied_samples :: "jsnum list" where
  "tied_samples = [Num 0, Num 0, Num 2, Num 0, Num 0, Num 1, Num 0, Num 0, Num 1]"

section \<open>Arithmetic on finite numbers\<close>

lemma jadd_Num: "jadd (Num a) (Num b) = Num (a + b)"
  by (simp add: jadd_def mk_num_def)

lemma jsub_Num: "jsub (Num a) (Num b) = Num (a - b)"
  by (simp add: jsub_def jadd_def mk_num_def)

lemma jmul_Num:
  "jmul (Num a) (Num b) = (if a * b = 0 \<and> (a < 0) \<noteq> (b < 0) then NegZero else Num (a * b))"
  by (simp add: jmul_def mk_num_def)

lemma jdiv_Num:
  "b \<noteq> 0 \<Longrightarrow> jdiv (Num a) (Num b) = (if a = 0 \<and> b < 0 then NegZero else Num (a / b))"
  by (simp add: jdiv_def mk_num_def isZero_def)

lemma jlt_Num: "jlt (Num a) (Num b) = (a < b)"
  by (simp add: jlt_def)

lemma jle_Num: "jle (Num a) (Num b) = (a \<le> b)"
  by (simp add: jle_def)

lemma jlt_PosInf: "jlt (Num a) PosInf" "\<not> jlt PosInf b"
  by (simp_all add: jlt_def)

lemmas jsnum_eval = jadd_Num jsub_Num jmul_Num jdiv_Num jlt_Num jle_Num jlt_PosInf jgt_def jge_def

lemma max_round_large: "2 ^ 64 \<le> max_round"
proof -
  have "(2 :: real) ^ 1024 = 2 ^ 970 * 2 ^ 54"
    by (simp only: power_add [symmetric]) simp
  then have "max_round = 2 ^ 970 * (2 ^ 54 - 1)"
    by (simp add: max_round_def algebra_simps)
  moreover have "(2 :: real) ^ 64 \<le> 2 ^ 970"
    by (rule power_increasing) simp_all
  moreover have "(1 :: real) \<le> 2 ^ 54 - 1" by simp
  ultimately show ?thesis
    using mult_mono [of "2 ^ 64" "2 ^ 970" 1 "2 ^ 54 - (1 :: real)"] by simp
qed

lemma max_round_pos: "0 < max_round"
  using max_round_large by (rule less_le_trans [rotated]) simp

lemma min_round_pos: "0 < min_round"
  by (simp add: min_round_def)

lemma min_round_small: "min_round < 1 / 2 ^ 64"
proof -
  have "(2 :: real) ^ 64 < 2 ^ 1075"
    by (rule power_strict_increasing) simp_all
  then show ?thesis
    unfolding min_round_def by (intro divide_strict_left_mono) simp_all
qed

lemma double_range_small:
  "r = 0 \<or> 1 / 2 ^ 64 \<le> \<bar>r\<bar> \<Longrightarrow> \<bar>r\<bar> < 2 ^ 64 \<Longrightarrow> double_range (Num r) = Num r"
  using max_round_large min_round_small min_round_pos by (auto simp: double_range_def)

lemma double_range_special [simp]:
  "double_range NaN = NaN" "double_range PosInf = PosInf" "double_range NegInf = NegInf"
  "double_range NegZero = NegZero"
  using max_round_pos min_round_pos by (simp_all add: double_range_def)

lemma add_d_Num:
  "a + b = 0 \<or> 1 / 2 ^ 64 \<le> \<bar>a + b\<bar> \<Longrightarrow> \<bar>a + b\<bar> < 2 ^ 64 \<Longrightarrow>
   add_d (Num a) (Num b) = Num (a + b)"
  by (simp add: add_d_def jadd_Num double_range_small)

lemma sub_d_Num:
  "a - b = 0 \<or> 1 / 2 ^ 64 \<le> \<bar>a - b\<bar> \<Longrightarrow> \<bar>a - b\<bar> < 2 ^ 64 \<Longrightarrow>
   sub_d (Num a) (Num b) = Num (a - b)"
  by (simp add: sub_d_def jsub_Num double_range_small)

lemma mul_d_Num:
  "a * b = 0 \<or> 1 / 2 ^ 64 \<le> \<bar>a * b\<bar> \<Longrightarrow> \<bar>a * b\<bar> < 2 ^ 64 \<Longrightarrow>
   mul_d (Num a) (Num b) = (if a * b = 0 \<and> (a < 0) \<noteq> (b < 0) then NegZero else Num (a * b))"
  by (simp add: mul_d_def jmul_Num double_range_small)

lemma div_d_Num:
  "b \<noteq> 0 \<Longrightarrow> a / b = 0 \<or> 1 / 2 ^ 64 \<le> \<bar>a / b\<bar> \<Longrightarrow> \<bar>a / b\<bar> < 2 ^ 64 \<Longrightarrow>
   div_d (Num a) (Num b) = (if a = 0 \<and> b < 0 then NegZero else Num (a / b))"
  by (simp add: div_d_def jdiv_Num double_range_small)

lemma hypot_d_axis: "hypot_d (Num 0) (Num 0) (Num 1) = Num 1"
  by (simp add: hypot_d_def Math_hypot_def isInfinite_def double_range_small)

lemmas d_eval = add_d_Num sub_d_Num mul_d_Num div_d_Num hypot_d_axis

section \<open>Pan translation\<close>

text \<open>
  C1. \<open>applyPanTranslation\<close> adds \<open>nextTarget - prevTarget\<close> to the camera,
  componentwise, exactly when the user is interacting, the mode is \<open>PAN\<close> and the
  Euclidean length of the difference is finite and strictly greater than \<open>epsilon\<close>;
  in every other case the camera is returned as it was. The result also reports the
  difference, its length and the gate.
\<close>

theorem applyPanTranslation_gate:
  "nextCamera (applyPanTranslation prevCamera prevTarget nextTarget userInteracting mode epsilon) =
     (if userInteracting \<and> mode = PAN
         \<and> isFinite (euclid_length (vec_diff nextTarget prevTarget))
         \<and> jgt (euclid_length (vec_diff nextTarget prevTarget)) epsilon
      then vec_sum prevCamera (vec_diff nextTarget prevTarget)
      else prevCamera)"
  by (simp add: applyPanTranslation_def Let_def shouldTranslateCameraForTargetDelta_def
      vec_diff_def vec_sum_def euclid_length_def)

text \<open>With the default \<open>epsilon\<close>, a pan by \<open>(1, 0, 0)\<close> moves the camera from
  \<open>(2, 3, 4)\<close> to \<open>(3, 3, 4)\<close>.\<close>

theorem applyPanTranslation_gate_witness:
  "nextCamera (applyPanTranslation \<lparr>vx = Num 2, vy = Num 3, vz = Num 4\<rparr>
       \<lparr>vx = Num 0, vy = Num 0, vz = Num 0\<rparr> \<lparr>vx = Num 1, vy = Num 0, vz = Num 0\<rparr>
       True PAN default_epsilon)
     = \<lparr>vx = Num 3, vy = Num 3, vz = Num 4\<rparr>"
  using applyPanTranslation_gate [of "\<lparr>vx = Num 2, vy = Num 3, vz = Num 4\<rparr>"
       "\<lparr>vx = Num 0, vy = Num 0, vz = Num 0\<rparr>" "\<lparr>vx = Num 1, vy = Num 0, vz = Num 0\<rparr>"
       True PAN default_epsilon]
  by (simp add: vec_diff_def vec_sum_def euclid_length_def Math_hypot_def isInfinite_def
      jsub_def jadd_def mk_num_def jgt_def jlt_def default_epsilon_def)

section \<open>Zoom distance\<close>

lemma zoom_lower_le_upper: "jle (zoom_lower a) (zoom_upper a b)"
  by (cases a; cases b) (auto simp: zoom_lower_def zoom_upper_def Math_max_def jle_def jlt_def)

lemma clamp_between:
  "v \<noteq> NaN \<Longrightarrow> jle lo hi \<Longrightarrow> jle lo (clamp v lo hi) \<and> jle (clamp v lo hi) hi"
  by (cases v; cases lo; cases hi) (auto simp: clamp_def Math_max_def Math_min_def jle_def jlt_def)

lemma jmul_finite_pos_not_NaN:
  "isFinite cd \<Longrightarrow> \<not> jle cd (Num 0) \<Longrightarrow> zf \<noteq> NaN \<Longrightarrow> jmul cd zf \<noteq> NaN"
  by (cases cd; cases zf) (auto simp: jmul_def jle_def mk_num_def mk_inf_def isZero_def)

lemma jmul_pos:
  "isFinite cd \<Longrightarrow> \<not> jle cd (Num 0) \<Longrightarrow> jlt (Num 0) zf \<Longrightarrow>
   jmul cd zf = PosInf \<or> (\<exists>p. 0 < p \<and> jmul cd zf = Num p)"
  by (cases cd; cases zf) (auto simp: jmul_def jle_def jlt_def mk_num_def mk_inf_def isZero_def)

lemma clamp_pos_lower:
  "v = PosInf \<or> (\<exists>p. 0 < p \<and> v = Num p) \<Longrightarrow> isFinite a \<Longrightarrow> isFinite b \<Longrightarrow>
   clamp v a (Math_max a b) = clamp v (Math_max (Num 0) a) (Math_max a b)"
  by (cases a; cases b) (auto simp: clamp_def Math_max_def Math_min_def jle_def jlt_def)

text \<open>
  C2, as the code has it. \<open>computeZoomedCameraDistance\<close> returns \<open>currentDistance\<close>
  unchanged when it is not finite or not positive. Otherwise it returns the product with
  \<open>zoomFactor\<close> clamped to \<open>[zoom_lower, zoom_upper]\<close>: the lower bound is
  \<open>minDistance\<close> itself when finite (so it is negative for a negative \<open>minDistance\<close>)
  and 0 otherwise. The interval is never empty, a product that is not NaN lands inside it,
  and for finite bounds and a positive \<open>zoomFactor\<close> the result is the one of clamping to
  \<open>[max(0, minDistance), max(minDistance, maxDistance)]\<close>.
\<close>

theorem computeZoomedCameraDistance_interval:
  "computeZoomedCameraDistance cd minD maxD zf =
     (if \<not> isFinite cd \<or> jle cd (Num 0) then cd
      else clamp (jmul cd zf) (zoom_lower minD) (zoom_upper minD maxD))
   \<and> jle (zoom_lower minD) (zoom_upper minD maxD)
   \<and> (isFinite cd \<and> \<not> jle cd (Num 0) \<and> zf \<noteq> NaN \<longrightarrow>
        jle (zoom_lower minD) (computeZoomedCameraDistance cd minD maxD zf)
        \<and> jle (computeZoomedCameraDistance cd minD maxD zf) (zoom_upper minD maxD))
   \<and> (isFinite cd \<and> \<not> jle cd (Num 0) \<and> jlt (Num 0) zf \<and> isFinite minD \<and> isFinite maxD \<longrightarrow>
        computeZoomedCameraDistance cd minD maxD zf = spec_zoomed_distance cd minD maxD zf)"
proof -
  have eq: "computeZoomedCameraDistance cd minD maxD zf =
     (if \<not> isFinite cd \<or> jle cd (Num 0) then cd
      else clamp (jmul cd zf) (zoom_lower minD) (zoom_upper minD maxD))"
    by (simp add: computeZoomedCameraDistance_def zoom_lower_def zoom_upper_def Let_def)
  have inside: "jle (zoom_lower minD) (computeZoomedCameraDistance cd minD maxD zf)
        \<and> jle (computeZoomedCameraDistance cd minD maxD zf) (zoom_upper minD maxD)"
    if "isFinite cd" "\<not> jle cd (Num 0)" "zf \<noteq> NaN"
    using that eq clamp_between [OF jmul_finite_pos_not_NaN zoom_lower_le_upper, of cd zf minD maxD]
    by simp
  have same: "computeZoomedCameraDistance cd minD maxD zf = spec_zoomed_distance cd minD maxD zf"
    if "isFinite cd" "\<not> jle cd (Num 0)" "jlt (Num 0) zf" "isFinite minD" "isFinite maxD"
    using that clamp_pos_lower [OF jmul_pos, of cd zf minD maxD]
    by (simp add: computeZoomedCameraDistance_def spec_zoomed_distance_def Let_def)
  show ?thesis
    using eq zoom_lower_le_upper inside same by blast
qed

text \<open>The distance 5 between the bounds 0.6 and 10 zooms to 3.6 with the default factor.\<close>

theorem computeZoomedCameraDistance_interval_witness:
  "isFinite (Num 5) \<and> \<not> jle (Num 5) (Num 0) \<and> jlt (Num 0) default_zoomFactor
   \<and> isFinite (Num (6 / 10)) \<and> isFinite (Num 10)
   \<and> computeZoomedCameraDistance (Num 5) (Num (6 / 10)) (Num 10) default_zoomFactor = Num (36 / 10)
   \<and> jle (zoom_lower (Num (6 / 10))) (Num (36 / 10))
   \<and> jle (Num (36 / 10)) (zoom_upper (Num (6 / 10)) (Num 10))"
  using computeZoomedCameraDistance_interval [of "Num 5" "Num (6 / 10)" "Num 10" default_zoomFactor]
  by (simp add: spec_zoomed_distance_def default_zoomFactor_def clamp_def Math_max_def
      Math_min_def jle_def jlt_def jmul_def mk_num_def zoom_lower_def zoom_upper_def)

text \<open>With \<open>minDistance = -5\<close> and \<open>zoomFactor = -1\<close> the distance 1 becomes -1: the
  result is below \<open>max(0, minDistance) = 0\<close>, where the clamping of the specification
  would have stopped.\<close>

theorem computeZoomedCameraDistance_negative_lower:
  "computeZoomedCameraDistance (Num 1) (Num (- 5)) (Num 10) (Num (- 1)) = Num (- 1)
   \<and> spec_zoomed_distance (Num 1) (Num (- 5)) (Num 10) (Num (- 1)) = Num 0
   \<and> jlt (zoom_lower (Num (- 5))) (Num 0)"
  by (simp add: computeZoomedCameraDistance_def spec_zoomed_distance_def clamp_def Math_max_def
      Math_min_def jle_def jlt_def jmul_def mk_num_def Let_def zoom_lower_def)

section \<open>Decoding half-precision floats\<close>

lemma mask_3ff: "(0x3ff :: 32 word) = mask 10" by (simp add: mask_eq_exp_minus_1)
lemma mask_7c00: "(0x7c00 :: 32 word) = push_bit 10 (mask 5)" by (simp add: mask_eq_exp_minus_1 push_bit_eq_mult)
lemma mask_ffff: "(0xffff :: 32 word) = mask 16" by (simp add: mask_eq_exp_minus_1)
lemma mask_8000: "(0x8000 :: 32 word) = push_bit 15 1" by (simp add: push_bit_eq_mult)

lemma fraction_bits: "((w :: 32 word) AND 0xffff) AND 0x3ff = take_bit 10 w"
  unfolding mask_3ff mask_ffff by (rule bit_word_eqI) (auto simp: bit_simps)
lemma exponent_bits: "signed_drop_bit 10 (((w :: 32 word) AND 0xffff) AND 0x7c00) = take_bit 5 (drop_bit 10 w)"
  unfolding mask_7c00 mask_ffff by (rule bit_word_eqI) (auto simp: bit_simps)
lemma sign_bits: "(((w :: 32 word) AND 0xffff) AND 0x8000 \<noteq> 0) = bit w 15"
proof -
  have "(w AND 0xffff) AND 0x8000 = (w AND mask 16) AND 2 ^ 15"
    by (simp add: mask_eq_exp_minus_1)
  moreover have "((w AND mask 16) AND 2 ^ 15 = 0) = (\<not> bit (w AND mask 16) 15)"
    by (rule and_exp_eq_0_iff_not_bit)
  moreover have "bit (w AND mask 16) 15 = bit w 15"
    by (simp add: bit_simps)
  ultimately show ?thesis by simp
qed

lemma sint_small: "uint (x :: 32 word) < 2 ^ 31 \<Longrightarrow> sint x = uint x"
proof -
  assume a: "uint x < 2 ^ 31"
  have "- (2 ^ 31) \<le> uint x" by (rule order_trans [of _ 0]) simp_all
  then have "signed_take_bit 31 (uint x) = uint x"
    using a by (rule signed_take_bit_int_eq_self)
  then show ?thesis by (simp add: sint_uint)
qed

lemma uint_frac: "uint (take_bit 10 (w :: 32 word)) = uint w mod 1024"
proof -
  have "uint (take_bit 10 w) = take_bit 10 (uint w)"
    by (rule unsigned_take_bit_eq)
  also have "\<dots> = uint w mod 2 ^ 10"
    by (rule take_bit_eq_mod)
  finally show ?thesis by simp
qed

lemma uint_expo: "uint (take_bit 5 (drop_bit 10 (w :: 32 word))) = uint w div 1024 mod 32"
proof -
  have "uint (take_bit 5 (drop_bit 10 w)) = take_bit 5 (drop_bit 10 (take_bit 32 (uint w)))"
    by (simp only: unsigned_take_bit_eq unsigned_drop_bit_eq) simp
  also have "take_bit 32 (uint w) = uint w"
  proof -
    have "uint w < 2 ^ 32" using uint_lt2p [of w] by simp
    then show ?thesis by (simp only: take_bit_eq_mod) (simp add: mod_pos_pos_trivial)
  qed
  finally show ?thesis
    by (simp only: take_bit_eq_mod drop_bit_eq_div) simp
qed

lemma sint_frac: "sint (take_bit 10 (w::32 word)) = uint w mod 1024"
proof -
  have "uint w mod 1024 < 1024" by simp
  then have "uint (take_bit 10 w) < 2 ^ 31" by (simp only: uint_frac) simp
  then show ?thesis by (simp only: sint_small uint_frac)
qed

lemma sint_expo: "sint (take_bit 5 (drop_bit 10 (w::32 word))) = uint w div 1024 mod 32"
proof -
  have "uint w div 1024 mod 32 < 32" by simp
  then have "uint (take_bit 5 (drop_bit 10 w)) < 2 ^ 31" by (simp only: uint_expo) simp
  then show ?thesis by (simp only: sint_small uint_expo)
qed

lemma bit15: "bit (w :: 32 word) 15 = (uint w div 32768 mod 2 = 1)"
proof -
  have "bit w 15 = bit (uint w) 15" by (simp add: bit_uint_iff)
  also have "\<dots> = odd (uint w div 2 ^ 15)" by (rule bit_iff_odd)
  finally show ?thesis by (simp add: odd_iff_mod_2_eq_one)
qed

lemma pow2_of_int: "pow2 (Num (of_int k)) = Num (2 powi k)"
  by (simp add: powr_real_of_int')

lemma word_eq_uint: "((x :: 32 word) = y) = (uint x = uint y)"
  by (rule word_uint_eq_iff)

lemma decode_word:
  "isFinite v \<Longrightarrow> decodeFloat16 v = int_fields_value (uint (ToInt32 v))"
proof -
  assume fin: "isFinite v"
  define w where "w = ToInt32 v"
  have f0: "0 \<le> uint w mod 1024" by simp
  have e0: "0 \<le> uint w div 1024 mod 32" by simp
  have ex: "signed_drop_bit HALF_FLOAT_EXPONENT_SHIFT ((w AND 0xffff) AND HALF_FLOAT_EXPONENT_MASK)
      = take_bit 5 (drop_bit 10 w)"
    by (simp only: HALF_FLOAT_EXPONENT_SHIFT_def HALF_FLOAT_EXPONENT_MASK_def exponent_bits)
  have fr: "(w AND 0xffff) AND HALF_FLOAT_FRACTION_MASK = take_bit 10 w"
    by (simp only: HALF_FLOAT_FRACTION_MASK_def fraction_bits)
  have sg: "((w AND 0xffff) AND HALF_FLOAT_SIGN_MASK \<noteq> 0) = (uint w div 32768 mod 2 = 1)"
    by (simp only: HALF_FLOAT_SIGN_MASK_def sign_bits bit15)
  have ez: "(take_bit 5 (drop_bit 10 w) = 0) = (uint w div 1024 mod 32 = 0)"
    by (simp only: word_eq_uint [of _ 0] uint_expo) simp
  have em: "(take_bit 5 (drop_bit 10 w) = HALF_FLOAT_MAX_EXPONENT) = (uint w div 1024 mod 32 = 31)"
    by (simp only: HALF_FLOAT_MAX_EXPONENT_def word_eq_uint [of _ "0x1f"] uint_expo) simp
  have fz: "(take_bit 10 w = 0) = (uint w mod 1024 = 0)"
    by (simp only: word_eq_uint [of _ 0] uint_frac) simp
  have dec: "decodeFloat16 v =
      (let sign = (if uint w div 32768 mod 2 = 1 then Num (- 1) else Num 1);
           e = uint w div 1024 mod 32; f = uint w mod 1024
       in if e = 0
          then (if f = 0 then jmul sign (Num 0)
                else jmul (jmul sign (pow2 (Num (- 14)))) (jdiv (Num (of_int f)) (Num 1024)))
          else if e = 31
          then (if f = 0 then jmul sign PosInf else NaN)
          else jmul (jmul sign (pow2 (jsub (Num (of_int e)) (Num 15))))
                 (jadd (Num 1) (jdiv (Num (of_int f)) (Num 1024))))"
    unfolding decodeFloat16_def Let_def w_def [symmetric]
    using fin
    by (simp only: ex fr sg ez em fz int32_num_def sint_expo sint_frac if_False if_True simp_thms)
  have sz: "jmul (Num (- 1)) (Num 0) = NegZero" "jmul (Num 1) (Num 0) = Num 0"
       "jmul (Num (- 1)) PosInf = NegInf" "jmul (Num 1) PosInf = PosInf"
    by (simp_all add: jmul_def mk_num_def mk_inf_def isZero_def)
  have p14: "pow2 (Num (- 14)) = Num (2 powi (- 14))"
    using pow2_of_int [of "- 14"] by simp
  have pe: "pow2 (jsub (Num (of_int e)) (Num 15)) = Num (2 powi (e - 15))" for e :: int
  proof -
    have "jsub (Num (of_int e)) (Num 15) = Num (of_int (e - 15))"
      by (simp add: jsub_def jadd_def mk_num_def)
    then show ?thesis by (simp only: pow2_of_int)
  qed
  have md: "jmul (jmul (Num s) (Num p)) (jdiv (Num (of_int f)) (Num 1024)) = Num (s * p * (of_int f / 1024))"
    if "s \<noteq> 0" "p \<noteq> 0" "f \<noteq> 0" for s p :: real and f :: int
    using that by (simp add: jmul_def jdiv_def mk_num_def isZero_def)
  have ma: "jmul (jmul (Num s) (Num p)) (jadd (Num 1) (jdiv (Num (of_int f)) (Num 1024)))
       = Num (s * p * (1 + of_int f / 1024))"
    if "s \<noteq> 0" "p \<noteq> 0" "0 \<le> f" for s p :: real and f :: int
  proof -
    have nz: "1 + real_of_int f / 1024 \<noteq> 0" using that by (simp add: add_nonneg_eq_0_iff)
    have "jadd (Num 1) (jdiv (Num (of_int f)) (Num 1024)) = Num (1 + of_int f / 1024)"
      using nz by (simp add: jadd_def jdiv_def mk_num_def isZero_def)
    then show ?thesis using that nz by (simp add: jmul_def mk_num_def)
  qed
  have pz: "(2 :: real) powi k \<noteq> 0" for k :: int by simp
  define e where "e = uint w div 1024 mod 32"
  define f where "f = uint w mod 1024"
  define neg where "neg = (uint w div 32768 mod 2 = 1)"
  have dec': "decodeFloat16 v =
      (if e = 0
          then (if f = 0 then jmul (if neg then Num (- 1) else Num 1) (Num 0)
                else jmul (jmul (if neg then Num (- 1) else Num 1) (pow2 (Num (- 14)))) (jdiv (Num (of_int f)) (Num 1024)))
          else if e = 31
          then (if f = 0 then jmul (if neg then Num (- 1) else Num 1) PosInf else NaN)
          else jmul (jmul (if neg then Num (- 1) else Num 1) (pow2 (jsub (Num (of_int e)) (Num 15))))
                 (jadd (Num 1) (jdiv (Num (of_int f)) (Num 1024))))"
    unfolding dec Let_def e_def f_def neg_def ..
  have ifv: "int_fields_value (uint w) =
      (if e = 0
         then (if f = 0 then (if neg then NegZero else Num 0)
               else Num ((if neg then - 1 else 1) * 2 powi (- 14) * (of_int f / 1024)))
         else if e = 31
         then (if f = 0 then (if neg then NegInf else PosInf) else NaN)
         else Num ((if neg then - 1 else 1) * 2 powi (e - 15) * (1 + of_int f / 1024)))"
    unfolding int_fields_value_def Let_def e_def f_def neg_def ..
  have f0': "0 \<le> f" unfolding f_def by (rule f0)
  have m1: "(- 1 :: real) \<noteq> 0" "(1 :: real) \<noteq> 0" by simp_all
  show ?thesis
  proof (cases neg)
    case True
    show ?thesis
      unfolding dec' ifv w_def [symmetric]
      by (simp only: True if_True sz p14 pe md [OF m1(1) pz] ma [OF m1(1) pz f0'] simp_thms cong: if_cong)
  next
    case False
    show ?thesis
      unfolding dec' ifv w_def [symmetric]
      by (simp only: False if_False sz p14 pe md [OF m1(2) pz] ma [OF m1(2) pz f0'] simp_thms cong: if_cong)
  qed
qed




lemma int_fields_value_nat: "int_fields_value (int n) = binary16_value n"
proof -
  have a: "(int n div 32768 mod 2 = 1) = (n div 32768 mod 2 = 1)"
  proof -
    have "int n div 32768 mod 2 = int (n div 32768 mod 2)"
      by (simp add: zdiv_int zmod_int)
    then show ?thesis by simp
  qed
  have b: "int n div 1024 mod 32 = int (n div 1024 mod 32)"
    by (simp add: zdiv_int zmod_int)
  have c: "int n mod 1024 = int (n mod 1024)"
    by (simp add: zmod_int)
  show ?thesis
    unfolding int_fields_value_def binary16_value_def Let_def
    by (simp only: a b c of_int_of_nat_eq int_eq_iff_numeral of_nat_eq_0_iff) 
qed

lemma low_fields_exponent:
  fixes u :: int
  shows "(u mod 65536) div 1024 mod 32 = u div 1024 mod 32"
proof -
  have "take_bit 5 (drop_bit 10 (take_bit 16 u)) = take_bit (min 5 (16 - 10)) (drop_bit 10 u)"
    by (simp only: drop_bit_take_bit take_bit_take_bit)
  also have "min 5 (16 - 10) = (5 :: nat)" by simp
  finally have "(u mod 2 ^ 16) div 2 ^ 10 mod 2 ^ 5 = u div 2 ^ 10 mod 2 ^ 5"
    by (simp only: take_bit_eq_mod drop_bit_eq_div)
  then show ?thesis by simp
qed

lemma low_fields_sign:
  fixes u :: int
  shows "(u mod 65536) div 32768 mod 2 = u div 32768 mod 2"
proof -
  have "take_bit 1 (drop_bit 15 (take_bit 16 u)) = take_bit (min 1 (16 - 15)) (drop_bit 15 u)"
    by (simp only: drop_bit_take_bit take_bit_take_bit)
  also have "min 1 (16 - 15) = (1 :: nat)" by simp
  finally have "(u mod 2 ^ 16) div 2 ^ 15 mod 2 ^ 1 = u div 2 ^ 15 mod 2 ^ 1"
    by (simp only: take_bit_eq_mod drop_bit_eq_div)
  then show ?thesis by simp
qed

lemma low_fields_fraction:
  fixes u :: int
  shows "(u mod 65536) mod 1024 = u mod 1024"
  by (rule mod_mod_cancel) simp

lemma int_fields_value_mod: "int_fields_value (u mod 65536) = int_fields_value u"
  unfolding int_fields_value_def Let_def
  by (simp only: low_fields_exponent low_fields_sign low_fields_fraction)

lemma uint_ToInt32_low16: "uint (word_of_int k :: 32 word) mod 65536 = k mod 65536"
proof -
  have "uint (word_of_int k :: 32 word) = k mod 2 ^ 32"
    by (simp only: uint_word_of_int) simp
  moreover have "(k mod 2 ^ 32) mod 65536 = k mod 65536"
    by (rule mod_mod_cancel) simp
  ultimately show ?thesis by simp
qed

text \<open>
  C9. \<open>decodeFloat16\<close> is the IEEE-754 binary16 decoding of the low 16 bits of its
  input (truncated to an integer): with the sign bit \<open>n div 32768 mod 2\<close>, the exponent
  field \<open>e = n div 1024 mod 32\<close> and the fraction \<open>f = n mod 1024\<close>, the exponent
  field 0 gives the signed zero when \<open>f = 0\<close> and \<open>sign * 2^(-14) * (f / 1024)\<close>
  otherwise, the exponent field 31 gives the signed infinity when \<open>f = 0\<close> and NaN
  otherwise, every other exponent field gives \<open>sign * 2^(e - 15) * (1 + f / 1024)\<close>;
  an input that is not finite gives NaN.
\<close>

theorem decodeFloat16_binary16:
  "decodeFloat16 v = (if isFinite v then binary16_value (low16 v) else NaN)"
proof (cases "isFinite v")
  case False
  then show ?thesis by (simp add: decodeFloat16_def)
next
  case True
  define k where "k = truncate_real (jval v)"
  define u where "u = uint (word_of_int k :: 32 word)"
  have um: "u mod 65536 = k mod 65536"
    unfolding u_def by (rule uint_ToInt32_low16)
  have kn: "k mod 65536 = int (nat (k mod 65536))" by simp
  have "decodeFloat16 v = int_fields_value u"
    using True by (simp only: decode_word ToInt32_def k_def u_def if_True)
  also have "\<dots> = int_fields_value (u mod 65536)"
    by (simp only: int_fields_value_mod)
  also have "\<dots> = int_fields_value (int (nat (k mod 65536)))"
    using kn by (simp only: um)
  also have "\<dots> = binary16_value (nat (k mod 65536))"
    by (rule int_fields_value_nat)
  finally show ?thesis using True by (simp only: low16_def k_def if_True)
qed

text \<open>The bit patterns of 1, of the negative zero, of the negative infinity, of the
  smallest subnormal and of a NaN, and an infinite input.\<close>

theorem decodeFloat16_binary16_witness:
  "decodeFloat16 (Num 15360) = Num 1 \<and> decodeFloat16 (Num 32768) = NegZero
   \<and> decodeFloat16 (Num 64512) = NegInf \<and> decodeFloat16 (Num 1) = Num (1 / 16777216)
   \<and> decodeFloat16 PosInf = NaN \<and> decodeFloat16 (Num 31745) = NaN"
  using decodeFloat16_binary16 [of "Num 15360"] decodeFloat16_binary16 [of "Num 32768"]
    decodeFloat16_binary16 [of "Num 64512"] decodeFloat16_binary16 [of "Num 1"]
    decodeFloat16_binary16 [of "PosInf"] decodeFloat16_binary16 [of "Num 31745"]
  by (simp add: binary16_value_def low16_def truncate_real_def)

section \<open>Ray picking: the distance budget\<close>

declare closest_loop.simps [simp del]

lemma closest_loop_step:
  "offset < length xs \<Longrightarrow>
   closest_loop xs origin direction limit offset best =
   closest_loop xs origin direction limit (offset + 3) (closest_step xs origin direction limit offset best)"
  by (simp add: closest_loop.simps [of _ _ _ _ offset])

lemma closest_loop_done:
  "\<not> offset < length xs \<Longrightarrow> closest_loop xs origin direction limit offset best = best"
  by (simp add: closest_loop.simps [of _ _ _ _ offset])

text \<open>
  C10. A negative or non-finite \<open>maxDistanceSq\<close> gives exactly the result of
  \<open>maxDistanceSq = +Infinity\<close>: the budget is replaced by an unlimited one and excludes
  no sample.
\<close>

theorem findClosestSampleToRay_invalid_budget:
  "jlt maxDistanceSq (Num 0) \<or> \<not> isFinite maxDistanceSq \<Longrightarrow>
   findClosestSampleToRay xs rayOrigin rayDirection maxDistanceSq =
   findClosestSampleToRay xs rayOrigin rayDirection PosInf"
proof -
  assume "jlt maxDistanceSq (Num 0) \<or> \<not> isFinite maxDistanceSq"
  then have "distanceSqLimit_of maxDistanceSq = distanceSqLimit_of PosInf"
    by (cases maxDistanceSq) (auto simp: distanceSqLimit_of_def jlt_def jge_def jle_def)
  then show ?thesis
    by (simp only: findClosestSampleToRay_def)
qed

text \<open>With the budget \<open>-1\<close> the sample \<open>(0, 0, 1)\<close> on the ray from the origin along
  the third axis is still found.\<close>

lemma closest_step_on_axis:
  "closest_step [Num 0, Num 0, Num 1] \<lparr>vx = Num 0, vy = Num 0, vz = Num 0\<rparr>
       \<lparr>vx = Num 0, vy = Num 0, vz = Num 1\<rparr> PosInf 0 initial_best
     = \<lparr>bestOffset = 0, bestDistanceSq = Num 0, bestRayDistance = Num 1\<rparr>"
  by (simp add: closest_step_def initial_best_def sample_distanceSq_def sample_rayDistance_def
      array_read_def jsnum_eval d_eval)

lemma findClosestSampleToRay_on_axis:
  "findClosestSampleToRay [Num 0, Num 0, Num 1] \<lparr>vx = Num 0, vy = Num 0, vz = Num 0\<rparr>
       \<lparr>vx = Num 0, vy = Num 0, vz = Num 1\<rparr> PosInf
     = Some \<lparr>sampleOffset = 0, hit_x = Num 0, hit_y = Num 0, hit_z = Num 1,
              distanceSq = Num 0, rayDistance = Num 1\<rparr>"
  by (simp add: findClosestSampleToRay_def distanceSqLimit_of_def normalized_def
      closest_step_on_axis jsnum_eval d_eval closest_loop_step closest_loop_done
      hit_of_best_def array_read_def)

theorem findClosestSampleToRay_invalid_budget_witness:
  "jlt (Num (- 1)) (Num 0)
   \<and> findClosestSampleToRay [Num 0, Num 0, Num 1] \<lparr>vx = Num 0, vy = Num 0, vz = Num 0\<rparr>
       \<lparr>vx = Num 0, vy = Num 0, vz = Num 1\<rparr> (Num (- 1))
     = Some \<lparr>sampleOffset = 0, hit_x = Num 0, hit_y = Num 0, hit_z = Num 1,
              distanceSq = Num 0, rayDistance = Num 1\<rparr>"
  using findClosestSampleToRay_invalid_budget [of "Num (- 1)" "[Num 0, Num 0, Num 1]"
      "\<lparr>vx = Num 0, vy = Num 0, vz = Num 0\<rparr>" "\<lparr>vx = Num 0, vy = Num 0, vz = Num 1\<rparr>"]
  by (simp add: findClosestSampleToRay_on_axis jlt_Num)

section \<open>The interaction state machine: installation and invariants\<close>

lemma tilt_fallback_keeps [simp]:
  "state (tilt_fallback a w) = state w" "controls (tilt_fallback a w) = controls w"
  "lotEditState (tilt_fallback a w) = lotEditState w"
  by (simp_all add: tilt_fallback_def Let_def)

lemma emit_update_keeps [simp]:
  "state (emitUserNavigate w) = state w" "enabled (controls (emitUserNavigate w)) = enabled (controls w)"
  "state (call_update w) = state w" "enabled (controls (call_update w)) = enabled (controls w)"
  by (simp_all add: emitUserNavigate_def call_update_def)

lemma binding_keeps [simp]:
  "state (setLeftMouseBinding e w) = state w" "enabled (controls (setLeftMouseBinding e w)) = enabled (controls w)"
  "state (resetLeftMouseBinding w) = state w" "enabled (controls (resetLeftMouseBinding w)) = enabled (controls w)"
  by (simp_all add: setLeftMouseBinding_def resetLeftMouseBinding_def)

lemma touch_mode_keeps [simp]:
  "shiftTilt (state (updateTouchInteractionMode w)) = shiftTilt (state w)"
  "controls (updateTouchInteractionMode w) = controls w"
  by (simp_all add: updateTouchInteractionMode_def)

lemma tilt_down: "tilt_disables w \<Longrightarrow> tilt_disables (fst (handlePointerDown e w))"
  by (simp add: handlePointerDown_def tilt_disables_def Let_def)

lemma tilt_move: "tilt_disables w \<Longrightarrow> tilt_disables (fst (handlePointerMove e w))"
  by (simp add: handlePointerMove_def tilt_disables_def Let_def)

lemma tilt_end: "tilt_disables w \<Longrightarrow> tilt_disables (endShiftTilt p w)"
  by (simp add: endShiftTilt_def tilt_disables_def)

lemma tilt_up: "tilt_disables w \<Longrightarrow> tilt_disables (fst (handlePointerUpOrCancel e w))"
  using tilt_end [of w "Some (pointerId e)"]
  by (simp add: handlePointerUpOrCancel_def tilt_disables_def Let_def)

lemma tilt_blur: "tilt_disables w \<Longrightarrow> tilt_disables (handleWindowBlur w)"
  using tilt_end [of "w\<lparr>state := (state w)\<lparr>touchPointerIds := []\<rparr>\<rparr>" None]
  by (simp add: handleWindowBlur_def tilt_disables_def Let_def)

lemma tilt_dbl: "tilt_disables w \<Longrightarrow> tilt_disables (fst (handleDoubleClick e w))"
  by (simp add: handleDoubleClick_def tilt_disables_def Let_def)

lemma tilt_dispatch: "tilt_disables w \<Longrightarrow> tilt_disables (dispatch i w)"
  by (cases i) (simp_all add: tilt_down tilt_move tilt_up tilt_blur tilt_dbl, simp add: tilt_disables_def split: option.splits)

lemma tilt_run: "tilt_disables w \<Longrightarrow> tilt_disables (run inputs w)"
  by (induction inputs arbitrary: w) (simp_all add: tilt_dispatch)


lemma install_harness: "installSafeControlsRefinement harness_config = Inr harness_world"
  by (simp add: installSafeControlsRefinement_def harness_config_def harness_world_def
      resetLeftMouseBinding_def harness_MOUSE_def addEventListener_def
      harness_listeners_window_def harness_listeners_dom_def)

lemma endShiftTilt_keeps [simp]:
  "lotEditState (endShiftTilt p w) = lotEditState w"
  "has_onUserNavigate (endShiftTilt p w) = has_onUserNavigate w"
  "navigateCalls (endShiftTilt p w) = navigateCalls w"
  by (simp_all add: endShiftTilt_def)

lemma small_steps_keep [simp]:
  "lotEditState (emitUserNavigate w) = lotEditState w"
  "has_onUserNavigate (emitUserNavigate w) = has_onUserNavigate w"
  "lotEditState (call_update w) = lotEditState w"
  "has_onUserNavigate (call_update w) = has_onUserNavigate w"
  "navigateCalls (call_update w) = navigateCalls w"
  "lotEditState (setLeftMouseBinding e w) = lotEditState w"
  "has_onUserNavigate (setLeftMouseBinding e w) = has_onUserNavigate w"
  "navigateCalls (setLeftMouseBinding e w) = navigateCalls w"
  "lotEditState (resetLeftMouseBinding w) = lotEditState w"
  "has_onUserNavigate (resetLeftMouseBinding w) = has_onUserNavigate w"
  "navigateCalls (resetLeftMouseBinding w) = navigateCalls w"
  "lotEditState (updateTouchInteractionMode w) = lotEditState w"
  "has_onUserNavigate (updateTouchInteractionMode w) = has_onUserNavigate w"
  "navigateCalls (updateTouchInteractionMode w) = navigateCalls w"
  "has_onUserNavigate (tilt_fallback a w) = has_onUserNavigate w"
  "navigateCalls (tilt_fallback a w) = navigateCalls w"
  by (simp_all add: emitUserNavigate_def call_update_def setLeftMouseBinding_def
      resetLeftMouseBinding_def updateTouchInteractionMode_def tilt_fallback_def Let_def)

lemma emit_without_callback:
  "\<not> has_onUserNavigate w \<Longrightarrow> navigateCalls (emitUserNavigate w) = navigateCalls w"
  by (simp add: emitUserNavigate_def)

lemma dispatch_keeps_callback:
  "has_onUserNavigate (dispatch i w) = has_onUserNavigate w"
  by (cases i)
    (simp_all add: handlePointerDown_def handlePointerMove_def handlePointerUpOrCancel_def
      handleWindowBlur_def handleDoubleClick_def Let_def split: option.splits)

lemma dispatch_no_holder:
  "lotEditState w = None \<Longrightarrow> lotEditState (dispatch i w) = None"
  by (cases i)
    (simp_all add: handlePointerDown_def handlePointerMove_def handlePointerUpOrCancel_def
      handleWindowBlur_def handleDoubleClick_def Let_def)

lemma dispatch_no_callback:
  "\<not> has_onUserNavigate w \<Longrightarrow> navigateCalls (dispatch i w) = navigateCalls w"
  by (cases i)
    (simp_all add: handlePointerDown_def handlePointerMove_def handlePointerUpOrCancel_def
      handleWindowBlur_def handleDoubleClick_def Let_def emit_without_callback
      split: option.splits)

lemma run_no_holder: "lotEditState w = None \<Longrightarrow> lotEditState (run inputs w) = None"
  by (induction inputs arbitrary: w) (simp_all add: dispatch_no_holder)

lemma run_no_callback:
  "\<not> has_onUserNavigate w \<Longrightarrow> navigateCalls (run inputs w) = navigateCalls w"
  by (induction inputs arbitrary: w) (simp_all add: dispatch_no_callback dispatch_keeps_callback)

lemma install_world:
  assumes "installSafeControlsRefinement cfg = Inr w0"
  shows "lotEditState w0 = cfg_lotEditState cfg" "has_onUserNavigate w0 = cfg_onUserNavigate cfg"
    "navigateCalls w0 = 0" "state w0 = initial_state"
    "\<exists>wt. cfg_windowTarget cfg = Some wt \<and> windowTarget w0 = wt @ harness_listeners_window"
    "\<exists>de. cfg_domElement cfg = Some de \<and> domElement w0 = de @ harness_listeners_dom"
  using assms
  by (auto simp: installSafeControlsRefinement_def resetLeftMouseBinding_def addEventListener_def
      harness_listeners_window_def harness_listeners_dom_def split: option.splits if_splits)

lemma install_minimal: "installSafeControlsRefinement minimal_config = Inr minimal_world"
  by (simp add: installSafeControlsRefinement_def minimal_config_def minimal_world_def
      harness_config_def harness_world_def resetLeftMouseBinding_def harness_MOUSE_def
      addEventListener_def harness_listeners_window_def harness_listeners_dom_def)

text \<open>
  C5, as the code has it. \<open>installSafeControlsRefinement\<close> reports the configuration
  error exactly when one of the two event sources, the controller, the camera, the
  action-code table or the vector constructor is absent. Otherwise it adds its six
  listeners to the two event sources and keeps the edit-mode flag holder and the navigation
  callback as they were passed, present or not. Installed without a flag holder, the
  machine never takes edit mode to be active; installed without a callback, it never sends
  a notification.
\<close>

theorem install_requires_six:
  "isl (installSafeControlsRefinement cfg) =
     (cfg_windowTarget cfg = None \<or> cfg_domElement cfg = None \<or> cfg_controls cfg = None
      \<or> cfg_camera cfg = None \<or> cfg_MOUSE cfg = None \<or> \<not> cfg_Vector3 cfg)
   \<and> (installSafeControlsRefinement cfg = Inr w0 \<longrightarrow>
        (\<exists>wt. cfg_windowTarget cfg = Some wt \<and> windowTarget w0 = wt @ harness_listeners_window)
        \<and> (\<exists>de. cfg_domElement cfg = Some de \<and> domElement w0 = de @ harness_listeners_dom)
        \<and> lotEditState w0 = cfg_lotEditState cfg
        \<and> has_onUserNavigate w0 = cfg_onUserNavigate cfg)
   \<and> (installSafeControlsRefinement cfg = Inr w0 \<and> cfg_lotEditState cfg = None \<longrightarrow>
        \<not> edit_active (run inputs w0))
   \<and> (installSafeControlsRefinement cfg = Inr w0 \<and> \<not> cfg_onUserNavigate cfg \<longrightarrow>
        navigateCalls (run inputs w0) = 0)"
proof (intro conjI impI)
  show "isl (installSafeControlsRefinement cfg) =
     (cfg_windowTarget cfg = None \<or> cfg_domElement cfg = None \<or> cfg_controls cfg = None
      \<or> cfg_camera cfg = None \<or> cfg_MOUSE cfg = None \<or> \<not> cfg_Vector3 cfg)"
    by (simp add: installSafeControlsRefinement_def split: option.splits)
next
  assume a: "installSafeControlsRefinement cfg = Inr w0"
  show "\<exists>wt. cfg_windowTarget cfg = Some wt \<and> windowTarget w0 = wt @ harness_listeners_window"
    using a by (rule install_world)
  show "\<exists>de. cfg_domElement cfg = Some de \<and> domElement w0 = de @ harness_listeners_dom"
    using a by (rule install_world)
  show "lotEditState w0 = cfg_lotEditState cfg" using a by (rule install_world)
  show "has_onUserNavigate w0 = cfg_onUserNavigate cfg" using a by (rule install_world)
next
  assume a: "installSafeControlsRefinement cfg = Inr w0 \<and> cfg_lotEditState cfg = None"
  then have "lotEditState w0 = None" using install_world(1) [of cfg w0] by simp
  then have "lotEditState (run inputs w0) = None" by (rule run_no_holder)
  then show "\<not> edit_active (run inputs w0)" by (simp add: edit_active_def)
next
  assume a: "installSafeControlsRefinement cfg = Inr w0 \<and> \<not> cfg_onUserNavigate cfg"
  then have "\<not> has_onUserNavigate w0" "navigateCalls w0 = 0"
    using install_world(2,3) [of cfg w0] by simp_all
  then show "navigateCalls (run inputs w0) = 0" by (simp add: run_no_callback)
qed

lemma tilt_drag_step:
  assumes "active (shiftTilt (state w))" "tilt_pointerId (shiftTilt (state w)) = Some 7"
    "lastClientY (shiftTilt (state w)) = Num 100" "has_rotateUp (controls w)" "\<not> edit_active w"
  shows "updateCalls (controls (fst (handlePointerMove tilt_drag w))) = updateCalls (controls w) + 1"
    "rotateUpCalls (controls (fst (handlePointerMove tilt_drag w)))
       = rotateUpCalls (controls w) @ [Num (- (5 / 100))]"
proof -
  have e: "pointerId tilt_drag = 7" "isDesktopPointer (pointerType tilt_drag)"
      "clientY tilt_drag = Num 90"
    by (simp_all add: tilt_drag_def shift_down_def makePointerEvent_def isDesktopPointer_def)
  have t: "computeTiltAngleFromDrag (jsub (Num 90) (Num 100)) default_radiansPerPixel
      default_maxStep = Num (- (5 / 100))"
    by (simp add: computeTiltAngleFromDrag_def default_radiansPerPixel_def default_maxStep_def
        isZero_def clamp_def Math_max_def Math_min_def jsnum_eval)
  have n: "\<not> jle (Math_abs (Num (- (5 / 100)))) (Num (1 / 10 ^ 12))"
    by (simp add: jle_Num)
  have m: "fst (handlePointerMove tilt_drag w) =
      emitUserNavigate (call_update
        (w\<lparr>state := (state w)\<lparr>shiftTilt := (shiftTilt (state w))\<lparr>lastClientY := Num 90\<rparr>\<rparr>,
           controls := (controls w)\<lparr>rotateUpCalls :=
             rotateUpCalls (controls w) @ [Num (- (5 / 100))]\<rparr>\<rparr>))"
    unfolding handlePointerMove_def Let_def e assms(3) t
    using assms(1,2,4,5) n by (simp add: e)
  show "updateCalls (controls (fst (handlePointerMove tilt_drag w))) = updateCalls (controls w) + 1"
    unfolding m by (simp add: call_update_def emitUserNavigate_def)
  show "rotateUpCalls (controls (fst (handlePointerMove tilt_drag w)))
      = rotateUpCalls (controls w) @ [Num (- (5 / 100))]"
    unfolding m by (simp add: call_update_def emitUserNavigate_def)
qed

lemma minimal_tilt_drag:
  "updateCalls (controls (run [PointerDown shift_down, PointerMove tilt_drag] minimal_world)) = 1"
  "rotateUpCalls (controls (run [PointerDown shift_down, PointerMove tilt_drag] minimal_world))
     = [Num (- (5 / 100))]"
proof -
  define w where "w = fst (handlePointerDown shift_down minimal_world)"
  have d: "w =
      minimal_world\<lparr>state := initial_state\<lparr>interactionMode := TILT, activeMousePointerId := Some 7,
          shiftTilt := \<lparr>active = True, tilt_pointerId = Some 7, lastClientY = Num 100\<rparr>\<rparr>,
        controls := harness_controls\<lparr>mouseButtons_LEFT := 1, enabled := False\<rparr>\<rparr>"
    unfolding w_def
    by (simp add: handlePointerDown_def minimal_world_def harness_world_def shift_down_def
        makePointerEvent_def edit_active_def isDesktopPointer_def classifyPointerInteraction_def
        Let_def setLeftMouseBinding_def resolveLeftMouseAction_def harness_MOUSE_def
        initial_state_def harness_controls_def)
  have f: "active (shiftTilt (state w))" "tilt_pointerId (shiftTilt (state w)) = Some 7"
      "lastClientY (shiftTilt (state w)) = Num 100" "has_rotateUp (controls w)"
      "\<not> edit_active w" "updateCalls (controls w) = 0" "rotateUpCalls (controls w) = []"
    unfolding d
    by (simp_all add: harness_controls_def edit_active_def minimal_world_def harness_world_def)
  have r: "run [PointerDown shift_down, PointerMove tilt_drag] minimal_world
      = fst (handlePointerMove tilt_drag w)"
    by (simp add: w_def)
  show "updateCalls (controls (run [PointerDown shift_down, PointerMove tilt_drag] minimal_world)) = 1"
    unfolding r using tilt_drag_step(1) [OF f(1-5)] f(6) by simp
  show "rotateUpCalls (controls (run [PointerDown shift_down, PointerMove tilt_drag] minimal_world))
      = [Num (- (5 / 100))]"
    unfolding r using tilt_drag_step(2) [OF f(1-5)] f(7) by simp
qed

text \<open>The harness configuration without a camera is refused. Without a flag holder and
  without a callback it is installed; a shift-drag then tilts the camera and refreshes the
  controller once, and no notification is sent.\<close>

theorem install_requires_six_witness:
  "isl (installSafeControlsRefinement (harness_config\<lparr>cfg_camera := None\<rparr>))
   \<and> \<not> isl (installSafeControlsRefinement harness_config)
   \<and> installSafeControlsRefinement minimal_config = Inr minimal_world
   \<and> \<not> edit_active (run [PointerDown shift_down, PointerMove tilt_drag] minimal_world)
   \<and> updateCalls (controls (run [PointerDown shift_down, PointerMove tilt_drag] minimal_world)) = 1
   \<and> navigateCalls (run [PointerDown shift_down, PointerMove tilt_drag] minimal_world) = 0"
proof -
  have c: "cfg_lotEditState minimal_config = None" "\<not> cfg_onUserNavigate minimal_config"
    by (simp_all add: minimal_config_def harness_config_def)
  have "isl (installSafeControlsRefinement (harness_config\<lparr>cfg_camera := None\<rparr>))
      \<and> \<not> isl (installSafeControlsRefinement harness_config)"
    using install_requires_six [of "harness_config\<lparr>cfg_camera := None\<rparr>"]
      install_requires_six [of harness_config]
    by (simp add: harness_config_def)
  moreover have "\<not> edit_active (run [PointerDown shift_down, PointerMove tilt_drag] minimal_world)
      \<and> navigateCalls (run [PointerDown shift_down, PointerMove tilt_drag] minimal_world) = 0"
    using install_requires_six [of minimal_config minimal_world
        "[PointerDown shift_down, PointerMove tilt_drag]"] install_minimal c
    by blast
  ultimately show ?thesis
    using install_minimal minimal_tilt_drag(1) by blast
qed

text \<open>Without an edit-mode flag holder and without a navigation callback the harness
  configuration installs the machine.\<close>

theorem install_without_optional:
  "cfg_lotEditState (harness_config\<lparr>cfg_lotEditState := None, cfg_onUserNavigate := False\<rparr>) = None
   \<and> \<not> cfg_onUserNavigate (harness_config\<lparr>cfg_lotEditState := None, cfg_onUserNavigate := False\<rparr>)
   \<and> installSafeControlsRefinement
        (harness_config\<lparr>cfg_lotEditState := None, cfg_onUserNavigate := False\<rparr>)
       = Inr (harness_world\<lparr>lotEditState := None, has_onUserNavigate := False\<rparr>)"
  by (simp add: installSafeControlsRefinement_def harness_config_def harness_world_def
      resetLeftMouseBinding_def harness_MOUSE_def addEventListener_def
      harness_listeners_window_def harness_listeners_dom_def)

text \<open>
  C8. While the edit-mode flag is active, the pointer-down, pointer-move and double-click
  handlers return the whole state (the pointer state, the controller with its recorded
  tilt and refresh calls, the camera, the count of navigation notifications) and the event
  as they were.
\<close>

theorem edit_mode_suppresses:
  "lotEditState w = Some True \<Longrightarrow>
   handlePointerDown e w = (w, e) \<and> handlePointerMove e w = (w, e)
   \<and> handleDoubleClick e w = (w, e)"
  by (simp add: handlePointerDown_def handlePointerMove_def handleDoubleClick_def edit_active_def)


theorem edit_mode_suppresses_witness:
  "lotEditState (harness_world\<lparr>lotEditState := Some True\<rparr>) = Some True
   \<and> handlePointerDown (makePointerEvent\<lparr>shiftKey := True, clientY := Num 100\<rparr>)
        (harness_world\<lparr>lotEditState := Some True\<rparr>)
       = (harness_world\<lparr>lotEditState := Some True\<rparr>,
          makePointerEvent\<lparr>shiftKey := True, clientY := Num 100\<rparr>)
   \<and> handlePointerMove (makePointerEvent\<lparr>shiftKey := True, clientY := Num 100\<rparr>)
        (harness_world\<lparr>lotEditState := Some True\<rparr>)
       = (harness_world\<lparr>lotEditState := Some True\<rparr>,
          makePointerEvent\<lparr>shiftKey := True, clientY := Num 100\<rparr>)
   \<and> handleDoubleClick (makePointerEvent\<lparr>shiftKey := True, clientY := Num 100\<rparr>)
        (harness_world\<lparr>lotEditState := Some True\<rparr>)
       = (harness_world\<lparr>lotEditState := Some True\<rparr>,
          makePointerEvent\<lparr>shiftKey := True, clientY := Num 100\<rparr>)"
  using edit_mode_suppresses [of "harness_world\<lparr>lotEditState := Some True\<rparr>"
      "makePointerEvent\<lparr>shiftKey := True, clientY := Num 100\<rparr>"]
  by simp

lemma enter_tilt:
  assumes "\<not> active (shiftTilt (state w))" and "active (shiftTilt (state (dispatch i w)))"
  shows "\<not> enabled (controls (dispatch i w))"
proof (cases i)
  case (PointerDown e)
  with assms show ?thesis
    by (auto simp: handlePointerDown_def Let_def split: if_splits)
next
  case (PointerMove e)
  with assms show ?thesis
    by (auto simp: handlePointerMove_def Let_def split: if_splits)
next
  case (PointerUp e)
  with assms show ?thesis
    by (auto simp: handlePointerUpOrCancel_def endShiftTilt_def Let_def split: if_splits)
next
  case (PointerCancel e)
  with assms show ?thesis
    by (auto simp: handlePointerUpOrCancel_def endShiftTilt_def Let_def split: if_splits)
next
  case WindowBlur
  with assms show ?thesis
    by (auto simp: handleWindowBlur_def endShiftTilt_def Let_def split: if_splits)
next
  case (DoubleClick e)
  with assms show ?thesis
    by (auto simp: handleDoubleClick_def Let_def split: if_splits)
next
  case (EditModeChange a)
  with assms show ?thesis
    by (auto split: option.splits)
qed

lemma leave_tilt:
  assumes "active (shiftTilt (state w))" and "\<not> active (shiftTilt (state (dispatch i w)))"
  shows "enabled (controls (dispatch i w))"
proof (cases i)
  case (PointerDown e)
  with assms show ?thesis
    by (auto simp: handlePointerDown_def Let_def split: if_splits)
next
  case (PointerMove e)
  with assms show ?thesis
    by (auto simp: handlePointerMove_def Let_def split: if_splits)
next
  case (PointerUp e)
  with assms show ?thesis
    by (auto simp: handlePointerUpOrCancel_def endShiftTilt_def Let_def split: if_splits)
next
  case (PointerCancel e)
  with assms show ?thesis
    by (auto simp: handlePointerUpOrCancel_def endShiftTilt_def Let_def split: if_splits)
next
  case WindowBlur
  with assms show ?thesis
    by (auto simp: handleWindowBlur_def endShiftTilt_def Let_def split: if_splits)
next
  case (DoubleClick e)
  with assms show ?thesis
    by (auto simp: handleDoubleClick_def Let_def split: if_splits)
next
  case (EditModeChange a)
  with assms show ?thesis
    by (auto split: option.splits)
qed

lemma install_tilt_disables:
  "installSafeControlsRefinement cfg = Inr w0 \<Longrightarrow> tilt_disables w0"
  by (auto simp: installSafeControlsRefinement_def tilt_disables_def initial_state_def
      split: option.splits if_splits)

lemma tilt_starts:
  assumes "\<not> edit_active w" "isDesktopPointer (pointerType e)" "button e = 0" "shiftKey e"
  shows "active (shiftTilt (state (fst (handlePointerDown e w))))"
    "tilt_pointerId (shiftTilt (state (fst (handlePointerDown e w)))) = Some (pointerId e)"
    "\<not> enabled (controls (fst (handlePointerDown e w)))"
  using assms
  by (simp_all add: handlePointerDown_def classifyPointerInteraction_def Let_def)

lemma matching_up_ends_tilt:
  assumes "active (shiftTilt (state w))" "isDesktopPointer (pointerType e)"
    "tilt_pointerId (shiftTilt (state w)) = Some (pointerId e)"
  shows "\<not> active (shiftTilt (state (fst (handlePointerUpOrCancel e w))))"
    "enabled (controls (fst (handlePointerUpOrCancel e w)))"
  using assms
  by (simp_all add: handlePointerUpOrCancel_def endShiftTilt_def Let_def)

lemma other_up_keeps_tilt:
  assumes "active (shiftTilt (state w))"
    "\<not> isDesktopPointer (pointerType e) \<or> tilt_pointerId (shiftTilt (state w)) \<noteq> Some (pointerId e)"
  shows "active (shiftTilt (state (fst (handlePointerUpOrCancel e w))))"
  using assms
  by (auto simp: handlePointerUpOrCancel_def endShiftTilt_def Let_def)

lemma blur_ends_tilt:
  "\<not> active (shiftTilt (state (handleWindowBlur w)))"
  "active (shiftTilt (state w)) \<Longrightarrow> enabled (controls (handleWindowBlur w))"
  by (simp_all add: handleWindowBlur_def endShiftTilt_def Let_def)

lemma tilt_left_by:
  assumes "active (shiftTilt (state w))" and "\<not> active (shiftTilt (state (dispatch i w)))"
  shows "i = WindowBlur
     \<or> (\<exists>e. (i = PointerUp e \<or> i = PointerCancel e) \<and> isDesktopPointer (pointerType e)
            \<and> tilt_pointerId (shiftTilt (state w)) = Some (pointerId e))"
proof (cases i)
  case (PointerDown e)
  with assms show ?thesis
    by (auto simp: handlePointerDown_def Let_def split: if_splits)
next
  case (PointerMove e)
  with assms show ?thesis
    by (auto simp: handlePointerMove_def Let_def split: if_splits)
next
  case (PointerUp e)
  with assms other_up_keeps_tilt [of w e] show ?thesis by auto
next
  case (PointerCancel e)
  with assms other_up_keeps_tilt [of w e] show ?thesis by auto
next
  case WindowBlur
  then show ?thesis by simp
next
  case (DoubleClick e)
  with assms show ?thesis
    by (auto simp: handleDoubleClick_def Let_def split: if_splits)
next
  case (EditModeChange a)
  with assms show ?thesis
    by (auto split: option.splits)
qed

lemma tilt_entered_by:
  assumes "\<not> active (shiftTilt (state w))" and "active (shiftTilt (state (dispatch i w)))"
  shows "\<exists>e. i = PointerDown e \<and> \<not> edit_active w \<and> isDesktopPointer (pointerType e)
            \<and> button e = 0 \<and> shiftKey e"
proof (cases i)
  case (PointerDown e)
  with assms show ?thesis
    by (auto simp: handlePointerDown_def classifyPointerInteraction_def Let_def split: if_splits)
next
  case (PointerMove e)
  with assms show ?thesis
    by (auto simp: handlePointerMove_def Let_def split: if_splits)
next
  case (PointerUp e)
  with assms show ?thesis
    by (auto simp: handlePointerUpOrCancel_def endShiftTilt_def Let_def split: if_splits)
next
  case (PointerCancel e)
  with assms show ?thesis
    by (auto simp: handlePointerUpOrCancel_def endShiftTilt_def Let_def split: if_splits)
next
  case WindowBlur
  with assms show ?thesis
    by (auto simp: handleWindowBlur_def endShiftTilt_def Let_def split: if_splits)
next
  case (DoubleClick e)
  with assms show ?thesis
    by (auto simp: handleDoubleClick_def Let_def split: if_splits)
next
  case (EditModeChange a)
  with assms show ?thesis
    by (auto split: option.splits)
qed

text \<open>
  C7. In every state reached from a fresh installation, an active tilt sub-state means a
  disabled controller. An event that enters the tilt sub-state leaves the controller
  disabled, and it is a desktop pointer-down of the left button with the shift key, handled
  outside edit mode; every such pointer-down enters the sub-state. An event that leaves the
  sub-state leaves the controller enabled, and it is a window blur or a desktop pointer-up
  or cancel of the pointer that started the tilt; every such pointer-up or cancel leaves
  the sub-state, and so does every window blur, whatever the pointer.
\<close>

theorem tilt_keeps_controller_disabled:
  "(installSafeControlsRefinement cfg = Inr w0 \<longrightarrow> tilt_disables (run inputs w0))
   \<and> (\<not> active (shiftTilt (state w)) \<and> active (shiftTilt (state (dispatch i w)))
        \<longrightarrow> \<not> enabled (controls (dispatch i w))
            \<and> (\<exists>d. i = PointerDown d \<and> \<not> edit_active w \<and> isDesktopPointer (pointerType d)
                   \<and> button d = 0 \<and> shiftKey d))
   \<and> (active (shiftTilt (state w)) \<and> \<not> active (shiftTilt (state (dispatch i w)))
        \<longrightarrow> enabled (controls (dispatch i w))
            \<and> (i = WindowBlur
                \<or> (\<exists>u. (i = PointerUp u \<or> i = PointerCancel u) \<and> isDesktopPointer (pointerType u)
                       \<and> tilt_pointerId (shiftTilt (state w)) = Some (pointerId u))))
   \<and> (\<not> edit_active w \<and> isDesktopPointer (pointerType e) \<and> button e = 0 \<and> shiftKey e
        \<longrightarrow> active (shiftTilt (state (dispatch (PointerDown e) w)))
            \<and> tilt_pointerId (shiftTilt (state (dispatch (PointerDown e) w))) = Some (pointerId e)
            \<and> \<not> enabled (controls (dispatch (PointerDown e) w)))
   \<and> (active (shiftTilt (state w)) \<and> isDesktopPointer (pointerType e)
        \<and> tilt_pointerId (shiftTilt (state w)) = Some (pointerId e)
        \<longrightarrow> \<not> active (shiftTilt (state (dispatch (PointerUp e) w)))
            \<and> enabled (controls (dispatch (PointerUp e) w))
            \<and> \<not> active (shiftTilt (state (dispatch (PointerCancel e) w)))
            \<and> enabled (controls (dispatch (PointerCancel e) w)))
   \<and> \<not> active (shiftTilt (state (dispatch WindowBlur w)))
   \<and> (active (shiftTilt (state w)) \<longrightarrow> enabled (controls (dispatch WindowBlur w)))"
proof (intro conjI impI)
  assume "installSafeControlsRefinement cfg = Inr w0"
  then show "tilt_disables (run inputs w0)"
    using install_tilt_disables tilt_run by blast
next
  assume a: "\<not> active (shiftTilt (state w)) \<and> active (shiftTilt (state (dispatch i w)))"
  then show "\<not> enabled (controls (dispatch i w))" using enter_tilt by blast
  from a show "\<exists>d. i = PointerDown d \<and> \<not> edit_active w \<and> isDesktopPointer (pointerType d)
      \<and> button d = 0 \<and> shiftKey d"
    using tilt_entered_by by blast
next
  assume a: "active (shiftTilt (state w)) \<and> \<not> active (shiftTilt (state (dispatch i w)))"
  then show "enabled (controls (dispatch i w))" using leave_tilt by blast
  from a show "i = WindowBlur
      \<or> (\<exists>u. (i = PointerUp u \<or> i = PointerCancel u) \<and> isDesktopPointer (pointerType u)
             \<and> tilt_pointerId (shiftTilt (state w)) = Some (pointerId u))"
    using tilt_left_by by blast
next
  assume a: "\<not> edit_active w \<and> isDesktopPointer (pointerType e) \<and> button e = 0 \<and> shiftKey e"
  then show "active (shiftTilt (state (dispatch (PointerDown e) w)))"
    "tilt_pointerId (shiftTilt (state (dispatch (PointerDown e) w))) = Some (pointerId e)"
    "\<not> enabled (controls (dispatch (PointerDown e) w))"
    using tilt_starts [of w e] by simp_all
next
  assume a: "active (shiftTilt (state w)) \<and> isDesktopPointer (pointerType e)
      \<and> tilt_pointerId (shiftTilt (state w)) = Some (pointerId e)"
  then show "\<not> active (shiftTilt (state (dispatch (PointerUp e) w)))"
    "enabled (controls (dispatch (PointerUp e) w))"
    "\<not> active (shiftTilt (state (dispatch (PointerCancel e) w)))"
    "enabled (controls (dispatch (PointerCancel e) w))"
    using matching_up_ends_tilt [of w e] by simp_all
next
  show "\<not> active (shiftTilt (state (dispatch WindowBlur w)))"
    by (simp add: blur_ends_tilt)
next
  assume "active (shiftTilt (state w))"
  then show "enabled (controls (dispatch WindowBlur w))"
    by (simp add: blur_ends_tilt)
qed

lemma shift_down_harness:
  "fst (handlePointerDown shift_down harness_world) =
     harness_world\<lparr>state := initial_state\<lparr>interactionMode := TILT, activeMousePointerId := Some 7,
         shiftTilt := \<lparr>active = True, tilt_pointerId = Some 7, lastClientY = Num 100\<rparr>\<rparr>,
       controls := harness_controls\<lparr>mouseButtons_LEFT := 1, enabled := False\<rparr>\<rparr>"
  by (simp add: handlePointerDown_def harness_world_def shift_down_def makePointerEvent_def
      edit_active_def isDesktopPointer_def classifyPointerInteraction_def Let_def
      setLeftMouseBinding_def resolveLeftMouseAction_def harness_MOUSE_def initial_state_def
      harness_controls_def)

text \<open>On the harness: a shift-press of the left button enters the tilt sub-state and
  disables the controller; the release of that pointer, and a window blur as well, leave
  the sub-state and enable the controller.\<close>

theorem tilt_keeps_controller_disabled_witness:
  "installSafeControlsRefinement harness_config = Inr harness_world
   \<and> \<not> active (shiftTilt (state harness_world))
   \<and> active (shiftTilt (state (run [PointerDown shift_down] harness_world)))
   \<and> \<not> enabled (controls (run [PointerDown shift_down] harness_world))
   \<and> \<not> active (shiftTilt (state (run [PointerDown shift_down, PointerUp (mouse_up 7)] harness_world)))
   \<and> enabled (controls (run [PointerDown shift_down, PointerUp (mouse_up 7)] harness_world))
   \<and> \<not> active (shiftTilt (state (run [PointerDown shift_down, WindowBlur] harness_world)))
   \<and> enabled (controls (run [PointerDown shift_down, WindowBlur] harness_world))"
proof -
  have b: "\<not> active (shiftTilt (state harness_world))"
    by (simp add: harness_world_def initial_state_def)
  have p: "\<not> edit_active harness_world \<and> isDesktopPointer (pointerType shift_down)
      \<and> button shift_down = 0 \<and> shiftKey shift_down"
    by (simp add: edit_active_def harness_world_def shift_down_def makePointerEvent_def
        isDesktopPointer_def)
  have u: "isDesktopPointer (pointerType (mouse_up 7))
      \<and> tilt_pointerId (shiftTilt (state (dispatch (PointerDown shift_down) harness_world)))
          = Some (pointerId (mouse_up 7))"
    by (simp add: shift_down_harness mouse_up_def makePointerEvent_def isDesktopPointer_def)
  have a: "active (shiftTilt (state (dispatch (PointerDown shift_down) harness_world)))
      \<and> \<not> enabled (controls (dispatch (PointerDown shift_down) harness_world))"
    using p tilt_keeps_controller_disabled [of harness_config harness_world "[]" harness_world
        WindowBlur shift_down]
    by blast
  have c: "\<not> active (shiftTilt (state (dispatch (PointerUp (mouse_up 7))
              (dispatch (PointerDown shift_down) harness_world))))
      \<and> enabled (controls (dispatch (PointerUp (mouse_up 7))
              (dispatch (PointerDown shift_down) harness_world)))
      \<and> \<not> active (shiftTilt (state (dispatch WindowBlur
              (dispatch (PointerDown shift_down) harness_world))))
      \<and> enabled (controls (dispatch WindowBlur
              (dispatch (PointerDown shift_down) harness_world)))"
    using a u tilt_keeps_controller_disabled [of harness_config harness_world "[]"
        "dispatch (PointerDown shift_down) harness_world" WindowBlur "mouse_up 7"]
    by blast
  show ?thesis
    using a b c install_harness by simp
qed


lemma settled_invariant: "touch_mode_settled w \<Longrightarrow> touch_invariant w"
  by (auto simp: touch_mode_settled_def touch_invariant_def)

lemma updateTouchInteractionMode_settled: "touch_mode_settled (updateTouchInteractionMode w)"
  by (simp add: touch_mode_settled_def updateTouchInteractionMode_def)

lemma touch_down_settled:
  "\<not> isDesktopPointer (pointerType e) \<Longrightarrow> \<not> edit_active w \<Longrightarrow>
   touch_mode_settled (fst (handlePointerDown e w))"
  by (simp add: handlePointerDown_def updateTouchInteractionMode_settled)

lemma touch_up_settled:
  "\<not> isDesktopPointer (pointerType e) \<Longrightarrow> touch_mode_settled (fst (handlePointerUpOrCancel e w))"
  by (simp add: handlePointerUpOrCancel_def updateTouchInteractionMode_settled)

lemma endShiftTilt_touch [simp]:
  "touchPointerIds (state (endShiftTilt p w)) = touchPointerIds (state w)"
  "interactionMode (state (endShiftTilt p w)) = interactionMode (state w)"
  by (simp_all add: endShiftTilt_def)

lemma blur_settled: "touch_mode_settled (handleWindowBlur w)"
  by (simp add: handleWindowBlur_def touch_mode_settled_def Let_def)

lemma move_settled: "touch_mode_settled w \<Longrightarrow> touch_mode_settled (fst (handlePointerMove e w))"
  by (simp add: handlePointerMove_def touch_mode_settled_def Let_def)

lemma dblclick_settled: "touch_mode_settled w \<Longrightarrow> touch_mode_settled (fst (handleDoubleClick e w))"
  by (simp add: handleDoubleClick_def touch_mode_settled_def Let_def)

lemma dispatch_settled:
  assumes "touch_mode_settled w" and "\<not> desktop_press_or_release i"
  shows "touch_mode_settled (dispatch i w)"
proof (cases i)
  case (PointerDown e)
  with assms show ?thesis
    by (cases "edit_active w") (simp_all add: touch_down_settled, simp add: handlePointerDown_def)
next
  case (EditModeChange a)
  with assms show ?thesis
    by (simp add: touch_mode_settled_def split: option.splits)
qed (use assms in \<open>simp_all add: touch_up_settled blur_settled move_settled dblclick_settled\<close>)

lemma run_settled:
  "touch_mode_settled w \<Longrightarrow> \<forall>i\<in>set inputs. \<not> desktop_press_or_release i \<Longrightarrow>
   touch_mode_settled (run inputs w)"
  by (induction inputs arbitrary: w) (simp_all add: dispatch_settled)

lemma install_settled:
  "installSafeControlsRefinement cfg = Inr w0 \<Longrightarrow> touch_mode_settled w0"
  by (auto simp: installSafeControlsRefinement_def touch_mode_settled_def initial_state_def
      split: option.splits if_splits)

lemma desktop_mode_never_touch:
  "isDesktopPointer t \<Longrightarrow>
   classifyPointerInteraction t b a s n \<noteq> PINCH \<and> classifyPointerInteraction t b a s n \<noteq> NONE"
  by (simp add: classifyPointerInteraction_def)

lemma desktop_down_mode:
  assumes "isDesktopPointer (pointerType e)" "\<not> edit_active w"
  shows "interactionMode (state (fst (handlePointerDown e w))) =
      classifyPointerInteraction (pointerType e) (button e) (altKey e) (shiftKey e) 0"
    "touchPointerIds (state (fst (handlePointerDown e w))) = touchPointerIds (state w)"
  using assms by (simp_all add: handlePointerDown_def Let_def)

lemma desktop_up_mode:
  assumes "isDesktopPointer (pointerType e)"
  shows "interactionMode (state (fst (handlePointerUpOrCancel e w))) = NONE"
    "touchPointerIds (state (fst (handlePointerUpOrCancel e w))) = touchPointerIds (state w)"
  using assms by (simp_all add: handlePointerUpOrCancel_def Let_def)

lemma edit_down_ignored: "edit_active w \<Longrightarrow> fst (handlePointerDown e w) = w"
  by (simp add: handlePointerDown_def)

text \<open>
  C6, as the code has it. The invariants of the touch set hold after every handled touch
  or pen pointer-down, after every touch or pen pointer-up or cancel and after every
  window blur, and so in every state reached from a fresh installation by events among
  which no pointer-down and no pointer-up or cancel comes from a desktop pointer. A desktop
  pointer-down is ignored in edit mode; otherwise it sets the mode to the one the mouse
  gesture is classified as, which is never \<open>PINCH\<close> and never \<open>NONE\<close>, and a desktop
  pointer-up or cancel sets the mode to \<open>NONE\<close>. Both leave the touch set as it was: the
  invariants fail after a handled desktop pointer-down while two touch ids or more are
  held, and after a desktop pointer-up or cancel while one touch id or more is held.
\<close>

theorem touch_invariants_without_desktop_events:
  "(installSafeControlsRefinement cfg = Inr w0 \<and> (\<forall>i\<in>set inputs. \<not> desktop_press_or_release i)
      \<longrightarrow> touch_invariant (run inputs w0))
   \<and> (\<not> isDesktopPointer (pointerType e) \<and> \<not> edit_active w
      \<longrightarrow> touch_invariant (fst (handlePointerDown e w)))
   \<and> (\<not> isDesktopPointer (pointerType e)
      \<longrightarrow> touch_invariant (fst (handlePointerUpOrCancel e w)))
   \<and> touch_invariant (handleWindowBlur w)
   \<and> (edit_active w \<longrightarrow> fst (handlePointerDown e w) = w)
   \<and> (isDesktopPointer (pointerType e) \<and> \<not> edit_active w
      \<longrightarrow> interactionMode (state (fst (handlePointerDown e w))) =
            classifyPointerInteraction (pointerType e) (button e) (altKey e) (shiftKey e) 0
          \<and> interactionMode (state (fst (handlePointerDown e w))) \<noteq> PINCH
          \<and> interactionMode (state (fst (handlePointerDown e w))) \<noteq> NONE
          \<and> touchPointerIds (state (fst (handlePointerDown e w))) = touchPointerIds (state w)
          \<and> (2 \<le> length (touchPointerIds (state w))
               \<longrightarrow> \<not> touch_invariant (fst (handlePointerDown e w))))
   \<and> (isDesktopPointer (pointerType e)
      \<longrightarrow> interactionMode (state (fst (handlePointerUpOrCancel e w))) = NONE
          \<and> touchPointerIds (state (fst (handlePointerUpOrCancel e w))) = touchPointerIds (state w)
          \<and> (1 \<le> length (touchPointerIds (state w))
               \<longrightarrow> \<not> touch_invariant (fst (handlePointerUpOrCancel e w))))"
proof (intro conjI impI)
  assume "installSafeControlsRefinement cfg = Inr w0 \<and> (\<forall>i\<in>set inputs. \<not> desktop_press_or_release i)"
  then have "touch_mode_settled (run inputs w0)"
    using install_settled [of cfg w0] run_settled [of w0 inputs] by simp
  then show "touch_invariant (run inputs w0)" by (rule settled_invariant)
next
  assume "\<not> isDesktopPointer (pointerType e) \<and> \<not> edit_active w"
  then show "touch_invariant (fst (handlePointerDown e w))"
    using touch_down_settled [of e w] settled_invariant by simp
next
  assume "\<not> isDesktopPointer (pointerType e)"
  then show "touch_invariant (fst (handlePointerUpOrCancel e w))"
    using touch_up_settled [of e w] settled_invariant by simp
next
  show "touch_invariant (handleWindowBlur w)"
    using blur_settled [of w] by (rule settled_invariant)
next
  assume "edit_active w"
  then show "fst (handlePointerDown e w) = w" by (rule edit_down_ignored)
next
  assume a: "isDesktopPointer (pointerType e) \<and> \<not> edit_active w"
  then have m: "interactionMode (state (fst (handlePointerDown e w))) =
      classifyPointerInteraction (pointerType e) (button e) (altKey e) (shiftKey e) 0"
    and t: "touchPointerIds (state (fst (handlePointerDown e w))) = touchPointerIds (state w)"
    by (simp_all add: desktop_down_mode)
  from a have n: "classifyPointerInteraction (pointerType e) (button e) (altKey e) (shiftKey e) 0 \<noteq> PINCH"
      "classifyPointerInteraction (pointerType e) (button e) (altKey e) (shiftKey e) 0 \<noteq> NONE"
    by (simp_all add: desktop_mode_never_touch)
  show "interactionMode (state (fst (handlePointerDown e w))) =
      classifyPointerInteraction (pointerType e) (button e) (altKey e) (shiftKey e) 0"
    by (rule m)
  show "interactionMode (state (fst (handlePointerDown e w))) \<noteq> PINCH"
    unfolding m by (rule n)
  show "interactionMode (state (fst (handlePointerDown e w))) \<noteq> NONE"
    unfolding m by (rule n)
  show "touchPointerIds (state (fst (handlePointerDown e w))) = touchPointerIds (state w)"
    by (rule t)
  assume "2 \<le> length (touchPointerIds (state w))"
  then show "\<not> touch_invariant (fst (handlePointerDown e w))"
    using n by (simp add: touch_invariant_def m t)
next
  assume a: "isDesktopPointer (pointerType e)"
  then have m: "interactionMode (state (fst (handlePointerUpOrCancel e w))) = NONE"
    and t: "touchPointerIds (state (fst (handlePointerUpOrCancel e w))) = touchPointerIds (state w)"
    by (simp_all add: desktop_up_mode)
  show "interactionMode (state (fst (handlePointerUpOrCancel e w))) = NONE" by (rule m)
  show "touchPointerIds (state (fst (handlePointerUpOrCancel e w))) = touchPointerIds (state w)"
    by (rule t)
  assume "1 \<le> length (touchPointerIds (state w))"
  then show "\<not> touch_invariant (fst (handlePointerUpOrCancel e w))"
    by (auto simp: touch_invariant_def m t)
qed

lemma touch_down_harness:
  "\<not> edit_active w \<Longrightarrow> fst (handlePointerDown (touch_event p) w) =
     updateTouchInteractionMode
       (w\<lparr>state := (state w)\<lparr>touchPointerIds := set_add p (touchPointerIds (state w))\<rparr>\<rparr>)"
  by (simp add: handlePointerDown_def touch_event_def makePointerEvent_def isDesktopPointer_def)

lemma touch_up_harness:
  "fst (handlePointerUpOrCancel (touch_event p) w) =
     updateTouchInteractionMode
       (w\<lparr>state := (state w)\<lparr>touchPointerIds := set_delete p (touchPointerIds (state w))\<rparr>\<rparr>)"
  by (simp add: handlePointerUpOrCancel_def touch_event_def makePointerEvent_def isDesktopPointer_def)

lemma two_touches_harness:
  "run [PointerDown (touch_event 10), PointerDown (touch_event 11)] harness_world =
     harness_world\<lparr>state := initial_state\<lparr>touchPointerIds := [10, 11], interactionMode := PINCH\<rparr>\<rparr>"
  by (simp add: touch_down_harness updateTouchInteractionMode_def edit_active_def set_add_def
      harness_world_def initial_state_def)

text \<open>On the harness: after two touches the invariants hold with the mode \<open>PINCH\<close>; a
  release of the mouse then sets the mode to \<open>NONE\<close> and leaves the two touch ids.\<close>

theorem touch_invariants_without_desktop_events_witness:
  "installSafeControlsRefinement harness_config = Inr harness_world
   \<and> touch_invariant (run [PointerDown (touch_event 10), PointerDown (touch_event 11)] harness_world)
   \<and> length (touchPointerIds (state
         (run [PointerDown (touch_event 10), PointerDown (touch_event 11)] harness_world))) = 2
   \<and> interactionMode (state
         (run [PointerDown (touch_event 10), PointerDown (touch_event 11)] harness_world)) = PINCH
   \<and> interactionMode (state
         (run [PointerDown (touch_event 10), PointerDown (touch_event 11), PointerUp (mouse_up 1)]
            harness_world)) = NONE
   \<and> length (touchPointerIds (state
         (run [PointerDown (touch_event 10), PointerDown (touch_event 11), PointerUp (mouse_up 1)]
            harness_world))) = 2"
proof -
  define w where "w = run [PointerDown (touch_event 10), PointerDown (touch_event 11)] harness_world"
  have h: "\<forall>i\<in>set [PointerDown (touch_event 10), PointerDown (touch_event 11)].
            \<not> desktop_press_or_release i"
    by (simp add: touch_event_def makePointerEvent_def isDesktopPointer_def)
  have d: "isDesktopPointer (pointerType (mouse_up 1))"
    by (simp add: mouse_up_def makePointerEvent_def isDesktopPointer_def)
  have r: "run [PointerDown (touch_event 10), PointerDown (touch_event 11), PointerUp (mouse_up 1)]
      harness_world = fst (handlePointerUpOrCancel (mouse_up 1) w)"
    by (simp add: w_def)
  have a: "touch_invariant w"
    unfolding w_def
    using install_harness h
      touch_invariants_without_desktop_events [of harness_config harness_world
        "[PointerDown (touch_event 10), PointerDown (touch_event 11)]"]
    by blast
  have b: "interactionMode (state (fst (handlePointerUpOrCancel (mouse_up 1) w))) = NONE
      \<and> touchPointerIds (state (fst (handlePointerUpOrCancel (mouse_up 1) w)))
          = touchPointerIds (state w)"
    using d touch_invariants_without_desktop_events [of harness_config harness_world "[]"
        "mouse_up 1" w]
    by blast
  have t: "w = harness_world\<lparr>state := initial_state\<lparr>touchPointerIds := [10, 11],
      interactionMode := PINCH\<rparr>\<rparr>"
    unfolding w_def by (rule two_touches_harness)
  show ?thesis
    unfolding r w_def [symmetric] using a b install_harness by (simp add: t)
qed

text \<open>Two touches down and then a plain left mouse button: two touch ids are held and the
  mode is \<open>PAN\<close>, not \<open>PINCH\<close>.\<close>

lemma plain_mouse_down:
  "\<not> edit_active w \<Longrightarrow> fst (handlePointerDown makePointerEvent w) =
     setLeftMouseBinding makePointerEvent
       (w\<lparr>state := (state w)\<lparr>interactionMode := PAN, activeMousePointerId := Some 1\<rparr>\<rparr>)"
  by (simp add: handlePointerDown_def makePointerEvent_def isDesktopPointer_def
      classifyPointerInteraction_def Let_def)

lemma two_touches_then_mouse:
  "state (run [PointerDown (touch_event 10), PointerDown (touch_event 11),
               PointerDown makePointerEvent] harness_world)
   = initial_state\<lparr>touchPointerIds := [10, 11], interactionMode := PAN,
       activeMousePointerId := Some 1\<rparr>"
proof -
  have "run [PointerDown (touch_event 10), PointerDown (touch_event 11),
             PointerDown makePointerEvent] harness_world
        = dispatch (PointerDown makePointerEvent)
            (run [PointerDown (touch_event 10), PointerDown (touch_event 11)] harness_world)"
    by simp
  then show ?thesis
    unfolding two_touches_harness
    by (simp add: plain_mouse_down edit_active_def harness_world_def)
qed

theorem touch_invariant_broken_by_mouse:
  "installSafeControlsRefinement harness_config = Inr harness_world
   \<and> length (touchPointerIds (state
         (run [PointerDown (touch_event 10), PointerDown (touch_event 11),
               PointerDown makePointerEvent] harness_world))) = 2
   \<and> interactionMode (state
         (run [PointerDown (touch_event 10), PointerDown (touch_event 11),
               PointerDown makePointerEvent] harness_world)) = PAN
   \<and> \<not> touch_invariant
         (run [PointerDown (touch_event 10), PointerDown (touch_event 11),
               PointerDown makePointerEvent] harness_world)"
  unfolding touch_invariant_def two_touches_then_mouse
  by (simp add: install_harness)

section \<open>Sampling a point buffer: stride and surviving points\<close>

declare sample_loop.simps [simp del] strided_indices.simps [simp del]

lemma write_three:
  "0 < m \<Longrightarrow> (pre @ replicate (m * 3) c)[length pre := x, length pre + 1 := y, length pre + 2 := z]
     = (pre @ [x, y, z]) @ replicate ((m - 1) * 3) c"
proof -
  assume "0 < m"
  then obtain k where m: "m = Suc k" by (cases m) auto
  have "replicate (m * 3) c = replicate 3 c @ replicate (k * 3) c"
    by (simp add: m flip: replicate_add)
  then have "replicate (m * 3) c = c # c # c # replicate (k * 3) c"
    by (simp add: numeral_3_eq_3)
  then show ?thesis by (simp add: m list_update_append)
qed

lemma sample_loop_stop:
  assumes "\<not> (i < n \<and> 0 < s)"
  shows "sample_loop cpu n s i st = st"
  by (subst sample_loop.simps) (simp only: assms if_False simp_thms)

lemma sample_loop_continue:
  assumes "i < n \<and> 0 < s"
  shows "sample_loop cpu n s i st = sample_loop cpu n s (i + s) (sample_point cpu i st)"
  by (subst sample_loop.simps) (simp only: assms if_True simp_thms)

lemma strided_indices_stop:
  assumes "\<not> (i < n \<and> 0 < s)"
  shows "strided_indices i n s = []"
  by (subst strided_indices.simps) (simp only: assms if_False simp_thms)

lemma strided_indices_continue:
  assumes "i < n \<and> 0 < s"
  shows "strided_indices i n s = i # strided_indices (i + s) n s"
  by (subst strided_indices.simps) (simp only: assms if_True simp_thms)

lemma sample_point_cases:
  "sample_point cpu i (xs, w) =
     (if \<forall>c\<in>set (decoded_point cpu i). isFinite c
      then (xs[w := decoded_point cpu i ! 0, w + 1 := decoded_point cpu i ! 1, w + 2 := decoded_point cpu i ! 2], w + 3)
      else (xs, w))"
  by (simp add: sample_point_def decoded_point_def Let_def mult.commute)

lemma sample_loop_fills:
  "length (strided_indices i n s) \<le> m \<Longrightarrow>
   sample_loop cpu n s i (pre @ replicate (m * 3) c, length pre) =
     (pre @ concat (surviving_points cpu (strided_indices i n s))
        @ replicate ((m - length (surviving_points cpu (strided_indices i n s))) * 3) c,
      length pre + 3 * length (surviving_points cpu (strided_indices i n s)))"
proof (induction i n s arbitrary: pre m rule: strided_indices.induct)
  case (1 i n s)
  show ?case
  proof (cases "i < n \<and> 0 < s")
    case False
    then show ?thesis
      by (simp add: sample_loop_stop [OF False] strided_indices_stop [OF False] surviving_points_def)
  next
    case True
    then have idx: "strided_indices i n s = i # strided_indices (i + s) n s"
      by (rule strided_indices_continue)
    with "1.prems" have m: "0 < m" "length (strided_indices (i + s) n s) \<le> m - 1" by auto
    have loop: "sample_loop cpu n s i st = sample_loop cpu n s (i + s) (sample_point cpu i st)" for st
      using True by (rule sample_loop_continue)
    show ?thesis
    proof (cases "\<forall>c\<in>set (decoded_point cpu i). isFinite c")
      case fin: True
      have dp: "[decoded_point cpu i ! 0, decoded_point cpu i ! 1, decoded_point cpu i ! 2] = decoded_point cpu i"
        by (simp add: decoded_point_def)
      have st: "sample_point cpu i (pre @ replicate (m * 3) c, length pre)
          = ((pre @ decoded_point cpu i) @ replicate ((m - 1) * 3) c, length (pre @ decoded_point cpu i))"
        using fin write_three [OF m(1), of pre c "decoded_point cpu i ! 0" "decoded_point cpu i ! 1" "decoded_point cpu i ! 2"]
        by (simp add: sample_point_cases dp) (simp add: decoded_point_def)
      have sv: "surviving_points cpu (strided_indices i n s)
          = decoded_point cpu i # surviving_points cpu (strided_indices (i + s) n s)"
        using fin by (simp add: idx surviving_points_def)
      show ?thesis
        unfolding loop st
        using "1.IH" [OF True m(2), of "pre @ decoded_point cpu i"] m
        by (simp add: sv decoded_point_def)
    next
      case nf: False
      have st: "sample_point cpu i (pre @ replicate (m * 3) c, length pre)
          = (pre @ replicate (m * 3) c, length pre)"
        using nf by (simp add: sample_point_cases)
      have sv: "surviving_points cpu (strided_indices i n s)
          = surviving_points cpu (strided_indices (i + s) n s)"
        using nf by (simp add: idx surviving_points_def)
      have "length (strided_indices (i + s) n s) \<le> m" using m by simp
      then show ?thesis
        unfolding loop st sv
        by (rule "1.IH" [OF True])
    qed
  qed
qed


lemma ceil_div_le_iff: "0 < b \<Longrightarrow> (ceil_div a b \<le> k) = (a \<le> k * b)"
proof -
  assume b: "0 < b"
  have "(ceil_div a b \<le> k) = (real a / real b \<le> real k)"
    by (simp add: ceil_div_def)
  also have "\<dots> = (real a \<le> real k * real b)"
    using b by (simp add: pos_divide_le_eq)
  also have "\<dots> = (a \<le> k * b)"
    by (simp only: of_nat_le_iff flip: of_nat_mult)
  finally show ?thesis .
qed

lemma length_strided_le_iff:
  "0 < s \<Longrightarrow> (length (strided_indices i n s) \<le> k) = (n - i \<le> k * s)"
proof (induction i n s arbitrary: k rule: strided_indices.induct)
  case (1 i n s)
  show ?case
  proof (cases "i < n \<and> 0 < s")
    case False
    with "1.prems" show ?thesis
      by (simp add: strided_indices_stop [OF False])
  next
    case True
    show ?thesis
    proof (cases k)
      case 0
      with True show ?thesis by (simp add: strided_indices_continue [OF True])
    next
      case (Suc j)
      have "(length (strided_indices (i + s) n s) \<le> j) = (n - (i + s) \<le> j * s)"
        using "1.IH" [OF True "1.prems"] .
      with True Suc show ?thesis
        by (simp add: strided_indices_continue [OF True]) arith
    qed
  qed
qed

lemma length_strided: "0 < s \<Longrightarrow> length (strided_indices 0 n s) = ceil_div n s"
proof (rule antisym)
  assume s: "0 < s"
  have "n \<le> ceil_div n s * s"
    using ceil_div_le_iff [OF s, of n "ceil_div n s"] by simp
  then show "length (strided_indices 0 n s) \<le> ceil_div n s"
    using length_strided_le_iff [OF s, of 0 n "ceil_div n s"] by simp
  have "n \<le> length (strided_indices 0 n s) * s"
    using length_strided_le_iff [OF s, of 0 n "length (strided_indices 0 n s)"] by simp
  then show "ceil_div n s \<le> length (strided_indices 0 n s)"
    using ceil_div_le_iff [OF s, of n "length (strided_indices 0 n s)"] by simp
qed


lemma finite_stride_least: "0 < t \<Longrightarrow> is_least_stride n t (finite_stride n t)"
proof -
  assume t: "0 < t"
  have pos: "0 < finite_stride n t" by (simp add: finite_stride_def)
  have "ceil_div n t \<le> finite_stride n t" by (simp add: finite_stride_def)
  then have "n \<le> finite_stride n t * t"
    by (simp only: ceil_div_le_iff [OF t])
  then have a: "ceil_div n (finite_stride n t) \<le> t"
    by (simp only: ceil_div_le_iff [OF pos] mult.commute)
  have b: "finite_stride n t \<le> s'" if "1 \<le> s'" "ceil_div n s' \<le> t" for s'
  proof -
    have "0 < s'" using that by simp
    then have "n \<le> t * s'" using that by (simp only: ceil_div_le_iff)
    then have "ceil_div n t \<le> s'"
      by (simp only: ceil_div_le_iff [OF t] mult.commute)
    with that show ?thesis by (simp add: finite_stride_def)
  qed
  show ?thesis
    unfolding is_least_stride_def using pos a b by auto
qed

lemma length_concat_surviving:
  "length (concat (surviving_points cpu idx)) = 3 * length (surviving_points cpu idx)"
  by (induction idx) (simp_all add: surviving_points_def decoded_point_def)

lemma sampleCpuPointsForFocus_eq:
  assumes t: "1 \<le> normalizedTargetSampleCount targetSampleCount"
  shows "sampleCpuPointsForFocus cpuPoints pointCount targetSampleCount =
     (let n = source_count cpuPoints pointCount;
          s = finite_stride n (normalizedTargetSampleCount targetSampleCount);
          pts = surviving_points cpuPoints (strided_indices 0 n s)
      in if length cpuPoints < 3 \<or> n = 0 \<or> pts = [] then None
         else Some \<lparr>samples = concat pts, stride = enat s, sourcePointCount = n,
                   sampledPointCount = length pts\<rparr>)"
proof -
  define n where "n = source_count cpuPoints pointCount"
  define T where "T = normalizedTargetSampleCount targetSampleCount"
  define s where "s = finite_stride n T"
  define pts where "pts = surviving_points cpuPoints (strided_indices 0 n s)"
  have s: "0 < s" by (simp add: s_def finite_stride_def)
  have T: "T \<noteq> 0" using t by (simp add: T_def)
  have so: "stride_of n T = enat s"
    using T by (simp add: stride_of_def s_def finite_stride_def)
  have est: "estimatedSampledPointCount n (enat s) = ceil_div n s"
    by (simp add: estimatedSampledPointCount_def)
  have "length (strided_indices 0 n s) \<le> ceil_div n s"
    by (simp add: length_strided [OF s])
  from sample_loop_fills [OF this, of cpuPoints "[]" "Num 0"]
  have loop: "sample_loop cpuPoints n s 0 (replicate (ceil_div n s * 3) (Num 0), 0) =
      (concat pts @ replicate ((ceil_div n s - length pts) * 3) (Num 0), 3 * length pts)"
    by (simp add: pts_def)
  have lc: "length (concat pts) = 3 * length pts"
    unfolding pts_def by (rule length_concat_surviving)
  have res: "sampled_result (concat pts @ replicate ((ceil_div n s - length pts) * 3) (Num 0),
        3 * length pts) (enat s) n =
      (if pts = [] then None
       else Some \<lparr>samples = concat pts, stride = enat s, sourcePointCount = n,
                 sampledPointCount = length pts\<rparr>)"
    by (simp add: sampled_result_def lc)
  have "sampleCpuPointsForFocus cpuPoints pointCount targetSampleCount =
      (if length cpuPoints < 3 then None
       else if n = 0 then None
       else sampled_result
              (sample_loop cpuPoints n s 0 (replicate (ceil_div n s * 3) (Num 0), 0)) (enat s) n)"
    unfolding sampleCpuPointsForFocus_def Let_def
    by (simp add: source_count_def [symmetric] n_def [symmetric] T_def [symmetric] so est)
  then show ?thesis
    unfolding loop res Let_def n_def [symmetric] T_def [symmetric] s_def [symmetric]
      pts_def [symmetric]
    by simp
qed


lemma floor_nat_ge_1: "1 \<le> r \<Longrightarrow> 1 \<le> nat \<lfloor>r :: real\<rfloor>"
proof -
  assume "1 \<le> r"
  then have "1 \<le> \<lfloor>r\<rfloor>" by (simp add: le_floor_iff)
  then show ?thesis by linarith
qed

lemma usable_target_normalized:
  "usable_target t \<Longrightarrow> 1 \<le> normalizedTargetSampleCount t"
  by (cases t)
    (auto simp: usable_target_def normalizedTargetSampleCount_def DEFAULT_TARGET_SAMPLE_COUNT_def
      jle_def jgt_def jlt_def split: if_splits intro: floor_nat_ge_1 [simplified])

text \<open>
  C4, as the code has it. The target in effect is the floor of \<open>targetSampleCount\<close>
  when that is finite and at least 1, and the default 18000 when it is absent, not finite
  or not positive. For such a target, \<open>sampleCpuPointsForFocus\<close> uses the smallest
  stride \<open>s \<ge> 1\<close> with \<open>ceil(sourcePointCount / s)\<close> at most the target in effect,
  decodes the points at the indices \<open>0, s, 2s, ...\<close> below \<open>sourcePointCount\<close> (three
  half-floats each, the first two sign-flipped), drops those with a value that is not
  finite, and returns the rest in order; the number of sampled points is at most
  \<open>ceil(sourcePointCount / s)\<close>, hence at most the target in effect. The result is none
  when the buffer has fewer than 3 entries, the source point count is 0 or no point is
  left.
\<close>

theorem sampleCpuPointsForFocus_strided:
  assumes "usable_target targetSampleCount"
  shows "sampleCpuPointsForFocus cpuPoints pointCount targetSampleCount =
     (let n = source_count cpuPoints pointCount;
          s = finite_stride n (normalizedTargetSampleCount targetSampleCount);
          pts = surviving_points cpuPoints (strided_indices 0 n s)
      in if length cpuPoints < 3 \<or> n = 0 \<or> pts = [] then None
         else Some \<lparr>samples = concat pts, stride = enat s, sourcePointCount = n,
                   sampledPointCount = length pts\<rparr>)
   \<and> is_least_stride (source_count cpuPoints pointCount)
        (normalizedTargetSampleCount targetSampleCount)
        (finite_stride (source_count cpuPoints pointCount)
           (normalizedTargetSampleCount targetSampleCount))
   \<and> length (surviving_points cpuPoints (strided_indices 0 (source_count cpuPoints pointCount)
          (finite_stride (source_count cpuPoints pointCount)
             (normalizedTargetSampleCount targetSampleCount))))
       \<le> ceil_div (source_count cpuPoints pointCount)
            (finite_stride (source_count cpuPoints pointCount)
               (normalizedTargetSampleCount targetSampleCount))
   \<and> ceil_div (source_count cpuPoints pointCount)
         (finite_stride (source_count cpuPoints pointCount)
            (normalizedTargetSampleCount targetSampleCount))
       \<le> normalizedTargetSampleCount targetSampleCount"
proof -
  define n where "n = source_count cpuPoints pointCount"
  define T where "T = normalizedTargetSampleCount targetSampleCount"
  have T: "1 \<le> T" unfolding T_def using assms by (rule usable_target_normalized)
  then have T0: "0 < T" by simp
  have s: "0 < finite_stride n T" by (simp add: finite_stride_def)
  have least: "is_least_stride n T (finite_stride n T)"
    using T0 by (rule finite_stride_least)
  then have bound: "ceil_div n (finite_stride n T) \<le> T"
    by (simp add: is_least_stride_def)
  have "length (surviving_points cpuPoints (strided_indices 0 n (finite_stride n T)))
      \<le> length (strided_indices 0 n (finite_stride n T))"
    by (simp add: surviving_points_def)
  then have len: "length (surviving_points cpuPoints (strided_indices 0 n (finite_stride n T)))
      \<le> ceil_div n (finite_stride n T)"
    by (simp only: length_strided [OF s])
  show ?thesis
    using sampleCpuPointsForFocus_eq [OF T [unfolded T_def], of cpuPoints pointCount] least len bound
    unfolding n_def T_def by simp
qed


lemma decode_values:
  "decodeFloat16 (Num 15360) = Num 1" "decodeFloat16 (Num 0) = Num 0"
  "decodeFloat16 (Num 31744) = PosInf"
  by (simp_all add: decode_word ToInt32_def truncate_real_def int_fields_value_def)

lemma strided_0_3_2: "strided_indices 0 3 2 = [0, 2]"
  by (simp add: strided_indices_continue strided_indices_stop)

lemma finite_stride_3_2: "finite_stride 3 2 = 2" "finite_stride 1 18000 = 1"
  by (simp_all add: finite_stride_def ceil_div_def)

text \<open>Three points and the target 2: the stride is 2, the point at index 2 decodes to an
  infinite value and is dropped, and one point is returned.\<close>

theorem sampleCpuPointsForFocus_strided_witness:
  "usable_target (Some (Num 2))
   \<and> sampleCpuPointsForFocus
        [Num 15360, Num 15360, Num 15360, Num 0, Num 0, Num 0, Num 31744, Num 0, Num 0]
        None (Some (Num 2))
       = Some \<lparr>samples = [Num (- 1), Num (- 1), Num 1], stride = 2, sourcePointCount = 3,
                sampledPointCount = 1\<rparr>
   \<and> is_least_stride 3 2 2"
proof -
  have u: "usable_target (Some (Num 2))"
    by (simp add: usable_target_def jle_Num)
  have n: "source_count
      [Num 15360, Num 15360, Num 15360, Num 0, Num 0, Num 0, Num 31744, Num 0, Num 0] None = 3"
    by (simp add: source_count_def requestedPointCount_def)
  have t: "normalizedTargetSampleCount (Some (Num 2)) = 2"
    by (simp add: normalizedTargetSampleCount_def jgt_def jlt_Num)
  have p: "surviving_points
      [Num 15360, Num 15360, Num 15360, Num 0, Num 0, Num 0, Num 31744, Num 0, Num 0] [0, 2]
      = [[Num (- 1), Num (- 1), Num 1]]"
    by (simp add: surviving_points_def decoded_point_def array_read_def decode_values)
  show ?thesis
    using sampleCpuPointsForFocus_strided [OF u,
        of "[Num 15360, Num 15360, Num 15360, Num 0, Num 0, Num 0, Num 31744, Num 0, Num 0]" None]
    unfolding Let_def n t finite_stride_3_2 strided_0_3_2 p
    by (simp add: u numeral_eq_enat)
qed

text \<open>With \<open>targetSampleCount = 0\<close> the default target is used and one point is
  sampled: more than the target passed.\<close>

theorem sampleCpuPointsForFocus_zero_target:
  "sampleCpuPointsForFocus [Num 0, Num 0, Num 0] None (Some (Num 0))
     = Some \<lparr>samples = [NegZero, NegZero, Num 0], stride = 1, sourcePointCount = 1,
              sampledPointCount = 1\<rparr>
   \<and> jlt (Num 0) (Num 1)"
proof -
  have t: "normalizedTargetSampleCount (Some (Num 0)) = 18000"
    by (simp add: normalizedTargetSampleCount_def jgt_def jlt_Num DEFAULT_TARGET_SAMPLE_COUNT_def)
  have n: "source_count [Num 0, Num 0, Num 0] None = 1"
    by (simp add: source_count_def requestedPointCount_def)
  have i: "strided_indices 0 1 1 = [0]"
    by (simp add: strided_indices_continue strided_indices_stop)
  have p: "surviving_points [Num 0, Num 0, Num 0] [0] = [[NegZero, NegZero, Num 0]]"
    by (simp add: surviving_points_def decoded_point_def array_read_def decode_values)
  have "1 \<le> normalizedTargetSampleCount (Some (Num 0))" by (simp add: t)
  from sampleCpuPointsForFocus_eq [OF this, of "[Num 0, Num 0, Num 0]" None]
  show ?thesis
    unfolding Let_def n t finite_stride_3_2 i p
    by (simp add: jlt_Num one_enat_def)
qed

section \<open>Ray picking: the scan\<close>

lemma jadd_NaN [simp]: "jadd NaN b = NaN" "jadd a NaN = NaN"
  by (simp_all add: jadd_def)

lemma jmul_NaN [simp]: "jmul NaN b = NaN" "jmul a NaN = NaN"
  by (simp_all add: jmul_def)

lemma jsub_NaN [simp]: "jsub NaN b = NaN" "jsub a NaN = NaN"
  by (simp_all add: jsub_def)

lemma d_NaN [simp]:
  "add_d NaN b = NaN" "add_d a NaN = NaN" "mul_d NaN b = NaN" "mul_d a NaN = NaN"
  "sub_d NaN b = NaN" "sub_d a NaN = NaN"
  by (simp_all add: add_d_def mul_d_def sub_d_def)

lemma cmp_NaN [simp]: "\<not> jlt NaN b" "\<not> jlt a NaN" "\<not> jle NaN b" "\<not> jle a NaN"
  "\<not> jgt NaN b" "\<not> jgt a NaN"
  by (simp_all add: jlt_def jle_def jgt_def)

lemma not_jle_iff: "a \<noteq> NaN \<Longrightarrow> b \<noteq> NaN \<Longrightarrow> (\<not> jle a b) = jlt b a"
  by (cases a; cases b) (auto simp: jle_def jlt_def)

lemma not_jlt_iff: "a \<noteq> NaN \<Longrightarrow> b \<noteq> NaN \<Longrightarrow> (\<not> jlt a b) = jle b a"
  by (cases a; cases b) (auto simp: jle_def jlt_def)

lemma jlt_irrefl: "\<not> jlt a a"
  by (cases a) (auto simp: jlt_def)

lemma jlt_trans: "jlt a b \<Longrightarrow> jlt b c \<Longrightarrow> jlt a c"
  by (cases a; cases b; cases c) (auto simp: jlt_def)

lemma jlt_cotrans: "b \<noteq> NaN \<Longrightarrow> jlt a c \<Longrightarrow> jlt a b \<or> jlt b c"
  by (cases a; cases b; cases c) (auto simp: jlt_def)

lemma isFinite_not_NaN: "isFinite a \<Longrightarrow> a \<noteq> NaN"
  by auto

lemma isFinite_jlt_PosInf: "isFinite d \<Longrightarrow> jlt d PosInf"
  by (cases d) (auto simp: jlt_def)

lemma jgt_zero_not_NaN: "jgt r (Num 0) \<Longrightarrow> r \<noteq> NaN"
  by auto

text \<open>A squared distance, a sum of three squares, is never negative: it is NaN,
  \<open>+Infinity\<close> or a finite number that is at least 0.\<close>

lemma square_above: "\<not> r * r \<le> - max_round"
  using max_round_pos zero_le_square [of r] by linarith

lemma mul_d_square:
  "mul_d x x = NaN \<or> mul_d x x = PosInf \<or> (isFinite (mul_d x x) \<and> 0 \<le> jval (mul_d x x))"
  using max_round_pos min_round_pos
  by (cases x)
    (auto simp: mul_d_def double_range_def jmul_def mk_num_def mk_inf_def isZero_def square_above)

lemma add_d_not_negative:
  assumes "a = NaN \<or> a = PosInf \<or> (isFinite a \<and> 0 \<le> jval a)"
    and "b = NaN \<or> b = PosInf \<or> (isFinite b \<and> 0 \<le> jval b)"
  shows "add_d a b = NaN \<or> add_d a b = PosInf \<or> (isFinite (add_d a b) \<and> 0 \<le> jval (add_d a b))"
  using assms max_round_pos min_round_pos
  by (cases a; cases b) (auto simp: add_d_def double_range_def jadd_def mk_num_def)

lemma distanceSq_not_negative:
  "sample_distanceSq xs origin direction offset = NaN
   \<or> sample_distanceSq xs origin direction offset = PosInf
   \<or> (isFinite (sample_distanceSq xs origin direction offset)
      \<and> 0 \<le> jval (sample_distanceSq xs origin direction offset))"
  unfolding sample_distanceSq_def Let_def
  by (intro add_d_not_negative mul_d_square)

lemma rayDistance_NaN_distanceSq:
  "sample_rayDistance xs origin direction offset = NaN \<Longrightarrow>
   sample_distanceSq xs origin direction offset = NaN"
  by (simp add: sample_distanceSq_def Let_def)

lemma within_tolerance_PosInf: "\<not> within_tolerance PosInf b"
  by (cases b)
    (auto simp: within_tolerance_def sub_d_def jsub_def jadd_def jle_def tie_tolerance_def)

lemma beats_not_special: "beats d r bd br \<Longrightarrow> d \<noteq> NaN \<and> d \<noteq> PosInf"
proof -
  have "\<not> beats NaN r bd br" by (simp add: beats_def within_tolerance_def)
  moreover have "\<not> beats PosInf r bd br"
    by (simp add: beats_def within_tolerance_PosInf jlt_PosInf)
  moreover assume "beats d r bd br"
  ultimately show ?thesis by auto
qed

lemma closest_step_eq:
  assumes "limit \<noteq> NaN"
  shows "closest_step xs origin direction limit offset best =
     (if qualifies xs origin direction limit offset
         \<and> beats (sample_distanceSq xs origin direction offset)
              (sample_rayDistance xs origin direction offset)
              (bestDistanceSq best) (bestRayDistance best)
      then candidate xs origin direction offset else best)"
proof -
  define r where "r = sample_rayDistance xs origin direction offset"
  define d where "d = sample_distanceSq xs origin direction offset"
  have step: "closest_step xs origin direction limit offset best =
      (if jle r (Num 0) then best
       else if jgt d limit then best
       else if beats d r (bestDistanceSq best) (bestRayDistance best)
       then candidate xs origin direction offset else best)"
    by (simp add: closest_step_def Let_def r_def d_def beats_def within_tolerance_def
        candidate_def)
  have q: "qualifies xs origin direction limit offset
      = (jgt r (Num 0) \<and> isFinite d \<and> jle d limit)"
    by (simp add: qualifies_def r_def d_def)
  have "(\<not> jle r (Num 0) \<and> \<not> jgt d limit) = (jgt r (Num 0) \<and> isFinite d \<and> jle d limit)"
    if "beats d r (bestDistanceSq best) (bestRayDistance best)"
  proof -
    from that have dn: "d \<noteq> NaN" and di: "d \<noteq> PosInf"
      using beats_not_special by blast+
    with distanceSq_not_negative [of xs origin direction offset]
    have fd: "isFinite d" by (simp add: d_def)
    from dn have rn: "r \<noteq> NaN"
      using rayDistance_NaN_distanceSq [of xs origin direction offset] by (auto simp: r_def d_def)
    show ?thesis
      using dn rn fd assms by (simp add: not_jle_iff jgt_def not_jlt_iff)
  qed
  then show ?thesis
    unfolding step q r_def [symmetric] d_def [symmetric] by auto
qed

lemma closest_loop_foldl:
  "closest_loop xs origin direction limit start best =
     foldl (\<lambda>b off. closest_step xs origin direction limit off b) best
       (strided_indices start (length xs) 3)"
proof (induction start "length xs" "3 :: nat" arbitrary: best rule: strided_indices.induct)
  case (1 i)
  show ?case
  proof (cases "i < length xs")
    case True
    then have c: "i < length xs \<and> 0 < (3 :: nat)" by simp
    show ?thesis
      using "1.hyps" [OF c]
      by (simp add: closest_loop_step [OF True] strided_indices_continue [OF c])
  next
    case False
    then have c: "\<not> (i < length xs \<and> 0 < (3 :: nat))" by simp
    show ?thesis
      by (simp add: closest_loop_done [OF False] strided_indices_stop [OF c])
  qed
qed

text \<open>The scan over any list of offsets, with the squared distance \<open>D\<close> and the
  projection length \<open>R\<close> of a sample and the test \<open>Q\<close> that it qualifies.\<close>

lemma scan_result_cases:
  assumes step: "\<And>off b. step off b =
      (if Q off \<and> beats (D off) (R off) (bestDistanceSq b) (bestRayDistance b)
       then \<lparr>bestOffset = int off, bestDistanceSq = D off, bestRayDistance = R off\<rparr> else b)"
  shows "foldl (\<lambda>b off. step off b) best offs = best
     \<or> (\<exists>m\<in>set offs. Q m \<and> foldl (\<lambda>b off. step off b) best offs =
           \<lparr>bestOffset = int m, bestDistanceSq = D m, bestRayDistance = R m\<rparr>)"
proof (induction offs rule: rev_induct)
  case Nil
  show ?case by simp
next
  case (snoc x offs)
  then show ?case by (auto simp: step)
qed

lemma scan_finds:
  assumes step: "\<And>off b. step off b =
      (if Q off \<and> beats (D off) (R off) (bestDistanceSq b) (bestRayDistance b)
       then \<lparr>bestOffset = int off, bestDistanceSq = D off, bestRayDistance = R off\<rparr> else b)"
    and fin: "\<And>off. Q off \<Longrightarrow> jlt (D off) PosInf"
  shows "\<exists>off\<in>set offs. Q off \<Longrightarrow>
     0 \<le> bestOffset (foldl (\<lambda>b off. step off b) initial_best offs)"
proof (induction offs rule: rev_induct)
  case Nil
  then show ?case by simp
next
  case (snoc x offs)
  define r where "r = foldl (\<lambda>b off. step off b) initial_best offs"
  have res: "foldl (\<lambda>b off. step off b) initial_best (offs @ [x]) = step x r"
    by (simp add: r_def)
  show ?case
  proof (cases "\<exists>off\<in>set offs. Q off")
    case True
    then have "0 \<le> bestOffset r" unfolding r_def by (rule snoc.IH)
    then show ?thesis unfolding res by (simp add: step [of x r])
  next
    case False
    with snoc.prems have qx: "Q x" by auto
    from False scan_result_cases [of step Q D R initial_best offs, OF step]
    have "r = initial_best" unfolding r_def by auto
    then show ?thesis
      unfolding res using qx fin [OF qx]
      by (simp add: step beats_def initial_best_def)
  qed
qed

lemma scan_later:
  assumes step: "\<And>off b. step off b =
      (if Q off \<and> beats (D off) (R off) (bestDistanceSq b) (bestRayDistance b)
       then \<lparr>bestOffset = int off, bestDistanceSq = D off, bestRayDistance = R off\<rparr> else b)"
  shows "sorted_wrt (<) offs \<Longrightarrow>
     foldl (\<lambda>b off. step off b) best offs = best
     \<or> (\<exists>m\<in>set offs. Q m
          \<and> foldl (\<lambda>b off. step off b) best offs =
              \<lparr>bestOffset = int m, bestDistanceSq = D m, bestRayDistance = R m\<rparr>
          \<and> (\<forall>x\<in>set offs. m < x \<longrightarrow> \<not> (Q x \<and> beats (D x) (R x) (D m) (R m))))"
proof (induction offs rule: rev_induct)
  case Nil
  show ?case by simp
next
  case (snoc x offs)
  define r where "r = foldl (\<lambda>b off. step off b) best offs"
  from snoc.prems have sorted: "sorted_wrt (<) offs" and below: "\<forall>y\<in>set offs. y < x"
    by (simp_all add: sorted_wrt_append)
  have res: "foldl (\<lambda>b off. step off b) best (offs @ [x]) = step x r"
    by (simp add: r_def)
  show ?case
  proof (cases "Q x \<and> beats (D x) (R x) (bestDistanceSq r) (bestRayDistance r)")
    case True
    then have "step x r = \<lparr>bestOffset = int x, bestDistanceSq = D x, bestRayDistance = R x\<rparr>"
      by (simp add: step)
    moreover have "\<forall>y\<in>set (offs @ [x]). x < y \<longrightarrow> \<not> (Q y \<and> beats (D y) (R y) (D x) (R x))"
      using below by auto
    ultimately show ?thesis
      unfolding res using True by auto
  next
    case False
    then have same: "step x r = r" by (auto simp: step)
    from snoc.IH [OF sorted] show ?thesis
    proof
      assume "foldl (\<lambda>b off. step off b) best offs = best"
      then have "r = best" by (simp add: r_def)
      with same have "step x r = best" by simp
      then show ?thesis unfolding res by simp
    next
      assume "\<exists>m\<in>set offs. Q m
          \<and> foldl (\<lambda>b off. step off b) best offs =
              \<lparr>bestOffset = int m, bestDistanceSq = D m, bestRayDistance = R m\<rparr>
          \<and> (\<forall>x\<in>set offs. m < x \<longrightarrow> \<not> (Q x \<and> beats (D x) (R x) (D m) (R m)))"
      then obtain m where m: "m \<in> set offs" "Q m"
          "r = \<lparr>bestOffset = int m, bestDistanceSq = D m, bestRayDistance = R m\<rparr>"
          "\<forall>x\<in>set offs. m < x \<longrightarrow> \<not> (Q x \<and> beats (D x) (R x) (D m) (R m))"
        unfolding r_def by auto
      from False m(3) have "\<not> (Q x \<and> beats (D x) (R x) (D m) (R m))" by simp
      with m show ?thesis
        unfolding res same by auto
    qed
  qed
qed

text \<open>The scan is the choice among the qualifying offsets.\<close>

lemma scan_as_choice:
  assumes step: "\<And>off b. step off b =
      (if Q off \<and> beats (D off) (R off) (bestDistanceSq b) (bestRayDistance b)
       then \<lparr>bestOffset = int off, bestDistanceSq = D off, bestRayDistance = R off\<rparr> else b)"
    and fin: "\<And>off. Q off \<Longrightarrow> jlt (D off) PosInf"
    and ch: "\<And>c off. ch c off =
      (case c of None \<Rightarrow> Some off
       | Some m \<Rightarrow> if beats (D off) (R off) (D m) (R m) then Some off else Some m)"
  shows "foldl (\<lambda>b off. step off b) initial_best offs =
     (case foldl ch None (filter Q offs) of
        None \<Rightarrow> initial_best
      | Some m \<Rightarrow> \<lparr>bestOffset = int m, bestDistanceSq = D m, bestRayDistance = R m\<rparr>)"
proof (induction offs rule: rev_induct)
  case Nil
  show ?case by simp
next
  case (snoc x offs)
  define c where "c = foldl ch None (filter Q offs)"
  show ?case
  proof (cases "Q x")
    case False
    then show ?thesis using snoc.IH by (simp add: step)
  next
    case qx: True
    then have f: "foldl ch None (filter Q (offs @ [x])) = ch c x"
      by (simp add: c_def)
    show ?thesis
    proof (cases c)
      case None
      with snoc.IH have "foldl (\<lambda>b off. step off b) initial_best offs = initial_best"
        by (simp add: c_def)
      then show ?thesis
        unfolding f using qx fin [OF qx] None
        by (simp add: step ch beats_def initial_best_def)
    next
      case (Some m)
      with snoc.IH have "foldl (\<lambda>b off. step off b) initial_best offs =
          \<lparr>bestOffset = int m, bestDistanceSq = D m, bestRayDistance = R m\<rparr>"
        by (simp add: c_def)
      then show ?thesis
        unfolding f using qx Some by (simp add: step ch)
    qed
  qed
qed

text \<open>When ties are exact, beating is the lexicographic order on the squared distance
  and the projection length, and the scan returns the first least sample in that order.\<close>

lemma within_tolerance_equal:
  "isFinite d \<Longrightarrow> isFinite d' \<Longrightarrow> \<not> jlt d d' \<Longrightarrow> \<not> jlt d' d \<Longrightarrow> within_tolerance d d'"
  using max_round_pos min_round_pos
  by (cases d; cases d')
    (auto simp: within_tolerance_def sub_d_def jsub_def jadd_def mk_num_def double_range_def
      tie_tolerance_def jle_def jlt_def)

lemma beats_lex:
  assumes "isFinite d" "isFinite d'"
    and "within_tolerance d d' \<longrightarrow> \<not> jlt d d' \<and> \<not> jlt d' d"
  shows "beats d r d' r' = lex_before d r d' r'"
  using assms within_tolerance_equal [of d d']
  by (auto simp: beats_def lex_before_def)

lemma lex_irrefl: "\<not> lex_before d r d r"
  by (simp add: lex_before_def jlt_irrefl)

lemma lex_trans:
  assumes "d1 \<noteq> NaN" "d2 \<noteq> NaN" "d3 \<noteq> NaN"
    and "lex_before d1 r1 d2 r2" "lex_before d2 r2 d3 r3"
  shows "lex_before d1 r1 d3 r3"
  using assms jlt_trans [of d1 d2 d3] jlt_trans [of r1 r2 r3]
    jlt_cotrans [of d3 d1 d2] jlt_cotrans [of d1 d2 d3] jlt_cotrans [of d2 d3 d1]
  unfolding lex_before_def by blast

lemma lex_cotrans:
  assumes "d1 \<noteq> NaN" "d2 \<noteq> NaN" "d3 \<noteq> NaN" "r2 \<noteq> NaN"
    and "lex_before d1 r1 d3 r3" "\<not> lex_before d2 r2 d3 r3"
  shows "lex_before d1 r1 d2 r2"
  using assms jlt_cotrans [of d2 d1 d3] jlt_cotrans [of d1 d3 d2] jlt_cotrans [of d3 d2 d1]
    jlt_cotrans [of r2 r1 r3]
  unfolding lex_before_def by blast

lemma scan_first_least:
  assumes step: "\<And>off b. step off b =
      (if Q off \<and> beats (D off) (R off) (bestDistanceSq b) (bestRayDistance b)
       then \<lparr>bestOffset = int off, bestDistanceSq = D off, bestRayDistance = R off\<rparr> else b)"
    and fin: "\<And>off. Q off \<Longrightarrow> isFinite (D off)"
    and rnn: "\<And>off. Q off \<Longrightarrow> R off \<noteq> NaN"
  shows "sorted_wrt (<) offs \<Longrightarrow>
     (\<forall>a\<in>set offs. \<forall>b\<in>set offs. Q a \<and> Q b \<and> within_tolerance (D a) (D b)
        \<longrightarrow> \<not> jlt (D a) (D b) \<and> \<not> jlt (D b) (D a)) \<Longrightarrow>
     (foldl (\<lambda>b off. step off b) initial_best offs = initial_best \<and> (\<forall>q\<in>set offs. \<not> Q q))
     \<or> (\<exists>m\<in>set offs. Q m
          \<and> foldl (\<lambda>b off. step off b) initial_best offs =
              \<lparr>bestOffset = int m, bestDistanceSq = D m, bestRayDistance = R m\<rparr>
          \<and> (\<forall>q\<in>set offs. Q q \<longrightarrow>
                \<not> lex_before (D q) (R q) (D m) (R m)
                \<and> (q < m \<longrightarrow> lex_before (D m) (R m) (D q) (R q))))"
proof (induction offs rule: rev_induct)
  case Nil
  show ?case by simp
next
  case (snoc x offs)
  define r where "r = foldl (\<lambda>b off. step off b) initial_best offs"
  have res: "foldl (\<lambda>b off. step off b) initial_best (offs @ [x]) = step x r"
    by (simp add: r_def)
  from snoc.prems have sorted: "sorted_wrt (<) offs" and below: "\<forall>y\<in>set offs. y < x"
    by (simp_all add: sorted_wrt_append)
  from snoc.prems have ties: "\<forall>a\<in>set offs. \<forall>b\<in>set offs. Q a \<and> Q b \<and> within_tolerance (D a) (D b)
        \<longrightarrow> \<not> jlt (D a) (D b) \<and> \<not> jlt (D b) (D a)"
    and tiesx: "\<forall>b\<in>set offs. Q x \<and> Q b \<and> within_tolerance (D x) (D b)
        \<longrightarrow> \<not> jlt (D x) (D b) \<and> \<not> jlt (D b) (D x)"
    by auto
  from snoc.IH [OF sorted ties]
  have ih: "(r = initial_best \<and> (\<forall>q\<in>set offs. \<not> Q q))
     \<or> (\<exists>m\<in>set offs. Q m
          \<and> r = \<lparr>bestOffset = int m, bestDistanceSq = D m, bestRayDistance = R m\<rparr>
          \<and> (\<forall>q\<in>set offs. Q q \<longrightarrow>
                \<not> lex_before (D q) (R q) (D m) (R m)
                \<and> (q < m \<longrightarrow> lex_before (D m) (R m) (D q) (R q))))"
    unfolding r_def .
  show ?case
  proof (cases "Q x")
    case False
    then have "step x r = r" by (simp add: step)
    with ih False show ?thesis unfolding res by auto
  next
    case qx: True
    have dx: "D x \<noteq> NaN" and rx: "R x \<noteq> NaN"
      using fin [OF qx] rnn [OF qx] by auto
    from ih show ?thesis
    proof
      assume a: "r = initial_best \<and> (\<forall>q\<in>set offs. \<not> Q q)"
      then have "step x r = \<lparr>bestOffset = int x, bestDistanceSq = D x, bestRayDistance = R x\<rparr>"
        using qx isFinite_jlt_PosInf [OF fin [OF qx]]
        by (simp add: step beats_def initial_best_def)
      moreover have "\<forall>q\<in>set (offs @ [x]). Q q \<longrightarrow>
          \<not> lex_before (D q) (R q) (D x) (R x) \<and> (q < x \<longrightarrow> lex_before (D x) (R x) (D q) (R q))"
        using a by (auto simp: lex_irrefl)
      ultimately show ?thesis unfolding res using qx by auto
    next
      assume "\<exists>m\<in>set offs. Q m
          \<and> r = \<lparr>bestOffset = int m, bestDistanceSq = D m, bestRayDistance = R m\<rparr>
          \<and> (\<forall>q\<in>set offs. Q q \<longrightarrow>
                \<not> lex_before (D q) (R q) (D m) (R m)
                \<and> (q < m \<longrightarrow> lex_before (D m) (R m) (D q) (R q)))"
      then obtain m where m: "m \<in> set offs" "Q m"
          "r = \<lparr>bestOffset = int m, bestDistanceSq = D m, bestRayDistance = R m\<rparr>"
          "\<forall>q\<in>set offs. Q q \<longrightarrow>
                \<not> lex_before (D q) (R q) (D m) (R m)
                \<and> (q < m \<longrightarrow> lex_before (D m) (R m) (D q) (R q))"
        by auto
      have dm: "D m \<noteq> NaN" and rm: "R m \<noteq> NaN"
        using fin [OF m(2)] rnn [OF m(2)] by auto
      have "within_tolerance (D x) (D m) \<longrightarrow> \<not> jlt (D x) (D m) \<and> \<not> jlt (D m) (D x)"
        using tiesx m(1,2) qx by blast
      then have b: "beats (D x) (R x) (bestDistanceSq r) (bestRayDistance r)
          = lex_before (D x) (R x) (D m) (R m)"
        using beats_lex [OF fin [OF qx] fin [OF m(2)], of "R x" "R m"] by (simp add: m(3))
      show ?thesis
      proof (cases "lex_before (D x) (R x) (D m) (R m)")
        case True
        then have s: "step x r = \<lparr>bestOffset = int x, bestDistanceSq = D x, bestRayDistance = R x\<rparr>"
          using qx b by (simp add: step)
        have "\<not> lex_before (D q) (R q) (D x) (R x) \<and> lex_before (D x) (R x) (D q) (R q)"
          if q: "q \<in> set offs" "Q q" for q
        proof -
          from m(4) q have nq: "\<not> lex_before (D q) (R q) (D m) (R m)" by blast
          have qn: "D q \<noteq> NaN" "R q \<noteq> NaN" using fin [OF q(2)] rnn [OF q(2)] by auto
          have "\<not> lex_before (D q) (R q) (D x) (R x)"
            using lex_trans [OF qn(1) dx dm _ True, of "R q"] nq by blast
          moreover have "lex_before (D x) (R x) (D q) (R q)"
            using dx qn(1) dm qn(2) True nq by (rule lex_cotrans)
          ultimately show ?thesis by simp
        qed
        then have "\<forall>q\<in>set (offs @ [x]). Q q \<longrightarrow>
            \<not> lex_before (D q) (R q) (D x) (R x) \<and> (q < x \<longrightarrow> lex_before (D x) (R x) (D q) (R q))"
          by (auto simp: lex_irrefl)
        then show ?thesis unfolding res s using qx by auto
      next
        case False
        then have s: "step x r = r" using b by (simp add: step)
        from below m(1) have "m < x" by blast
        then have "\<forall>q\<in>set (offs @ [x]). Q q \<longrightarrow>
            \<not> lex_before (D q) (R q) (D m) (R m) \<and> (q < m \<longrightarrow> lex_before (D m) (R m) (D q) (R q))"
          using m(4) False by auto
        then show ?thesis unfolding res s using m(1,2,3) by auto
      qed
    qed
  qed
qed

lemma first_least_explicit:
  assumes "dm \<noteq> NaN" "rm \<noteq> NaN" "dq \<noteq> NaN" "rq \<noteq> NaN"
    and "\<not> lex_before dq rq dm rm" and "q < m \<longrightarrow> lex_before dm rm dq rq"
  shows "jle dm dq \<and> (\<not> jlt dm dq \<longrightarrow> jle rm rq)
     \<and> (\<not> jlt dm dq \<and> \<not> jlt rm rq \<longrightarrow> m \<le> (q :: nat))"
proof (intro conjI impI)
  from assms(5) have a: "\<not> jlt dq dm" and b: "jlt dm dq \<or> \<not> jlt rq rm"
    by (auto simp: lex_before_def)
  from a show "jle dm dq" using assms(1,3) by (simp add: not_jlt_iff)
  show "jle rm rq" if "\<not> jlt dm dq"
    using that b assms(2,4) by (simp add: not_jlt_iff)
  show "m \<le> q" if "\<not> jlt dm dq \<and> \<not> jlt rm rq"
  proof (rule ccontr)
    assume "\<not> m \<le> q"
    then have "lex_before dm rm dq rq" using assms(6) by simp
    with that show False by (simp add: lex_before_def)
  qed
qed

lemma strided_indices_ge: "x \<in> set (strided_indices i n s) \<Longrightarrow> i \<le> x"
proof (induction i n s rule: strided_indices.induct)
  case (1 i n s)
  show ?case
  proof (cases "i < n \<and> 0 < s")
    case True
    with "1.prems" "1.IH" [OF True] show ?thesis
      by (auto simp: strided_indices_continue [OF True])
  next
    case False
    with "1.prems" show ?thesis
      by (simp add: strided_indices_stop [OF False])
  qed
qed

lemma strided_indices_sorted: "sorted_wrt (<) (strided_indices i n s)"
proof (induction i n s rule: strided_indices.induct)
  case (1 i n s)
  show ?case
  proof (cases "i < n \<and> 0 < s")
    case True
    have "i < x" if "x \<in> set (strided_indices (i + s) n s)" for x
      using strided_indices_ge [OF that] True by simp
    with "1.IH" [OF True] show ?thesis
      by (simp add: strided_indices_continue [OF True])
  next
    case False
    show ?thesis
      by (simp add: strided_indices_stop [OF False])
  qed
qed

lemma strided_indices_less: "x \<in> set (strided_indices i n s) \<Longrightarrow> x < n"
proof (induction i n s rule: strided_indices.induct)
  case (1 i n s)
  show ?case
  proof (cases "i < n \<and> 0 < s")
    case True
    with "1.prems" "1.IH" [OF True] show ?thesis
      by (auto simp: strided_indices_continue [OF True])
  next
    case False
    with "1.prems" show ?thesis
      by (simp add: strided_indices_stop [OF False])
  qed
qed

lemma distanceSqLimit_not_NaN: "distanceSqLimit_of m \<noteq> NaN"
  by (cases m) (auto simp: distanceSqLimit_of_def)

text \<open>A direction whose length is not a finite number: the length is \<open>+Infinity\<close>, each
  component of the normalized direction is a zero or NaN, and so is every projection
  length.\<close>

lemma double_range_above: "jgt (double_range a) t \<Longrightarrow> \<not> isFinite (double_range a) \<Longrightarrow> double_range a = PosInf"
  by (cases "double_range a"; cases t) (auto simp: jgt_def jlt_def)

lemma hypot_not_finite:
  assumes "\<not> isFinite a \<or> \<not> isFinite b \<or> \<not> isFinite c"
  shows "Math_hypot a b c = PosInf \<or> Math_hypot a b c = NaN"
proof (cases "isInfinite a \<or> isInfinite b \<or> isInfinite c")
  case True
  then show ?thesis by (simp add: Math_hypot_def)
next
  case False
  with assms have "a = NaN \<or> b = NaN \<or> c = NaN"
    by (cases a; cases b; cases c) (auto simp: isInfinite_def)
  with False show ?thesis by (simp add: Math_hypot_def)
qed

lemma invalid_direction_length:
  assumes "jgt (hypot_d a b c) t"
    and "\<not> isFinite (hypot_d a b c) \<or> \<not> isFinite a \<or> \<not> isFinite b \<or> \<not> isFinite c"
  shows "hypot_d a b c = PosInf"
proof (cases "isFinite (hypot_d a b c)")
  case False
  with assms(1) show ?thesis unfolding hypot_d_def by (rule double_range_above)
next
  case True
  with assms(2) have "Math_hypot a b c = PosInf \<or> Math_hypot a b c = NaN"
    by (simp add: hypot_not_finite)
  with True show ?thesis by (auto simp: hypot_d_def)
qed

lemma div_by_PosInf: "div_d x PosInf = NaN \<or> isZero (div_d x PosInf)"
  using max_round_pos min_round_pos
  by (cases x) (auto simp: div_d_def jdiv_def mk_num_def double_range_def isZero_def)

lemma mul_by_zero_or_NaN:
  "b = NaN \<or> isZero b \<Longrightarrow> mul_d a b = NaN \<or> isZero (mul_d a b)"
  using max_round_pos min_round_pos
  by (cases a; cases b) (auto simp: mul_d_def jmul_def mk_num_def double_range_def isZero_def)

lemma add_zero_or_NaN:
  "a = NaN \<or> isZero a \<Longrightarrow> b = NaN \<or> isZero b \<Longrightarrow> add_d a b = NaN \<or> isZero (add_d a b)"
  using max_round_pos min_round_pos
  by (cases a; cases b) (auto simp: add_d_def jadd_def mk_num_def double_range_def isZero_def)

lemma zero_or_NaN_not_positive: "a = NaN \<or> isZero a \<Longrightarrow> \<not> jgt a (Num 0)"
  by (cases a) (auto simp: jgt_def jlt_def isZero_def)

lemma rayDistance_degenerate:
  assumes "vx direction = NaN \<or> isZero (vx direction)"
    and "vy direction = NaN \<or> isZero (vy direction)"
    and "vz direction = NaN \<or> isZero (vz direction)"
  shows "\<not> jgt (sample_rayDistance xs origin direction offset) (Num 0)"
  unfolding sample_rayDistance_def Let_def
  by (intro zero_or_NaN_not_positive add_zero_or_NaN mul_by_zero_or_NaN assms)

lemma unit_direction_degenerate:
  assumes "hypot_d (vx v) (vy v) (vz v) = PosInf"
  shows "\<not> qualifies xs origin (unit_direction v) limit offset"
proof -
  have "\<not> jgt (sample_rayDistance xs origin (unit_direction v) offset) (Num 0)"
    by (rule rayDistance_degenerate)
      (simp_all add: unit_direction_def normalized_def assms div_by_PosInf)
  then show ?thesis by (simp add: qualifies_def)
qed

lemma rayDistance_short_array:
  "length xs \<le> offset + 2 \<Longrightarrow> sample_rayDistance xs origin direction offset = NaN"
  by (simp add: sample_rayDistance_def array_read_def)

lemma not_qualifies_NaN:
  "sample_rayDistance xs origin direction offset = NaN \<Longrightarrow>
   \<not> qualifies xs origin direction limit offset"
  by (simp add: qualifies_def)

lemma not_qualifies_short:
  assumes "length xs < 3" and "off \<in> set (sample_offsets xs)"
  shows "\<not> qualifies xs origin direction limit off"
proof -
  from assms(2) have "off < length xs"
    unfolding sample_offsets_def by (rule strided_indices_less)
  with assms(1) have "length xs \<le> off + 2" by simp
  then show ?thesis by (simp add: rayDistance_short_array not_qualifies_NaN)
qed

lemma step_as_scan:
  "closest_step xs origin direction (distanceSqLimit_of m) off b =
     (if qualifies xs origin direction (distanceSqLimit_of m) off
         \<and> beats (sample_distanceSq xs origin direction off)
              (sample_rayDistance xs origin direction off) (bestDistanceSq b) (bestRayDistance b)
      then \<lparr>bestOffset = int off, bestDistanceSq = sample_distanceSq xs origin direction off,
            bestRayDistance = sample_rayDistance xs origin direction off\<rparr>
      else b)"
  using closest_step_eq [OF distanceSqLimit_not_NaN, of xs origin direction m off b]
  by (simp add: candidate_def)

lemma find_as_scan:
  "findClosestSampleToRay xs origin v m =
     (if length xs < 3 \<or> \<not> jgt (hypot_d (vx v) (vy v) (vz v)) (Num (1 / 10 ^ 12))
         \<or> \<not> isFinite (vx origin) \<or> \<not> isFinite (vy origin) \<or> \<not> isFinite (vz origin)
      then None
      else hit_of_best xs
             (foldl (\<lambda>b off. closest_step xs origin (unit_direction v) (distanceSqLimit_of m) off b)
                initial_best (sample_offsets xs)))"
  by (simp add: findClosestSampleToRay_def closest_loop_foldl unit_direction_def sample_offsets_def)

lemma hit_of_best_None: "(hit_of_best xs b = None) = (bestOffset b < 0)"
  by (simp add: hit_of_best_def)

lemma hit_of_best_initial: "hit_of_best xs initial_best = None"
  by (simp add: hit_of_best_def initial_best_def)

lemma hit_of_best_candidate:
  "hit_of_best xs \<lparr>bestOffset = int off, bestDistanceSq = sample_distanceSq xs origin direction off,
       bestRayDistance = sample_rayDistance xs origin direction off\<rparr>
     = Some (hit_at xs origin direction off)"
  by (simp add: hit_of_best_def hit_at_def)

lemma qualifies_below_PosInf:
  "qualifies xs origin direction limit off \<Longrightarrow>
   jlt (sample_distanceSq xs origin direction off) PosInf"
  by (simp add: qualifies_def isFinite_jlt_PosInf)

lemma scan_no_candidates:
  assumes "\<forall>off\<in>set (sample_offsets xs). \<not> qualifies xs origin direction (distanceSqLimit_of m) off"
  shows "foldl (\<lambda>b off. closest_step xs origin direction (distanceSqLimit_of m) off b)
           initial_best (sample_offsets xs) = initial_best"
  using assms
    scan_result_cases [of "\<lambda>off b. closest_step xs origin direction (distanceSqLimit_of m) off b"
      "qualifies xs origin direction (distanceSqLimit_of m)"
      "sample_distanceSq xs origin direction" "sample_rayDistance xs origin direction"
      initial_best "sample_offsets xs", OF step_as_scan]
  by auto

lemma find_invalid_ray:
  assumes "\<not> valid_ray origin v"
  shows "findClosestSampleToRay xs origin v m = None"
proof (cases "jgt (hypot_d (vx v) (vy v) (vz v)) (Num (1 / 10 ^ 12))
    \<and> isFinite (vx origin) \<and> isFinite (vy origin) \<and> isFinite (vz origin)")
  case False
  then show ?thesis by (auto simp: find_as_scan)
next
  case True
  with assms have "\<not> isFinite (hypot_d (vx v) (vy v) (vz v))
      \<or> \<not> isFinite (vx v) \<or> \<not> isFinite (vy v) \<or> \<not> isFinite (vz v)"
    by (auto simp: valid_ray_def)
  with True have "hypot_d (vx v) (vy v) (vz v) = PosInf"
    using invalid_direction_length [of "vx v" "vy v" "vz v" "Num (1 / 10 ^ 12)"] by blast
  then have "\<forall>off\<in>set (sample_offsets xs).
      \<not> qualifies xs origin (unit_direction v) (distanceSqLimit_of m) off"
    by (simp add: unit_direction_degenerate)
  then have "foldl (\<lambda>b off. closest_step xs origin (unit_direction v) (distanceSqLimit_of m) off b)
      initial_best (sample_offsets xs) = initial_best"
    by (rule scan_no_candidates)
  then show ?thesis
    by (simp add: find_as_scan hit_of_best_initial)
qed

lemma find_as_choice:
  assumes "valid_ray origin v"
  shows "findClosestSampleToRay xs origin v m =
     map_option (hit_at xs origin (unit_direction v))
       (scan_choice xs origin (unit_direction v) (distanceSqLimit_of m))"
proof (cases "length xs < 3")
  case True
  then have "filter (qualifies xs origin (unit_direction v) (distanceSqLimit_of m))
      (sample_offsets xs) = []"
    by (simp add: filter_empty_conv not_qualifies_short)
  with True show ?thesis by (simp add: find_as_scan scan_choice_def)
next
  case False
  define c where "c = scan_choice xs origin (unit_direction v) (distanceSqLimit_of m)"
  from assms False have eq: "findClosestSampleToRay xs origin v m = hit_of_best xs
      (foldl (\<lambda>b off. closest_step xs origin (unit_direction v) (distanceSqLimit_of m) off b)
         initial_best (sample_offsets xs))"
    by (simp add: find_as_scan valid_ray_def)
  have "foldl (\<lambda>b off. closest_step xs origin (unit_direction v) (distanceSqLimit_of m) off b)
      initial_best (sample_offsets xs) =
      (case c of None \<Rightarrow> initial_best
       | Some k \<Rightarrow> \<lparr>bestOffset = int k,
           bestDistanceSq = sample_distanceSq xs origin (unit_direction v) k,
           bestRayDistance = sample_rayDistance xs origin (unit_direction v) k\<rparr>)"
    unfolding c_def scan_choice_def
  proof (rule scan_as_choice [of _ "qualifies xs origin (unit_direction v) (distanceSqLimit_of m)"
        "sample_distanceSq xs origin (unit_direction v)"
        "sample_rayDistance xs origin (unit_direction v)"])
    show "closest_step xs origin (unit_direction v) (distanceSqLimit_of m) off b =
        (if qualifies xs origin (unit_direction v) (distanceSqLimit_of m) off
            \<and> beats (sample_distanceSq xs origin (unit_direction v) off)
                 (sample_rayDistance xs origin (unit_direction v) off)
                 (bestDistanceSq b) (bestRayDistance b)
         then \<lparr>bestOffset = int off,
               bestDistanceSq = sample_distanceSq xs origin (unit_direction v) off,
               bestRayDistance = sample_rayDistance xs origin (unit_direction v) off\<rparr>
         else b)" for off b
      by (rule step_as_scan)
    show "jlt (sample_distanceSq xs origin (unit_direction v) off) PosInf"
      if "qualifies xs origin (unit_direction v) (distanceSqLimit_of m) off" for off
      using that by (rule qualifies_below_PosInf)
    show "pick xs origin (unit_direction v) c off =
        (case c of None \<Rightarrow> Some off
         | Some k \<Rightarrow>
             if beats (sample_distanceSq xs origin (unit_direction v) off)
                  (sample_rayDistance xs origin (unit_direction v) off)
                  (sample_distanceSq xs origin (unit_direction v) k)
                  (sample_rayDistance xs origin (unit_direction v) k)
             then Some off else Some k)" for c off
      by (simp add: pick_def split: option.splits)
  qed
  then show ?thesis
    unfolding eq c_def [symmetric]
    by (cases c) (simp_all add: hit_of_best_initial hit_of_best_candidate)
qed

lemma find_none_iff:
  assumes "valid_ray origin v"
  shows "(findClosestSampleToRay xs origin v m = None)
     = (\<forall>off\<in>set (sample_offsets xs).
          \<not> qualifies xs origin (unit_direction v) (distanceSqLimit_of m) off)"
proof (cases "length xs < 3")
  case True
  then show ?thesis by (simp add: find_as_scan not_qualifies_short)
next
  case False
  from assms have hyp: "jgt (hypot_d (vx v) (vy v) (vz v)) (Num (1 / 10 ^ 12))"
    and o: "isFinite (vx origin)" "isFinite (vy origin)" "isFinite (vz origin)"
    by (simp_all add: valid_ray_def)
  have eq: "findClosestSampleToRay xs origin v m = hit_of_best xs
      (foldl (\<lambda>b off. closest_step xs origin (unit_direction v) (distanceSqLimit_of m) off b)
         initial_best (sample_offsets xs))"
    using False hyp o by (simp add: find_as_scan)
  show ?thesis
  proof (cases "\<exists>off\<in>set (sample_offsets xs).
      qualifies xs origin (unit_direction v) (distanceSqLimit_of m) off")
    case True
    have fin: "jlt (sample_distanceSq xs origin (unit_direction v) off) PosInf"
      if "qualifies xs origin (unit_direction v) (distanceSqLimit_of m) off" for off
      using that by (rule qualifies_below_PosInf)
    from scan_finds [of "\<lambda>off b. closest_step xs origin (unit_direction v) (distanceSqLimit_of m) off b"
        "qualifies xs origin (unit_direction v) (distanceSqLimit_of m)"
        "sample_distanceSq xs origin (unit_direction v)"
        "sample_rayDistance xs origin (unit_direction v)" "sample_offsets xs",
        OF step_as_scan fin True]
    show ?thesis using True by (simp add: eq hit_of_best_None)
  next
    case none: False
    then have "foldl (\<lambda>b off. closest_step xs origin (unit_direction v) (distanceSqLimit_of m) off b)
        initial_best (sample_offsets xs) = initial_best"
      by (simp add: scan_no_candidates)
    with none show ?thesis
      by (simp add: eq hit_of_best_initial)
  qed
qed

lemma find_some:
  assumes some: "findClosestSampleToRay xs origin v m = Some h"
  shows "\<exists>off\<in>set (sample_offsets xs).
      qualifies xs origin (unit_direction v) (distanceSqLimit_of m) off
      \<and> h = hit_at xs origin (unit_direction v) off
      \<and> (\<forall>x\<in>set (sample_offsets xs).
            off < x \<and> qualifies xs origin (unit_direction v) (distanceSqLimit_of m) x
            \<longrightarrow> \<not> beats (sample_distanceSq xs origin (unit_direction v) x)
                     (sample_rayDistance xs origin (unit_direction v) x)
                     (sample_distanceSq xs origin (unit_direction v) off)
                     (sample_rayDistance xs origin (unit_direction v) off))
      \<and> (exact_ties xs origin (unit_direction v) (distanceSqLimit_of m)
           \<longrightarrow> (\<forall>q\<in>set (sample_offsets xs).
                  qualifies xs origin (unit_direction v) (distanceSqLimit_of m) q
                  \<longrightarrow> jle (sample_distanceSq xs origin (unit_direction v) off)
                        (sample_distanceSq xs origin (unit_direction v) q)
                      \<and> (\<not> jlt (sample_distanceSq xs origin (unit_direction v) off)
                              (sample_distanceSq xs origin (unit_direction v) q)
                           \<longrightarrow> jle (sample_rayDistance xs origin (unit_direction v) off)
                                 (sample_rayDistance xs origin (unit_direction v) q))
                      \<and> (\<not> jlt (sample_distanceSq xs origin (unit_direction v) off)
                              (sample_distanceSq xs origin (unit_direction v) q)
                           \<and> \<not> jlt (sample_rayDistance xs origin (unit_direction v) off)
                                 (sample_rayDistance xs origin (unit_direction v) q)
                           \<longrightarrow> off \<le> q)))"
proof -
  define Q where "Q = qualifies xs origin (unit_direction v) (distanceSqLimit_of m)"
  define D where "D = sample_distanceSq xs origin (unit_direction v)"
  define R where "R = sample_rayDistance xs origin (unit_direction v)"
  define step where
    "step = (\<lambda>off b. closest_step xs origin (unit_direction v) (distanceSqLimit_of m) off b)"
  define r where "r = foldl (\<lambda>b off. step off b) initial_best (sample_offsets xs)"
  have step: "step off b =
      (if Q off \<and> beats (D off) (R off) (bestDistanceSq b) (bestRayDistance b)
       then \<lparr>bestOffset = int off, bestDistanceSq = D off, bestRayDistance = R off\<rparr> else b)"
    for off b
    unfolding step_def Q_def D_def R_def by (rule step_as_scan)
  from some have hit: "hit_of_best xs r = Some h"
    unfolding r_def step_def by (auto simp: find_as_scan split: if_splits)
  from hit have nonneg: "0 \<le> bestOffset r"
    by (auto simp: hit_of_best_def split: if_splits)
  then have not_init: "r \<noteq> initial_best" by (auto simp: initial_best_def)
  have fin: "isFinite (D off)" if "Q off" for off
    using that unfolding Q_def D_def by (simp add: qualifies_def)
  have rnn: "R off \<noteq> NaN" if "Q off" for off
    using that unfolding Q_def R_def by (auto simp: qualifies_def)
  have sorted: "sorted_wrt (<) (sample_offsets xs)"
    unfolding sample_offsets_def by (rule strided_indices_sorted)
  from scan_later [of step Q D R "sample_offsets xs" initial_best, OF step sorted] not_init
  obtain off where off: "off \<in> set (sample_offsets xs)" "Q off"
      "r = \<lparr>bestOffset = int off, bestDistanceSq = D off, bestRayDistance = R off\<rparr>"
      "\<forall>x\<in>set (sample_offsets xs). off < x \<longrightarrow> \<not> (Q x \<and> beats (D x) (R x) (D off) (R off))"
    unfolding r_def by auto
  have h: "h = hit_at xs origin (unit_direction v) off"
    using hit unfolding off(3) D_def R_def by (simp add: hit_of_best_candidate)
  have least: "\<forall>q\<in>set (sample_offsets xs). Q q \<longrightarrow>
      jle (D off) (D q) \<and> (\<not> jlt (D off) (D q) \<longrightarrow> jle (R off) (R q))
      \<and> (\<not> jlt (D off) (D q) \<and> \<not> jlt (R off) (R q) \<longrightarrow> off \<le> q)"
    if ties: "exact_ties xs origin (unit_direction v) (distanceSqLimit_of m)"
  proof -
    have t: "\<forall>a\<in>set (sample_offsets xs). \<forall>b\<in>set (sample_offsets xs).
        Q a \<and> Q b \<and> within_tolerance (D a) (D b) \<longrightarrow> \<not> jlt (D a) (D b) \<and> \<not> jlt (D b) (D a)"
      using ties unfolding exact_ties_def Q_def D_def .
    from scan_first_least [of step Q D R "sample_offsets xs", OF step fin rnn sorted t] not_init
    obtain k where k: "k \<in> set (sample_offsets xs)"
        "r = \<lparr>bestOffset = int k, bestDistanceSq = D k, bestRayDistance = R k\<rparr>"
        "\<forall>q\<in>set (sample_offsets xs). Q q \<longrightarrow>
            \<not> lex_before (D q) (R q) (D k) (R k) \<and> (q < k \<longrightarrow> lex_before (D k) (R k) (D q) (R q))"
      unfolding r_def by auto
    from k(2) off(3) have "k = off" by simp
    with k(3) have l: "\<forall>q\<in>set (sample_offsets xs). Q q \<longrightarrow>
        \<not> lex_before (D q) (R q) (D off) (R off)
        \<and> (q < off \<longrightarrow> lex_before (D off) (R off) (D q) (R q))"
      by simp
    show ?thesis
    proof (intro ballI impI)
      fix q assume q: "q \<in> set (sample_offsets xs)" "Q q"
      have n: "D off \<noteq> NaN" "R off \<noteq> NaN" "D q \<noteq> NaN" "R q \<noteq> NaN"
        using fin [OF off(2)] rnn [OF off(2)] fin [OF q(2)] rnn [OF q(2)] by auto
      from l q have "\<not> lex_before (D q) (R q) (D off) (R off)"
        and "q < off \<longrightarrow> lex_before (D off) (R off) (D q) (R q)"
        by blast+
      with n show "jle (D off) (D q) \<and> (\<not> jlt (D off) (D q) \<longrightarrow> jle (R off) (R q))
          \<and> (\<not> jlt (D off) (D q) \<and> \<not> jlt (R off) (R q) \<longrightarrow> off \<le> q)"
        by (rule first_least_explicit)
    qed
  qed
  show ?thesis
    using off(1,2,4) h least unfolding Q_def D_def R_def by blast
qed

text \<open>
  C3, as the code has it. \<open>findClosestSampleToRay\<close> returns none for a ray that is not
  valid: the length of the direction is not a finite number above \<open>1e-12\<close> (it is near
  zero, or beyond the range of a double, or a component is not finite), or a component of
  the origin is not finite. For a valid ray the result is the choice of the scan among the
  qualifying samples (positive projection length, finite squared distance within the limit
  in effect), taken in array order, and it is none exactly when no sample qualifies. A
  sample it returns qualifies, is reported with its own offset, coordinates, squared
  distance and projection length, and is beaten by no qualifying sample after it in the
  array. When ties are exact, it has the smallest squared distance among the qualifying
  samples, the smallest projection length among those of that squared distance, and is the
  first in the array among those of that squared distance and projection length.
\<close>

theorem findClosestSampleToRay_scan:
  "(\<not> valid_ray rayOrigin rayDirection \<longrightarrow>
      findClosestSampleToRay xs rayOrigin rayDirection maxDistanceSq = None)
   \<and> (valid_ray rayOrigin rayDirection \<longrightarrow>
      findClosestSampleToRay xs rayOrigin rayDirection maxDistanceSq =
        map_option (hit_at xs rayOrigin (unit_direction rayDirection))
          (scan_choice xs rayOrigin (unit_direction rayDirection)
             (distanceSqLimit_of maxDistanceSq)))
   \<and> (valid_ray rayOrigin rayDirection \<longrightarrow>
      (findClosestSampleToRay xs rayOrigin rayDirection maxDistanceSq = None)
      = (\<forall>off\<in>set (sample_offsets xs).
           \<not> qualifies xs rayOrigin (unit_direction rayDirection)
               (distanceSqLimit_of maxDistanceSq) off))
   \<and> (findClosestSampleToRay xs rayOrigin rayDirection maxDistanceSq = Some h \<longrightarrow>
      (\<exists>off\<in>set (sample_offsets xs).
          qualifies xs rayOrigin (unit_direction rayDirection) (distanceSqLimit_of maxDistanceSq) off
          \<and> h = hit_at xs rayOrigin (unit_direction rayDirection) off
          \<and> (\<forall>x\<in>set (sample_offsets xs).
                off < x \<and> qualifies xs rayOrigin (unit_direction rayDirection)
                             (distanceSqLimit_of maxDistanceSq) x
                \<longrightarrow> \<not> beats (sample_distanceSq xs rayOrigin (unit_direction rayDirection) x)
                         (sample_rayDistance xs rayOrigin (unit_direction rayDirection) x)
                         (sample_distanceSq xs rayOrigin (unit_direction rayDirection) off)
                         (sample_rayDistance xs rayOrigin (unit_direction rayDirection) off))
          \<and> (exact_ties xs rayOrigin (unit_direction rayDirection)
                 (distanceSqLimit_of maxDistanceSq)
               \<longrightarrow> (\<forall>q\<in>set (sample_offsets xs).
                      qualifies xs rayOrigin (unit_direction rayDirection)
                        (distanceSqLimit_of maxDistanceSq) q
                      \<longrightarrow> jle (sample_distanceSq xs rayOrigin (unit_direction rayDirection) off)
                            (sample_distanceSq xs rayOrigin (unit_direction rayDirection) q)
                          \<and> (\<not> jlt (sample_distanceSq xs rayOrigin (unit_direction rayDirection) off)
                                  (sample_distanceSq xs rayOrigin (unit_direction rayDirection) q)
                               \<longrightarrow> jle (sample_rayDistance xs rayOrigin
                                          (unit_direction rayDirection) off)
                                     (sample_rayDistance xs rayOrigin
                                          (unit_direction rayDirection) q))
                          \<and> (\<not> jlt (sample_distanceSq xs rayOrigin (unit_direction rayDirection) off)
                                  (sample_distanceSq xs rayOrigin (unit_direction rayDirection) q)
                               \<and> \<not> jlt (sample_rayDistance xs rayOrigin
                                          (unit_direction rayDirection) off)
                                     (sample_rayDistance xs rayOrigin
                                          (unit_direction rayDirection) q)
                               \<longrightarrow> off \<le> q)))))"
  using find_invalid_ray [of rayOrigin rayDirection xs maxDistanceSq]
    find_as_choice [of rayOrigin rayDirection xs maxDistanceSq]
    find_none_iff [of rayOrigin rayDirection xs maxDistanceSq]
    find_some [of xs rayOrigin rayDirection maxDistanceSq h]
  by (intro conjI impI) assumption+

lemma unit_axis_z: "unit_direction axis_z = axis_z"
  by (simp add: unit_direction_def normalized_def axis_z_def d_eval)

lemma valid_axis_z: "valid_ray origin0 axis_z"
  by (simp add: valid_ray_def origin0_def axis_z_def hypot_d_axis jgt_def jlt_Num)

lemma drift_ray:
  "sample_rayDistance drift_samples origin0 axis_z 0 = Num 10"
  "sample_rayDistance drift_samples origin0 axis_z 3 = Num 9"
  "sample_rayDistance drift_samples origin0 axis_z 6 = Num 8"
  by (simp_all add: sample_rayDistance_def drift_samples_def origin0_def axis_z_def
      array_read_def d_eval)

lemma drift_dist:
  "sample_distanceSq drift_samples origin0 axis_z 0 = Num 0"
  "sample_distanceSq drift_samples origin0 axis_z 3 = Num (1 / 2 ^ 40)"
  "sample_distanceSq drift_samples origin0 axis_z 6 = Num (1 / 2 ^ 39)"
  by (simp_all add: sample_distanceSq_def drift_ray)
    (simp_all add: drift_samples_def origin0_def axis_z_def array_read_def d_eval)

lemma drift_step_0:
  "closest_step drift_samples origin0 axis_z PosInf 0 initial_best
     = \<lparr>bestOffset = 0, bestDistanceSq = Num 0, bestRayDistance = Num 10\<rparr>"
  by (simp add: closest_step_def drift_ray drift_dist initial_best_def jsnum_eval)

lemma drift_step_3:
  "closest_step drift_samples origin0 axis_z PosInf 3
       \<lparr>bestOffset = 0, bestDistanceSq = Num 0, bestRayDistance = Num 10\<rparr>
     = \<lparr>bestOffset = 3, bestDistanceSq = Num (1 / 2 ^ 40), bestRayDistance = Num 9\<rparr>"
  by (simp add: closest_step_def drift_ray drift_dist tie_tolerance_def jsnum_eval d_eval)

lemma drift_step_6:
  "closest_step drift_samples origin0 axis_z PosInf 6
       \<lparr>bestOffset = 3, bestDistanceSq = Num (1 / 2 ^ 40), bestRayDistance = Num 9\<rparr>
     = \<lparr>bestOffset = 6, bestDistanceSq = Num (1 / 2 ^ 39), bestRayDistance = Num 8\<rparr>"
  unfolding closest_step_def Let_def drift_ray drift_dist tie_tolerance_def
  by (simp add: jsnum_eval d_eval)

lemmas drift_steps = drift_step_0 drift_step_3 drift_step_6

lemma drift_loop:
  "closest_loop drift_samples origin0 axis_z PosInf 0 initial_best
     = \<lparr>bestOffset = 6, bestDistanceSq = Num (1 / 2 ^ 39), bestRayDistance = Num 8\<rparr>"
proof -
  have l: "length drift_samples = 9" by (simp add: drift_samples_def)
  have s0: "closest_loop drift_samples origin0 axis_z PosInf 0 b
      = closest_loop drift_samples origin0 axis_z PosInf 3
          (closest_step drift_samples origin0 axis_z PosInf 0 b)" for b
    using closest_loop_step [of 0 drift_samples origin0 axis_z PosInf b] by (simp add: l)
  have s3: "closest_loop drift_samples origin0 axis_z PosInf 3 b
      = closest_loop drift_samples origin0 axis_z PosInf 6
          (closest_step drift_samples origin0 axis_z PosInf 3 b)" for b
    using closest_loop_step [of 3 drift_samples origin0 axis_z PosInf b] by (simp add: l)
  have s6: "closest_loop drift_samples origin0 axis_z PosInf 6 b
      = closest_loop drift_samples origin0 axis_z PosInf 9
          (closest_step drift_samples origin0 axis_z PosInf 6 b)" for b
    using closest_loop_step [of 6 drift_samples origin0 axis_z PosInf b] by (simp add: l)
  have s9: "closest_loop drift_samples origin0 axis_z PosInf 9 b = b" for b
    using closest_loop_done [of 9 drift_samples origin0 axis_z PosInf b] by (simp add: l)
  show ?thesis
    by (simp only: s0 s3 s6 s9 drift_steps)
qed

text \<open>On the three samples of \<open>drift_samples\<close> the scan moves from each sample to the
  next, each time within the tolerance and nearer along the ray, and returns the third: its
  squared distance \<open>2^-39\<close> is more than \<open>1e-12\<close> above the squared distance 0 of the
  first sample, which qualifies too.\<close>

theorem findClosestSampleToRay_drift:
  "findClosestSampleToRay drift_samples origin0 axis_z PosInf
     = Some \<lparr>sampleOffset = 6, hit_x = Num (1 / 2 ^ 20), hit_y = Num (1 / 2 ^ 20), hit_z = Num 8,
              distanceSq = Num (1 / 2 ^ 39), rayDistance = Num 8\<rparr>
   \<and> qualifies drift_samples origin0 (unit_direction axis_z) (distanceSqLimit_of PosInf) 0
   \<and> sample_distanceSq drift_samples origin0 (unit_direction axis_z) 0 = Num 0
   \<and> jlt tie_tolerance (jsub (Num (1 / 2 ^ 39)) (Num 0))"
proof -
  have "findClosestSampleToRay drift_samples origin0 axis_z PosInf
      = hit_of_best drift_samples (closest_loop drift_samples origin0 axis_z PosInf 0 initial_best)"
    using valid_axis_z unit_axis_z
    by (simp add: findClosestSampleToRay_def valid_ray_def unit_direction_def
        distanceSqLimit_of_def drift_samples_def)
  then have a: "findClosestSampleToRay drift_samples origin0 axis_z PosInf
      = Some \<lparr>sampleOffset = 6, hit_x = Num (1 / 2 ^ 20), hit_y = Num (1 / 2 ^ 20), hit_z = Num 8,
              distanceSq = Num (1 / 2 ^ 39), rayDistance = Num 8\<rparr>"
    unfolding drift_loop by (simp add: hit_of_best_def array_read_def drift_samples_def)
  have b: "qualifies drift_samples origin0 (unit_direction axis_z) (distanceSqLimit_of PosInf) 0"
    by (simp add: qualifies_def unit_axis_z drift_ray drift_dist distanceSqLimit_of_def
        jgt_def jlt_Num jle_def)
  have c: "jlt tie_tolerance (jsub (Num (1 / 2 ^ 39)) (Num 0))"
    by (simp add: tie_tolerance_def jsnum_eval)
  show ?thesis
    using a b c by (simp add: unit_axis_z drift_dist)
qed

text \<open>Three cases on the ray from the origin along the third axis. Of the three
  samples of \<open>tied_samples\<close>, all on the ray, the second is returned: it is nearer along
  the ray than the first and comes before the third, which is as near. The sample of
  \<open>far_sample\<close> lies ahead of the origin, but the square of its offset from the ray is
  beyond the largest double: it does not qualify, and nothing is returned. The sample of
  \<open>near_sample\<close> is off the ray, but the square of its offset is below the smallest
  double: its squared distance is 0, and it is returned even with the limit 0.\<close>

lemma double_range_Num:
  "double_range (Num r) =
     (if max_round \<le> r then PosInf else if r \<le> - max_round then NegInf
      else if \<bar>r\<bar> \<le> min_round then (if r < 0 then NegZero else Num 0) else Num r)"
  by (simp add: double_range_def)

lemma tied_offsets: "sample_offsets tied_samples = [0, 3, 6]"
  by (simp add: sample_offsets_def tied_samples_def strided_indices_continue strided_indices_stop)

lemma tied_ray:
  "sample_rayDistance tied_samples origin0 axis_z 0 = Num 2"
  "sample_rayDistance tied_samples origin0 axis_z 3 = Num 1"
  "sample_rayDistance tied_samples origin0 axis_z 6 = Num 1"
  by (simp_all add: sample_rayDistance_def tied_samples_def origin0_def axis_z_def
      array_read_def d_eval)

lemma tied_dist:
  "sample_distanceSq tied_samples origin0 axis_z 0 = Num 0"
  "sample_distanceSq tied_samples origin0 axis_z 3 = Num 0"
  "sample_distanceSq tied_samples origin0 axis_z 6 = Num 0"
  by (simp_all add: sample_distanceSq_def tied_ray)
    (simp_all add: tied_samples_def origin0_def axis_z_def array_read_def d_eval)

lemma tied_choice:
  "scan_choice tied_samples origin0 axis_z PosInf = Some 3"
  by (simp add: scan_choice_def tied_offsets qualifies_def pick_def beats_def within_tolerance_def
      tied_ray tied_dist tie_tolerance_def jsnum_eval d_eval jle_def)

lemma far_offsets: "sample_offsets far_sample = [0]"
  by (simp add: sample_offsets_def far_sample_def strided_indices_continue strided_indices_stop)

lemma far_ray: "sample_rayDistance far_sample origin0 axis_z 0 = Num 1"
  by (simp add: sample_rayDistance_def far_sample_def origin0_def axis_z_def array_read_def
      sub_d_def mul_d_def add_d_def jsnum_eval double_range_Num max_round_def min_round_def)

lemma jadd_PosInf_Num: "jadd PosInf (Num b) = PosInf"
  by (simp add: jadd_def)

lemma far_dist: "sample_distanceSq far_sample origin0 axis_z 0 = PosInf"
  by (simp add: sample_distanceSq_def far_ray)
    (simp add: far_sample_def origin0_def axis_z_def array_read_def
      sub_d_def mul_d_def add_d_def jsnum_eval double_range_Num max_round_def min_round_def jadd_PosInf_Num)

lemma near_offsets: "sample_offsets near_sample = [0]"
  by (simp add: sample_offsets_def near_sample_def strided_indices_continue strided_indices_stop)

lemma near_ray: "sample_rayDistance near_sample origin0 axis_z 0 = Num 1"
  by (simp add: sample_rayDistance_def near_sample_def origin0_def axis_z_def array_read_def
      sub_d_def mul_d_def add_d_def jsnum_eval double_range_Num max_round_def min_round_def)

lemma near_dist: "sample_distanceSq near_sample origin0 axis_z 0 = Num 0"
  by (simp add: sample_distanceSq_def near_ray)
    (simp add: near_sample_def origin0_def axis_z_def array_read_def
      sub_d_def mul_d_def add_d_def jsnum_eval double_range_Num max_round_def min_round_def)

lemma near_choice: "scan_choice near_sample origin0 axis_z (Num 0) = Some 0"
  by (simp add: scan_choice_def near_offsets qualifies_def pick_def near_ray near_dist jsnum_eval)

theorem findClosestSampleToRay_scan_witness:
  "valid_ray origin0 axis_z
   \<and> scan_choice tied_samples origin0 (unit_direction axis_z) (distanceSqLimit_of PosInf) = Some 3
   \<and> findClosestSampleToRay tied_samples origin0 axis_z PosInf
       = Some \<lparr>sampleOffset = 3, hit_x = Num 0, hit_y = Num 0, hit_z = Num 1,
                distanceSq = Num 0, rayDistance = Num 1\<rparr>
   \<and> sample_offsets far_sample = [0]
   \<and> \<not> qualifies far_sample origin0 (unit_direction axis_z) (distanceSqLimit_of PosInf) 0
   \<and> findClosestSampleToRay far_sample origin0 axis_z PosInf = None
   \<and> findClosestSampleToRay near_sample origin0 axis_z (Num 0)
       = Some \<lparr>sampleOffset = 0, hit_x = Num (1 / 2 ^ 600), hit_y = Num 0, hit_z = Num 1,
                distanceSq = Num 0, rayDistance = Num 1\<rparr>"
proof -
  have l0: "distanceSqLimit_of (Num 0) = Num 0"
    by (simp add: distanceSqLimit_of_def jsnum_eval)
  have h0: "hit_at near_sample origin0 axis_z 0
      = \<lparr>sampleOffset = 0, hit_x = Num (1 / 2 ^ 600), hit_y = Num 0, hit_z = Num 1,
          distanceSq = Num 0, rayDistance = Num 1\<rparr>"
    by (simp add: hit_at_def near_ray near_dist) (simp add: near_sample_def array_read_def)
  from findClosestSampleToRay_scan [of origin0 axis_z near_sample "Num 0"] valid_axis_z
  have "findClosestSampleToRay near_sample origin0 axis_z (Num 0)
      = map_option (hit_at near_sample origin0 (unit_direction axis_z))
          (scan_choice near_sample origin0 (unit_direction axis_z) (distanceSqLimit_of (Num 0)))"
    by blast
  then have n: "findClosestSampleToRay near_sample origin0 axis_z (Num 0)
      = Some \<lparr>sampleOffset = 0, hit_x = Num (1 / 2 ^ 600), hit_y = Num 0, hit_z = Num 1,
               distanceSq = Num 0, rayDistance = Num 1\<rparr>"
    by (simp add: unit_axis_z l0 near_choice h0)
  have l: "distanceSqLimit_of PosInf = PosInf" by (simp add: distanceSqLimit_of_def)
  have h: "hit_at tied_samples origin0 axis_z 3
      = \<lparr>sampleOffset = 3, hit_x = Num 0, hit_y = Num 0, hit_z = Num 1,
          distanceSq = Num 0, rayDistance = Num 1\<rparr>"
    by (simp add: hit_at_def tied_ray tied_dist) (simp add: tied_samples_def array_read_def)
  have q: "\<not> qualifies far_sample origin0 axis_z PosInf 0"
    by (simp add: qualifies_def far_dist)
  from findClosestSampleToRay_scan [of origin0 axis_z tied_samples PosInf] valid_axis_z
  have "findClosestSampleToRay tied_samples origin0 axis_z PosInf
      = map_option (hit_at tied_samples origin0 (unit_direction axis_z))
          (scan_choice tied_samples origin0 (unit_direction axis_z) (distanceSqLimit_of PosInf))"
    by blast
  then have a: "findClosestSampleToRay tied_samples origin0 axis_z PosInf
      = Some \<lparr>sampleOffset = 3, hit_x = Num 0, hit_y = Num 0, hit_z = Num 1,
               distanceSq = Num 0, rayDistance = Num 1\<rparr>"
    by (simp add: unit_axis_z l tied_choice h)
  from findClosestSampleToRay_scan [of origin0 axis_z far_sample PosInf] valid_axis_z
  have "(findClosestSampleToRay far_sample origin0 axis_z PosInf = None)
      = (\<forall>off\<in>set (sample_offsets far_sample).
           \<not> qualifies far_sample origin0 (unit_direction axis_z) (distanceSqLimit_of PosInf) off)"
    by blast
  then have b: "findClosestSampleToRay far_sample origin0 axis_z PosInf = None"
    by (simp add: unit_axis_z l far_offsets q)
  show ?thesis
    using a b n q valid_axis_z by (simp add: unit_axis_z l tied_choice far_offsets)
qed

end
